(* ===== verification/Prelude.thy ===== *)
theory Prelude
  imports
    Main
    "HOL-Library.State_Monad"
    "HOL-Library.AList"
    "HOL-Library.Char_ord"
    "HOL-Library.List_Lexorder"
begin

text \<open>
  Shared vocabulary of the development.

  \<^item> Go values: \<open>map[K]V\<close> is an association list (its order is one iteration order of
    the map, a nil map is the empty list), \<open>int32\<close> arithmetic is integer arithmetic
    followed by the wrap-around \<open>int32\<close>, a \<open>time.Time\<close> is the number of nanoseconds
    since Go's zero time, so \<open>t.IsZero()\<close> is \<open>t = 0\<close>, a \<open>time.Duration\<close> is a
    number of nanoseconds. Go compares strings byte by byte; so does the order on
    \<open>string\<close> that \<open>Char_ord\<close> and \<open>List_Lexorder\<close> provide.
  \<^item> Errors: a Go result \<open>(x, err)\<close> is a sum, \<open>Inl err\<close> or \<open>Inr x\<close>; a result that
    is an error only has \<open>x = ()\<close>. \<open>sum_bind\<close> is the idiom
    \<open>if err != nil { return err }\<close>.
  \<^item> Effects: a handler is a \<open>State_Monad\<close> computation over \<open>('w, 'e) sys\<close>: the
    cluster state \<open>'w\<close>, which only the API client reads or writes, and the log of the
    observability calls (metrics, events) made so far. \<open>query\<close> reads the cluster,
    \<open>mutate\<close> writes it, \<open>emit\<close> appends to the log and \<open>and_then\<close> is \<open>sum_bind\<close>
    for handlers; \<open>keeps\<close> is the frame property of a handler.
  \<^item> \<open>memo_table\<close> is the contract of the per-reconcile caches: a map that is consulted
    before a fallible lookup and extended after it.
  The collections \<open>go_simps\<close> and \<open>io_simps\<close> carry the component proofs.
\<close>

named_theorems go_simps \<open>evaluation of the Go vocabulary\<close>
named_theorems io_simps \<open>running handlers of the state monad\<close>
named_theorems keeps_intros \<open>which parts of the cluster a handler leaves alone\<close>


section \<open>Definitions\<close>

subsection \<open>Go maps\<close>

type_synonym ('k, 'v) gomap = "('k \<times> 'v) list"
type_synonym strmap = "(string, string) gomap"

definition mget :: "strmap \<Rightarrow> string \<Rightarrow> string" where
  "mget m k = (case map_of m k of None \<Rightarrow> [] | Some v \<Rightarrow> v)"

definition mhas :: "('k, 'v) gomap \<Rightarrow> 'k \<Rightarrow> bool" where
  "mhas m k = (map_of m k \<noteq> None)"

definition mkeys :: "('k, 'v) gomap \<Rightarrow> 'k list" where
  "mkeys m = remdups (map fst m)"

definition mlen :: "('k, 'v) gomap \<Rightarrow> nat" where
  "mlen m = length (mkeys m)"

subsection \<open>Machine integers, times and durations\<close>

type_synonym time = int
type_synonym duration = int

definition int32 :: "int \<Rightarrow> int" where
  "int32 x = signed_take_bit 31 x"

definition in_int32 :: "int \<Rightarrow> bool" where
  "in_int32 x \<longleftrightarrow> - (2 ^ 31) \<le> x \<and> x < 2 ^ 31"

definition max_duration :: duration where
  "max_duration = 2 ^ 63 - 1"

definition min_duration :: duration where
  "min_duration = - (2 ^ 63)"

definition time_sub :: "time \<Rightarrow> time \<Rightarrow> duration" where
  "time_sub t u = max min_duration (min max_duration (t - u))"

definition second :: duration where
  "second = 1000000000"

definition minute :: duration where
  "minute = 60 * second"

definition hour :: duration where
  "hour = 60 * minute"

subsection \<open>Errors and effects\<close>

definition sum_bind :: "'e + 'a \<Rightarrow> ('a \<Rightarrow> 'e + 'b) \<Rightarrow> 'e + 'b" where
  "sum_bind x f = (case x of Inl e \<Rightarrow> Inl e | Inr a \<Rightarrow> f a)"

record ('w, 'e) sys =
  cluster :: 'w
  log :: "'e list"

type_synonym ('w, 'e, 'a) handler = "(('w, 'e) sys, 'a) state"

definition query :: "('w \<Rightarrow> 'a) \<Rightarrow> ('w, 'e, 'a) handler" where
  "query f = State (\<lambda>s. (f (cluster s), s))"

definition mutate :: "('w \<Rightarrow> 'a \<times> 'w) \<Rightarrow> ('w, 'e, 'a) handler" where
  "mutate f = State (\<lambda>s. case f (cluster s) of (r, w) \<Rightarrow> (r, s\<lparr>cluster := w\<rparr>))"

definition emit :: "'e \<Rightarrow> ('w, 'e, unit) handler" where
  "emit e = State (\<lambda>s. ((), s\<lparr>log := log s @ [e]\<rparr>))"

definition ok :: "'a \<Rightarrow> ('w, 'e, 'err + 'a) handler" where
  "ok a = State_Monad.return (Inr a)"

definition fail :: "'err \<Rightarrow> ('w, 'e, 'err + 'a) handler" where
  "fail e = State_Monad.return (Inl e)"

definition and_then ::
  "('w, 'e, 'err + 'a) handler \<Rightarrow> ('a \<Rightarrow> ('w, 'e, 'err + 'b) handler) \<Rightarrow> ('w, 'e, 'err + 'b) handler" where
  "and_then m f = State_Monad.bind m (\<lambda>r. case r of Inl e \<Rightarrow> fail e | Inr a \<Rightarrow> f a)"


section \<open>Lemmas on the Go vocabulary\<close>

lemma mget_Nil [simp]: "mget [] k = []"
  by (simp add: mget_def)

lemma mget_Cons [simp]: "mget ((a, b) # m) k = (if k = a then b else mget m k)"
  by (simp add: mget_def)

lemma mhas_Nil [simp]: "\<not> mhas [] k"
  by (simp add: mhas_def)

lemma mhas_Cons [simp]: "mhas ((a, b) # m) k \<longleftrightarrow> k = a \<or> mhas m k"
  by (simp add: mhas_def)

lemma mget_nonempty_mhas: "mget m k \<noteq> [] \<Longrightarrow> mhas m k"
  by (auto simp: mget_def mhas_def split: option.splits)

lemma mhas_iff: "mhas m k \<longleftrightarrow> k \<in> fst ` set m"
  by (simp add: mhas_def map_of_eq_None_iff)

lemma set_mkeys [simp]: "set (mkeys m) = fst ` set m"
  by (simp add: mkeys_def)

lemma distinct_mkeys [simp]: "distinct (mkeys m)"
  by (simp add: mkeys_def)

lemma int32_id: "in_int32 x \<Longrightarrow> int32 x = x"
  by (simp add: int32_def in_int32_def signed_take_bit_int_eq_self)

lemma in_int32_int32 [simp, intro]: "in_int32 (int32 x)"
  using signed_take_bit_int_less_exp [of 31 x] signed_take_bit_int_greater_eq_minus_exp [of 31 x]
  by (simp add: int32_def in_int32_def)

lemma in_int32_iff_int32: "in_int32 x \<longleftrightarrow> int32 x = x"
  by (metis in_int32_int32 int32_id)

lemma time_sub_pos_iff: "0 < time_sub t u \<longleftrightarrow> u < t"
  by (auto simp: time_sub_def max_duration_def min_duration_def)

lemma sum_bind_Inl [simp]: "sum_bind (Inl e) f = Inl e"
  by (simp add: sum_bind_def)

lemma sum_bind_Inr [simp]: "sum_bind (Inr a) f = f a"
  by (simp add: sum_bind_def)

lemma sum_bind_eq_Inr_iff: "sum_bind x f = Inr b \<longleftrightarrow> (\<exists>a. x = Inr a \<and> f a = Inr b)"
  by (cases x) auto

lemma sum_bind_eq_Inl_iff:
  "sum_bind x f = Inl e \<longleftrightarrow> x = Inl e \<or> (\<exists>a. x = Inr a \<and> f a = Inl e)"
  by (cases x) auto

lemma sum_bind_splits:
  "P (sum_bind x f) \<longleftrightarrow> (\<forall>e. x = Inl e \<longrightarrow> P (Inl e)) \<and> (\<forall>a. x = Inr a \<longrightarrow> P (f a))"
  by (cases x) auto


section \<open>Lemmas on handlers\<close>

lemma run_query [io_simps, simp]: "run_state (query f) s = (f (cluster s), s)"
  by (simp add: query_def)

lemma run_mutate [io_simps, simp]:
  "run_state (mutate f) s = (fst (f (cluster s)), s\<lparr>cluster := snd (f (cluster s))\<rparr>)"
  by (simp add: mutate_def split: prod.split)

lemma run_emit [io_simps, simp]: "run_state (emit e) s = ((), s\<lparr>log := log s @ [e]\<rparr>)"
  by (simp add: emit_def)

lemma run_ok [io_simps, simp]: "run_state (ok a) s = (Inr a, s)"
  by (simp add: ok_def)

lemma run_fail [io_simps, simp]: "run_state (fail e) s = (Inl e, s)"
  by (simp add: fail_def)

lemma run_and_then [io_simps]:
  "run_state (and_then m f) s =
     (case run_state m s of (Inl e, s') \<Rightarrow> (Inl e, s') | (Inr a, s') \<Rightarrow> run_state (f a) s')"
  by (simp add: and_then_def split: prod.split sum.split)

lemma and_then_Inr_elim:
  assumes "run_state (and_then m f) s = (Inr b, s')"
  obtains a t where "run_state m s = (Inr a, t)" and "run_state (f a) t = (Inr b, s')"
  using assms by (auto simp: run_and_then split: prod.splits sum.splits)

lemma and_then_Inl_cases:
  assumes "run_state (and_then m f) s = (Inl e, s')"
  obtains (first) "run_state m s = (Inl e, s')"
    | (second) a t where "run_state m s = (Inr a, t)" and "run_state (f a) t = (Inl e, s')"
  using assms by (auto simp: run_and_then split: prod.splits sum.splits)

text \<open>
  Frame rules: \<open>keeps f m\<close> says that the handler \<open>m\<close> does not change the observation
  \<open>f\<close> of the cluster, whatever it returns.
\<close>

definition keeps :: "('w \<Rightarrow> 'v) \<Rightarrow> ('w, 'e, 'a) handler \<Rightarrow> bool" where
  "keeps f m \<longleftrightarrow> (\<forall>s. f (cluster (snd (run_state m s))) = f (cluster s))"

lemma keepsD: "keeps f m \<Longrightarrow> run_state m s = (r, s') \<Longrightarrow> f (cluster s') = f (cluster s)"
  unfolding keeps_def by (metis snd_conv)

lemma keeps_return [keeps_intros]: "keeps f (State_Monad.return a)"
  by (simp add: keeps_def)

lemma keeps_query [keeps_intros]: "keeps f (query g)"
  by (simp add: keeps_def)

lemma keeps_emit [keeps_intros]: "keeps f (emit e)"
  by (simp add: keeps_def)

lemma keeps_ok [keeps_intros]: "keeps f (ok a)"
  by (simp add: keeps_def)

lemma keeps_fail [keeps_intros]: "keeps f (fail e)"
  by (simp add: keeps_def)

lemma keeps_mutate: "(\<And>w. f (snd (g w)) = f w) \<Longrightarrow> keeps f (mutate g)"
  by (simp add: keeps_def)

lemma keeps_bind [keeps_intros]: "keeps f m \<Longrightarrow> (\<And>a. keeps f (k a)) \<Longrightarrow> keeps f (State_Monad.bind m k)"
  by (simp add: keeps_def split: prod.split) (metis snd_conv)

lemma keeps_and_then [keeps_intros]: "keeps f m \<Longrightarrow> (\<And>a. keeps f (k a)) \<Longrightarrow> keeps f (and_then m k)"
  unfolding and_then_def by (rule keeps_bind) (auto intro: keeps_fail split: sum.split)

lemma keeps_if [keeps_intros]: "(b \<Longrightarrow> keeps f m) \<Longrightarrow> (\<not> b \<Longrightarrow> keeps f n) \<Longrightarrow> keeps f (if b then m else n)"
  by simp

lemma keeps_case_sum [keeps_intros]:
  "(\<And>e. x = Inl e \<Longrightarrow> keeps f (g e)) \<Longrightarrow> (\<And>a. x = Inr a \<Longrightarrow> keeps f (h a)) \<Longrightarrow> keeps f (case x of Inl e \<Rightarrow> g e | Inr a \<Rightarrow> h a)"
  by (cases x) simp_all

lemma keeps_case_prod [keeps_intros]: "(\<And>a b. x = (a, b) \<Longrightarrow> keeps f (g a b)) \<Longrightarrow> keeps f (case x of (a, b) \<Rightarrow> g a b)"
  by (cases x) simp

lemma keeps_case_option [keeps_intros]:
  "(x = None \<Longrightarrow> keeps f m) \<Longrightarrow> (\<And>a. x = Some a \<Longrightarrow> keeps f (g a)) \<Longrightarrow> keeps f (case x of None \<Rightarrow> m | Some a \<Rightarrow> g a)"
  by (cases x) simp_all

lemma keeps_Let [keeps_intros]: "keeps f (g x) \<Longrightarrow> keeps f (Let x g)"
  by (simp add: Let_def)


section \<open>Per-reconcile memo tables\<close>

locale memo_table =
  fixes valid :: "'q \<Rightarrow> bool"
    and key :: "'q \<Rightarrow> 'k"
    and compute :: "'q \<Rightarrow> 'e + 'v"
    and fetch :: "('k, 'v) gomap \<Rightarrow> 'q \<Rightarrow> 'e + ('v \<times> ('k, 'v) gomap)"
  assumes key_determines:
      "valid q \<Longrightarrow> valid q' \<Longrightarrow> key q = key q' \<Longrightarrow> compute q = compute q'"
    and fetch_hit: "valid q \<Longrightarrow> map_of m (key q) = Some v \<Longrightarrow> fetch m q = Inr (v, m)"
    and fetch_miss_ok: "valid q \<Longrightarrow> map_of m (key q) = None \<Longrightarrow> compute q = Inr v \<Longrightarrow>
      fetch m q = Inr (v, AList.update (key q) v m)"
    and fetch_miss_err: "valid q \<Longrightarrow> map_of m (key q) = None \<Longrightarrow> compute q = Inl e \<Longrightarrow> fetch m q = Inl e"
begin

definition coherent :: "('k, 'v) gomap \<Rightarrow> bool" where
  "coherent m \<longleftrightarrow> (\<forall>q v. valid q \<longrightarrow> map_of m (key q) = Some v \<longrightarrow> compute q = Inr v)"

lemma coherent_Nil: "coherent []"
  by (simp add: coherent_def)

lemma coherent_update:
  assumes "coherent m" and "valid q" and "compute q = Inr v"
  shows "coherent (AList.update (key q) v m)"
  unfolding coherent_def
proof (intro allI impI)
  fix q' v'
  assume "valid q'" and look: "map_of (AList.update (key q) v m) (key q') = Some v'"
  show "compute q' = Inr v'"
  proof (cases "key q' = key q")
    case True
    then have "compute q' = compute q"
      using key_determines \<open>valid q'\<close> \<open>valid q\<close> by metis
    with True look assms(3) show ?thesis by (simp add: update_conv)
  next
    case False
    with look have "map_of m (key q') = Some v'" by (simp add: update_conv)
    with assms(1) \<open>valid q'\<close> show ?thesis by (auto simp: coherent_def)
  qed
qed

lemma fetch_err_iff:
  assumes "coherent m" and "valid q"
  shows "fetch m q = Inl e \<longleftrightarrow> compute q = Inl e"
proof (cases "map_of m (key q)")
  case None
  with assms(2) show ?thesis by (cases "compute q") (auto simp: fetch_miss_ok fetch_miss_err)
next
  case (Some v)
  with assms have "compute q = Inr v" by (auto simp: coherent_def)
  with Some assms(2) show ?thesis by (simp add: fetch_hit)
qed

lemma fetch_ok:
  assumes "coherent m" and "valid q" and "fetch m q = Inr (v, m')"
  shows "compute q = Inr v \<and> coherent m'"
proof (cases "map_of m (key q)")
  case None
  then show ?thesis
  proof (cases "compute q")
    case (Inl e)
    with None assms(2,3) show ?thesis by (simp add: fetch_miss_err)
  next
    case (Inr u)
    with None assms show ?thesis by (auto simp: fetch_miss_ok intro: coherent_update)
  qed
next
  case (Some u)
  with assms show ?thesis by (auto simp: fetch_hit coherent_def)
qed

lemma fetch_of_compute:
  assumes "coherent m" and "valid q" and "compute q = Inr v"
  shows "\<exists>m'. fetch m q = Inr (v, m') \<and> coherent m'"
proof (cases "fetch m q")
  case (Inl e)
  with assms show ?thesis by (simp add: fetch_err_iff)
next
  case (Inr p)
  obtain u m' where p: "p = (u, m')" by fastforce
  with Inr assms fetch_ok [OF assms(1,2)] show ?thesis by fastforce
qed

end

end
