(* ===== verification/Capacity.thy ===== *)
theory Capacity
  imports Prelude
begin

text \<open>
  \<open>pkg/capacity\<close>: how many replicas a workload is scaled to. Arguments and result are
  Go \<open>int32\<close> values; the final addition wraps around. \<open>extra_spec\<close> is the intended
  number of extra replicas: the larger of the at-risk count and the configured spare,
  capped by \<open>maxBuffer\<close> when that is positive.
\<close>


section \<open>Definitions\<close>

definition TargetReplicas :: "int \<Rightarrow> int \<Rightarrow> int \<Rightarrow> int \<Rightarrow> int" where
  "TargetReplicas baseline0 atRisk spare maxBuffer =
     (let baseline = (if baseline0 < 0 then 0 else baseline0);
          extra0 = atRisk;
          extra1 = (if spare > extra0 then spare else extra0);
          extra2 = (if extra1 < 1 \<and> atRisk > 0 then 1 else extra1);
          extra = (if maxBuffer > 0 \<and> extra2 > maxBuffer then maxBuffer else extra2)
      in int32 (baseline + extra))"

definition extra_spec :: "int \<Rightarrow> int \<Rightarrow> int \<Rightarrow> int" where
  "extra_spec atRisk spare maxBuffer =
     (let want = max atRisk spare in if maxBuffer > 0 then min want maxBuffer else want)"


section \<open>Lemmas\<close>

lemma TargetReplicas_extra: "TargetReplicas b a s m = int32 (max b 0 + extra_spec a s m)"
  by (auto simp: TargetReplicas_def extra_spec_def Let_def max_def min_def)

lemma extra_spec_nonneg: "0 \<le> a \<Longrightarrow> 0 \<le> extra_spec a s m"
  by (auto simp: extra_spec_def Let_def max_def min_def)

lemma extra_spec_pos: "0 < a \<Longrightarrow> 0 < extra_spec a s m"
  by (auto simp: extra_spec_def Let_def max_def min_def)

lemma TargetReplicas_exact:
  "in_int32 (max b 0 + extra_spec a s m) \<Longrightarrow> TargetReplicas b a s m = max b 0 + extra_spec a s m"
  by (simp add: TargetReplicas_extra int32_id)


section \<open>Properties\<close>

text \<open>
  C38. The scale-up target. When baseline plus extras fits an \<open>int32\<close>, the target is the
  baseline (at least 0) plus at least one extra replica for a workload with at-risk
  pods; the extras never exceed a positive \<open>maxBuffer\<close>, and cover every at-risk pod and
  the configured spare unless that cap applies. That the sum fits is needed, as the code
  does not check it: a baseline at the top of the \<open>int32\<close> range with one at-risk pod and the
  default settings (spare 1, buffer 4) gives the most negative target, below every baseline.
\<close>

theorem TargetReplicas_bounds:
  assumes "0 < a" and "in_int32 (max b 0 + extra_spec a s m)"
  shows "max b 0 < TargetReplicas b a s m
     \<and> (if 0 < m then TargetReplicas b a s m \<le> max b 0 + m else True)
     \<and> (if m \<le> 0 \<or> max a s \<le> m then TargetReplicas b a s m = max b 0 + max a s else True)
     \<and> TargetReplicas 2147483647 1 1 4 = - 2147483648"
proof -
  have "TargetReplicas 2147483647 1 1 4 = - 2147483648" by (simp add: TargetReplicas_def int32_def)
  with extra_spec_pos [OF assms(1), of s m] TargetReplicas_exact [OF assms(2)] show ?thesis
    by (auto simp: extra_spec_def Let_def)
qed

theorem TargetReplicas_bounds_witness:
  "(0::int) < 3 \<and> in_int32 (max 5 0 + extra_spec 3 1 4) \<and> TargetReplicas 5 3 1 4 = 8"
proof -
  have h: "in_int32 (max 5 0 + extra_spec 3 1 4)" by (simp add: in_int32_def extra_spec_def)
  show ?thesis using TargetReplicas_bounds [OF _ h] h by simp
qed

end
