(* ===== verification/Go_Strings.thy ===== *)
theory Go_Strings
  imports Prelude
begin

text \<open>
  What the program uses of Go's \<open>strings\<close>, \<open>strconv\<close> and \<open>fmt\<close> packages. A Go string
  is its list of bytes. White space and letter case are those of ASCII: the strings
  these functions see (object names, annotation tokens, field paths) are ASCII.
\<close>


section \<open>Definitions\<close>

definition is_space :: "char \<Rightarrow> bool" where
  "is_space c = (c = CHR '' '' \<or> c = CHR 0x09 \<or> c = CHR 0x0A \<or> c = CHR 0x0B \<or> c = CHR 0x0C \<or> c = CHR 0x0D)"

definition trim_by :: "(char \<Rightarrow> bool) \<Rightarrow> string \<Rightarrow> string" where
  "trim_by P s = rev (dropWhile P (rev (dropWhile P s)))"

definition TrimSpace :: "string \<Rightarrow> string" where
  "TrimSpace s = trim_by is_space s"

definition TrimCh :: "char \<Rightarrow> string \<Rightarrow> string" where
  "TrimCh c s = trim_by (\<lambda>x. x = c) s"

definition HasPrefix :: "string \<Rightarrow> string \<Rightarrow> bool" where
  "HasPrefix s p = (take (length p) s = p)"

definition HasSuffix :: "string \<Rightarrow> string \<Rightarrow> bool" where
  "HasSuffix s p = HasPrefix (rev s) (rev p)"

definition TrimPrefix :: "string \<Rightarrow> string \<Rightarrow> string" where
  "TrimPrefix s p = (if HasPrefix s p then drop (length p) s else s)"

fun Contains :: "string \<Rightarrow> string \<Rightarrow> bool" where
  "Contains [] p = (p = [])"
| "Contains (c # s) p = (HasPrefix (c # s) p \<or> Contains s p)"

fun SplitCh :: "char \<Rightarrow> string \<Rightarrow> string list" where
  "SplitCh d [] = [[]]"
| "SplitCh d (c # s) =
     (if c = d then [] # SplitCh d s
      else (case SplitCh d s of [] \<Rightarrow> [[c]] | t # ts \<Rightarrow> (c # t) # ts))"

fun JoinStr :: "string \<Rightarrow> string list \<Rightarrow> string" where
  "JoinStr d [] = []"
| "JoinStr d [t] = t"
| "JoinStr d (t # ts) = t @ d @ JoinStr d ts"

fun CutCh :: "char \<Rightarrow> string \<Rightarrow> string \<times> string \<times> bool" where
  "CutCh d [] = ([], [], False)"
| "CutCh d (c # s) =
     (if c = d then ([], s, True)
      else (case CutCh d s of (before, rest, found) \<Rightarrow> (c # before, rest, found)))"

definition ascii_lower :: "char \<Rightarrow> char" where
  "ascii_lower c = (if CHR ''A'' \<le> c \<and> c \<le> CHR ''Z'' then char_of (of_char c + 32 :: nat) else c)"

definition ToLower :: "string \<Rightarrow> string" where
  "ToLower s = map ascii_lower s"

fun digits10 :: "nat \<Rightarrow> string" where
  "digits10 n = (if n < 10 then [char_of (48 + n)] else digits10 (n div 10) @ [char_of (48 + n mod 10)])"

definition FormatInt :: "int \<Rightarrow> string" where
  "FormatInt i = (if i < 0 then CHR ''-'' # digits10 (nat (- i)) else digits10 (nat i))"

definition quote :: "string \<Rightarrow> string" where
  "quote s = ''\"'' @ concat (map (\<lambda>c. if c = CHR 0x22 \<or> c = CHR 0x5C then [CHR 0x5C, c] else [c]) s) @ ''\"''"

definition is_lower :: "char \<Rightarrow> bool" where
  "is_lower c = (CHR ''a'' \<le> c \<and> c \<le> CHR ''z'')"

definition is_upper :: "char \<Rightarrow> bool" where
  "is_upper c = (CHR ''A'' \<le> c \<and> c \<le> CHR ''Z'')"

definition is_digit :: "char \<Rightarrow> bool" where
  "is_digit c = (CHR ''0'' \<le> c \<and> c \<le> CHR ''9'')"

declare digits10.simps [simp del]


section \<open>Trimming\<close>

lemma set_trim_by: "set (trim_by P s) \<subseteq> set s"
  unfolding trim_by_def by (metis set_dropWhileD set_rev subsetI)

lemma set_TrimSpace: "set (TrimSpace s) \<subseteq> set s"
  by (simp add: TrimSpace_def set_trim_by)

lemma length_trim_by: "length (trim_by P s) \<le> length s"
  unfolding trim_by_def using length_dropWhile_le [of P] by (metis length_rev order_trans)

lemma trim_by_hd: "trim_by P s \<noteq> [] \<Longrightarrow> \<not> P (hd (trim_by P s))"
proof -
  assume ne: "trim_by P s \<noteq> []"
  define t where "t = dropWhile P s"
  have "trim_by P s = rev (dropWhile P (rev t))" by (simp add: trim_by_def t_def)
  moreover obtain u where "rev t = u @ dropWhile P (rev t)"
    by (metis takeWhile_dropWhile_id)
  ultimately have "t = trim_by P s @ rev u" by (metis rev_append rev_rev_ident)
  then have "hd (trim_by P s) = hd t" and "t \<noteq> []" using ne by (auto simp: hd_append)
  then show ?thesis unfolding t_def by (metis hd_dropWhile)
qed

lemma trim_by_last: "trim_by P s \<noteq> [] \<Longrightarrow> \<not> P (last (trim_by P s))"
  unfolding trim_by_def by (metis hd_dropWhile last_rev rev.simps(1))

lemma trim_by_id:
  assumes "s \<noteq> [] \<Longrightarrow> \<not> P (hd s)" and "s \<noteq> [] \<Longrightarrow> \<not> P (last s)"
  shows "trim_by P s = s"
proof (cases "s = []")
  case True
  then show ?thesis by (simp add: trim_by_def)
next
  case False
  then have "dropWhile P s = s" using assms(1) by (cases s) auto
  moreover have "dropWhile P (rev s) = rev s"
    using False assms(2) by (cases "rev s") (auto simp: hd_rev [symmetric])
  ultimately show ?thesis by (simp add: trim_by_def)
qed

lemma TrimSpace_idem [simp]: "TrimSpace (TrimSpace s) = TrimSpace s"
  unfolding TrimSpace_def by (rule trim_by_id) (simp_all add: trim_by_hd trim_by_last)

lemma TrimSpace_no_space: "list_all (\<lambda>c. \<not> is_space c) s \<Longrightarrow> TrimSpace s = s"
  unfolding TrimSpace_def by (rule trim_by_id) (auto simp: list_all_iff)

lemma TrimSpace_Nil [simp]: "TrimSpace [] = []"
  by (simp add: TrimSpace_def trim_by_def)


section \<open>Splitting and joining\<close>

lemma SplitCh_not_Nil [simp]: "SplitCh d s \<noteq> []"
  by (induction s) (auto split: list.splits)

lemma SplitCh_no_sep: "d \<notin> set s \<Longrightarrow> SplitCh d s = [s]"
  by (induction s) auto

lemma SplitCh_parts: "t \<in> set (SplitCh d s) \<Longrightarrow> d \<notin> set t"
  by (induction s arbitrary: t) (auto split: list.splits if_splits)

lemma SplitCh_append_sep: "d \<notin> set t \<Longrightarrow> SplitCh d (t @ d # s) = t # SplitCh d s"
  by (induction t) auto

lemma SplitCh_Join:
  assumes "ts \<noteq> []" and "\<forall>t \<in> set ts. d \<notin> set t"
  shows "SplitCh d (JoinStr [d] ts) = ts"
  using assms
proof (induction ts rule: induct_list012)
  case (3 t u ts)
  then show ?case by (simp add: SplitCh_append_sep)
qed (auto simp: SplitCh_no_sep)

lemma Join_SplitCh: "JoinStr [d] (SplitCh d s) = s"
proof (induction s)
  case (Cons c s)
  then show ?case
    by (cases "SplitCh d s" rule: remdups_adj.cases) auto
qed simp

lemma CutCh_not_found: "d \<notin> set s \<Longrightarrow> CutCh d s = (s, [], False)"
  by (induction s) auto

lemma CutCh_found: "d \<notin> set a \<Longrightarrow> CutCh d (a @ d # b) = (a, b, True)"
  by (induction a) auto

lemma CutCh_before: "CutCh d s = (a, b, f) \<Longrightarrow> d \<notin> set a \<and> set a \<subseteq> set s \<and> set b \<subseteq> set s"
  by (induction s arbitrary: a b f) (auto split: prod.splits if_splits)

lemma Contains_single: "Contains s [c] \<longleftrightarrow> c \<in> set s"
  by (induction s) (auto simp: HasPrefix_def)

lemma HasPrefix_Nil [simp]: "HasPrefix s []"
  by (simp add: HasPrefix_def)

lemma HasPrefix_append [simp]: "HasPrefix (p @ s) p"
  by (simp add: HasPrefix_def)


section \<open>Decimal numerals\<close>

lemma digits10_not_Nil [simp]: "digits10 n \<noteq> []"
  by (subst digits10.simps) simp

lemma digits10_digits: "c \<in> set (digits10 n) \<Longrightarrow> is_digit c"
proof (induction n rule: digits10.induct)
  case (1 n)
  have d: "is_digit (char_of (48 + k))" if "k < 10" for k :: nat
    using that by (simp add: is_digit_def less_eq_char_def)
  show ?case
  proof (cases "n < 10")
    case True
    with 1(2) d show ?thesis by (subst (asm) digits10.simps) simp
  next
    case False
    then show ?thesis
      using 1(1) 1(2) d [of "n mod 10"] by (subst (asm) (2) digits10.simps) auto
  qed
qed

end
