(* ===== verification/Api_Types.thy ===== *)
theory Api_Types
  imports Go_Strings
begin

text \<open>
  The data of the system. First the parts of the Kubernetes objects that the program
  reads (pods, nodes, replica sets, deployments, status conditions), then the two custom
  resources of \<open>api/v1alpha1\<close>: \<open>EvictionGuardPolicy\<close> and \<open>EvictionGuardWindow\<close>, with
  the well-known label, annotation and finalizer names of \<open>labels.go\<close>, the defaulting
  accessors of a policy and the predicates on windows. A pointer that the program tests
  for nil is an option, a nil slice or map is the empty list.

  Errors are values of \<open>goerror\<close>: an API status error with its classification (what the
  predicates of \<open>apierrors\<close> return for it), a plain message, a message that wraps another
  error (\<open>%w\<close>) and the missing-RBAC error of \<open>plan.go\<close>. \<open>errors.As\<close> walks the wrapping.
\<close>


section \<open>Kubernetes objects\<close>

record LabelSelectorRequirement =
  req_key :: string
  req_operator :: string
  req_values :: "string list"

record LabelSelector =
  sel_matchLabels :: strmap
  sel_matchExpressions :: "LabelSelectorRequirement list"

record OwnerReference =
  or_kind :: string
  or_name :: string
  or_controller :: "bool option"

record PodCondition =
  pc_type :: string
  pc_status :: string

record Pod =
  pod_name :: string
  pod_namespace :: string
  pod_labels :: strmap
  pod_deletionTimestamp :: "time option"
  pod_ownerReferences :: "OwnerReference list"
  pod_nodeName :: string
  pod_conditions :: "PodCondition list"

text \<open>\<open>taint_timeAdded\<close> is the address of the timestamp: Go compares the pointer.\<close>

record Taint =
  taint_key :: string
  taint_value :: string
  taint_effect :: string
  taint_timeAdded :: "nat option"

record Node =
  node_name :: string
  node_labels :: strmap
  node_annotations :: strmap
  node_taints :: "Taint list"
  node_unschedulable :: bool

record ReplicaSet =
  rs_ownerReferences :: "OwnerReference list"

record Deployment =
  dep_name :: string
  dep_namespace :: string
  dep_labels :: strmap
  dep_annotations :: strmap
  dep_replicas :: "int option"
  dep_selector :: "LabelSelector option"
  dep_templateLabels :: strmap

record Condition =
  cond_type :: string
  cond_status :: string
  cond_observedGeneration :: int
  cond_lastTransitionTime :: time
  cond_reason :: string
  cond_message :: string

definition ConditionTrue :: string where [go_simps]: "ConditionTrue = ''True''"
definition ConditionFalse :: string where [go_simps]: "ConditionFalse = ''False''"

definition time_is_zero :: "time option \<Rightarrow> bool" where
  [go_simps]: "time_is_zero t = (case t of None \<Rightarrow> True | Some x \<Rightarrow> x = 0)"


section \<open>Well-known names\<close>

definition ProtectedLabel :: string where [go_simps]: "ProtectedLabel = ''eviction-guard.io/protected''"
definition PolicyLabel :: string where [go_simps]: "PolicyLabel = ''eviction-guard.io/policy''"
definition DeferredLabel :: string where [go_simps]: "DeferredLabel = ''eviction-guard.io/deferred''"
definition PolicyPinAnnotation :: string where [go_simps]: "PolicyPinAnnotation = ''eviction-guard.io/policy-pin''"
definition WorkloadNameLabel :: string where [go_simps]: "WorkloadNameLabel = ''eviction-guard.io/workload-name''"
definition WorkloadNamespaceLabel :: string where
  [go_simps]: "WorkloadNamespaceLabel = ''eviction-guard.io/workload-namespace''"
definition ScaleBackendAnnotation :: string where [go_simps]: "ScaleBackendAnnotation = ''eviction-guard.io/scale-backend''"
definition ScaleBackAfterAnnotation :: string where
  [go_simps]: "ScaleBackAfterAnnotation = ''eviction-guard.io/scale-back-after''"
definition StampAnnotation :: string where [go_simps]: "StampAnnotation = ''eviction-guard.io/stamp''"
definition StampScaledToKeyAnnotation :: string where
  [go_simps]: "StampScaledToKeyAnnotation = ''eviction-guard.io/stamp-scaled-to''"
definition StampBaselineKeyAnnotation :: string where
  [go_simps]: "StampBaselineKeyAnnotation = ''eviction-guard.io/stamp-baseline''"
definition StampActiveKeyAnnotation :: string where
  [go_simps]: "StampActiveKeyAnnotation = ''eviction-guard.io/stamp-active''"
definition StampWindowUntilKeyAnnotation :: string where
  [go_simps]: "StampWindowUntilKeyAnnotation = ''eviction-guard.io/stamp-window-until''"
definition StampScaledToKey :: string where [go_simps]: "StampScaledToKey = ''eviction-guard.io/scaled-to''"
definition StampBaselineKey :: string where [go_simps]: "StampBaselineKey = ''eviction-guard.io/baseline''"
definition StampActiveKey :: string where [go_simps]: "StampActiveKey = ''eviction-guard.io/active''"
definition StampWindowUntilKey :: string where [go_simps]: "StampWindowUntilKey = ''eviction-guard.io/window-until''"
definition WindowFinalizer :: string where [go_simps]: "WindowFinalizer = ''eviction-guard.io/scale-back''"
definition PolicyFinalizer :: string where [go_simps]: "PolicyFinalizer = ''eviction-guard.io/cleanup''"


section \<open>EvictionGuardPolicy\<close>

type_synonym DisruptionSignal = string

definition SignalKarpenterDisrupted :: DisruptionSignal where
  [go_simps]: "SignalKarpenterDisrupted = ''KarpenterDisrupted''"
definition SignalKarpenterDeleteRequested :: DisruptionSignal where
  [go_simps]: "SignalKarpenterDeleteRequested = ''KarpenterDeleteRequested''"
definition SignalOutOfService :: DisruptionSignal where
  [go_simps]: "SignalOutOfService = ''OutOfService''"
definition SignalSpotInterrupted :: DisruptionSignal where
  [go_simps]: "SignalSpotInterrupted = ''SpotInterrupted''"
definition SignalNodeCordoned :: DisruptionSignal where
  [go_simps]: "SignalNodeCordoned = ''NodeCordoned''"

record TaintMatch =
  tm_key :: string
  tm_value :: string
  tm_effect :: string

record KeyValueMatch =
  kv_key :: string
  kv_value :: string

record CustomDisruptionSignal =
  cs_name :: string
  cs_taint :: "TaintMatch option"
  cs_annotation :: "KeyValueMatch option"
  cs_label :: "KeyValueMatch option"

record NodeFilter =
  nf_labelSelector :: "LabelSelector option"
  nf_excludeLabelSelector :: "LabelSelector option"
  nf_names :: "string list"
  nf_namePattern :: string
  nf_zones :: "string list"
  nf_instanceTypes :: "string list"
  nf_capacityTypes :: "string list"
  nf_taintSelector :: "TaintMatch list"

record StampSpec =
  stamp_enabled :: bool
  stamp_scaledToKey :: string
  stamp_baselineKey :: string
  stamp_activeKey :: string
  stamp_windowUntilKey :: string

record BackendPatch =
  bp_path :: string
  bp_annotation :: string

record BackendCatalogEntry =
  be_apiVersion :: string
  be_kind :: string
  be_patches :: "BackendPatch list"
  be_skipDownscaling :: bool
  be_defaultWhenUnset :: "int option"

record EvictionGuardPolicySpec =
  spec_nodeFilter :: NodeFilter
  spec_workloadSelector :: "LabelSelector option"
  spec_namespaceSelector :: "LabelSelector option"
  spec_spareReplicas :: "int option"
  spec_maxBuffer :: "int option"
  spec_maxConcurrentWindows :: "int option"
  spec_backends :: "(string, BackendCatalogEntry) gomap"
  spec_scaleBackAfter :: "duration option"
  spec_maxWindow :: "duration option"
  spec_stamp :: StampSpec
  spec_disruptionSignals :: "DisruptionSignal list"
  spec_customSignals :: "CustomDisruptionSignal list"

record EvictionGuardPolicyStatus =
  ps_observedGeneration :: int
  ps_matchedNodes :: int
  ps_vulnerableNodes :: int
  ps_activeWindows :: int
  ps_deferredWorkloads :: int
  ps_conditions :: "Condition list"

definition ConditionBackendsAuthorized :: string where
  [go_simps]: "ConditionBackendsAuthorized = ''BackendsAuthorized''"
definition ReasonMissingRBAC :: string where [go_simps]: "ReasonMissingRBAC = ''MissingRBAC''"
definition ReasonAuthorized :: string where [go_simps]: "ReasonAuthorized = ''Authorized''"

record EvictionGuardPolicy =
  pol_name :: string
  pol_generation :: int
  pol_deletionTimestamp :: "time option"
  pol_finalizers :: "string list"
  pol_spec :: EvictionGuardPolicySpec
  pol_status :: EvictionGuardPolicyStatus

text \<open>\<open>TaintMatch.MatchesAny\<close>: the key must agree, value and effect only when set.\<close>

fun MatchesAny :: "TaintMatch \<Rightarrow> Taint list \<Rightarrow> bool" where
  "MatchesAny t [] = False"
| "MatchesAny t (tt # taints) =
     (if taint_key tt \<noteq> tm_key t then MatchesAny t taints
      else if tm_value t \<noteq> [] \<and> taint_value tt \<noteq> tm_value t then MatchesAny t taints
      else if tm_effect t \<noteq> [] \<and> taint_effect tt \<noteq> tm_effect t then MatchesAny t taints
      else True)"

definition DefaultSpareReplicas :: int where [go_simps]: "DefaultSpareReplicas = 1"
definition DefaultMaxBuffer :: int where [go_simps]: "DefaultMaxBuffer = 4"
definition DefaultMaxConcurrentWindows :: int where [go_simps]: "DefaultMaxConcurrentWindows = 8"
definition DefaultScaleBackAfter :: duration where [go_simps]: "DefaultScaleBackAfter = minute"
definition DefaultMaxWindow :: duration where [go_simps]: "DefaultMaxWindow = 2 * hour"

definition SpareReplicasOrDefault :: "EvictionGuardPolicy \<Rightarrow> int" where
  [go_simps]: "SpareReplicasOrDefault p =
     (case spec_spareReplicas (pol_spec p) of None \<Rightarrow> DefaultSpareReplicas | Some n \<Rightarrow> n)"

definition MaxBufferOrDefault :: "EvictionGuardPolicy \<Rightarrow> int" where
  [go_simps]: "MaxBufferOrDefault p =
     (case spec_maxBuffer (pol_spec p) of None \<Rightarrow> DefaultMaxBuffer | Some n \<Rightarrow> n)"

definition MaxConcurrentWindowsOrDefault :: "EvictionGuardPolicy \<Rightarrow> int" where
  [go_simps]: "MaxConcurrentWindowsOrDefault p =
     (case spec_maxConcurrentWindows (pol_spec p) of None \<Rightarrow> DefaultMaxConcurrentWindows | Some n \<Rightarrow> n)"

definition ScaleBackAfterOrDefault :: "EvictionGuardPolicy \<Rightarrow> duration" where
  [go_simps]: "ScaleBackAfterOrDefault p =
     (case spec_scaleBackAfter (pol_spec p) of None \<Rightarrow> DefaultScaleBackAfter | Some d \<Rightarrow> d)"

definition MaxWindowOrDefault :: "EvictionGuardPolicy \<Rightarrow> duration" where
  [go_simps]: "MaxWindowOrDefault p =
     (case spec_maxWindow (pol_spec p) of None \<Rightarrow> DefaultMaxWindow | Some d \<Rightarrow> d)"


section \<open>EvictionGuardWindow\<close>

datatype WindowPhase =
    WindowPhaseUnset
  | WindowPhaseOpen
  | WindowPhaseCooling
  | WindowPhaseHeld
  | WindowPhaseClosed
  | WindowPhaseOther string

text \<open>The phases that the enum of the custom resource admits.\<close>

fun known_phase :: "WindowPhase \<Rightarrow> bool" where
  "known_phase (WindowPhaseOther _) = False"
| "known_phase _ = True"

definition ConditionSpareReady :: string where [go_simps]: "ConditionSpareReady = ''SpareReady''"
definition ConditionCapacityApplied :: string where [go_simps]: "ConditionCapacityApplied = ''CapacityApplied''"
definition ReasonReplicasReady :: string where [go_simps]: "ReasonReplicasReady = ''ReplicasReady''"
definition ReasonWaitingForReady :: string where [go_simps]: "ReasonWaitingForReady = ''WaitingForReady''"
definition ReasonScaleApplied :: string where [go_simps]: "ReasonScaleApplied = ''Applied''"
definition ReasonScaleFailed :: string where [go_simps]: "ReasonScaleFailed = ''ApplyFailed''"
definition ReasonScaleRejected :: string where [go_simps]: "ReasonScaleRejected = ''Rejected''"
definition ReasonScaleForbidden :: string where [go_simps]: "ReasonScaleForbidden = ''Forbidden''"
definition ReasonScaleConflict :: string where [go_simps]: "ReasonScaleConflict = ''Conflict''"
definition ReasonScaleMissing :: string where [go_simps]: "ReasonScaleMissing = ''Missing''"

record WorkloadReference =
  wr_apiVersion :: string
  wr_kind :: string
  wr_name :: string
  wr_namespace :: string

record ScaleAction =
  sa_key :: string
  sa_apiVersion :: string
  sa_kind :: string
  sa_namespace :: string
  sa_name :: string
  sa_fieldPath :: string
  sa_baseline :: int
  sa_scaledTo :: int
  sa_skipDownscaling :: bool
  sa_stampKeys :: "string list"

record EvictionGuardWindowSpec =
  ws_policyName :: string
  ws_target :: WorkloadReference
  ws_actions :: "ScaleAction list"
  ws_baseline :: int
  ws_scaledTo :: int
  ws_vulnerableNodes :: "string list"
  ws_windowUntil :: "time option"

record EvictionGuardWindowStatus =
  wst_phase :: WindowPhase
  wst_lastScaleTime :: "time option"
  wst_spareReady :: bool
  wst_readyReplicas :: int
  wst_safeReadyReplicas :: int
  wst_message :: string
  wst_forcedCool :: bool
  wst_conditions :: "Condition list"

record EvictionGuardWindow =
  win_name :: string
  win_namespace :: string
  win_labels :: strmap
  win_finalizers :: "string list"
  win_deletionTimestamp :: "time option"
  win_creationTimestamp :: time
  win_generation :: int
  win_controller :: "string option"
  win_spec :: EvictionGuardWindowSpec
  win_status :: EvictionGuardWindowStatus

definition IsActive :: "EvictionGuardWindow \<Rightarrow> bool" where
  [go_simps]: "IsActive w =
     (case wst_phase (win_status w) of
        WindowPhaseOpen \<Rightarrow> True
      | WindowPhaseCooling \<Rightarrow> True
      | WindowPhaseHeld \<Rightarrow> True
      | WindowPhaseUnset \<Rightarrow> True
      | _ \<Rightarrow> False)"

definition ScaleActions :: "EvictionGuardWindow option \<Rightarrow> ScaleAction list" where
  [go_simps]: "ScaleActions w = (case w of None \<Rightarrow> [] | Some win \<Rightarrow> ws_actions (win_spec win))"

definition PrimaryAction :: "EvictionGuardWindow option \<Rightarrow> ScaleAction option" where
  [go_simps]: "PrimaryAction w =
     (case w of None \<Rightarrow> None
      | Some win \<Rightarrow> (case ws_actions (win_spec win) of [] \<Rightarrow> None | a # _ \<Rightarrow> Some a))"


section \<open>Errors\<close>

text \<open>\<open>backends.Target\<close>, the object and field a capacity patch addresses.\<close>

record Target =
  tgt_namespace :: string
  tgt_name :: string
  tgt_apiVersion :: string
  tgt_kind :: string
  tgt_fieldPath :: string
  tgt_defaultWhenUnset :: "int option"

definition ObjectKey :: "Target \<Rightarrow> string" where
  [go_simps]: "ObjectKey t = tgt_namespace t @ ''/'' @ tgt_name t"

datatype api_reason =
    ReasonNotFound
  | ReasonForbidden
  | ReasonConflict
  | ReasonInvalid
  | ReasonBadRequest
  | ReasonAlreadyExists
  | ReasonUnknown

text \<open>
  The last argument of \<open>StatusError\<close> is the list of cause types of
  \<open>status.Details.Causes\<close>, \<open>None\<close> when \<open>Details\<close> is nil.
\<close>

datatype goerror =
    StatusError api_reason string "string list option"
  | ErrorString string
  | WrapError string goerror string
  | BackendAccessError Target goerror

fun Error :: "goerror \<Rightarrow> string" where
  "Error (StatusError r msg cs) = msg"
| "Error (ErrorString msg) = msg"
| "Error (WrapError pre e post) = pre @ Error e @ post"
| "Error (BackendAccessError t e) =
     ''missing RBAC for '' @ tgt_kind t @ '' '' @ quote (ObjectKey t) @ '' (apiVersion='' @ tgt_apiVersion t @
     ''); grant get/list/watch/patch via Helm extraClusterRoleRules: '' @ Error e"

fun Unwrap :: "goerror \<Rightarrow> goerror option" where
  "Unwrap (WrapError pre e post) = Some e"
| "Unwrap (BackendAccessError t e) = Some e"
| "Unwrap e = None"

fun as_status :: "goerror \<Rightarrow> (api_reason \<times> string list option) option" where
  "as_status (StatusError r msg cs) = Some (r, cs)"
| "as_status (ErrorString msg) = None"
| "as_status (WrapError pre e post) = as_status e"
| "as_status (BackendAccessError t e) = as_status e"

definition reason_for_error :: "goerror \<Rightarrow> api_reason" where
  [go_simps]: "reason_for_error e = (case as_status e of None \<Rightarrow> ReasonUnknown | Some (r, cs) \<Rightarrow> r)"

definition IsNotFound :: "goerror \<Rightarrow> bool" where [go_simps]: "IsNotFound e = (reason_for_error e = ReasonNotFound)"
definition IsForbidden :: "goerror \<Rightarrow> bool" where [go_simps]: "IsForbidden e = (reason_for_error e = ReasonForbidden)"
definition IsConflict :: "goerror \<Rightarrow> bool" where [go_simps]: "IsConflict e = (reason_for_error e = ReasonConflict)"
definition IsInvalid :: "goerror \<Rightarrow> bool" where [go_simps]: "IsInvalid e = (reason_for_error e = ReasonInvalid)"
definition IsBadRequest :: "goerror \<Rightarrow> bool" where [go_simps]: "IsBadRequest e = (reason_for_error e = ReasonBadRequest)"

fun isMissingBackendRBAC :: "goerror \<Rightarrow> bool" where
  "isMissingBackendRBAC (BackendAccessError t e) = True"
| "isMissingBackendRBAC (WrapError pre e post) = isMissingBackendRBAC e"
| "isMissingBackendRBAC _ = False"


section \<open>Lemmas\<close>

lemma MatchesAny_iff:
  "MatchesAny t taints \<longleftrightarrow>
     (\<exists>tt \<in> set taints. taint_key tt = tm_key t \<and>
        (tm_value t = [] \<or> taint_value tt = tm_value t) \<and>
        (tm_effect t = [] \<or> taint_effect tt = tm_effect t))"
  by (induction taints) auto

lemma IsActive_iff:
  "IsActive w \<longleftrightarrow> wst_phase (win_status w) \<in>
     {WindowPhaseUnset, WindowPhaseOpen, WindowPhaseCooling, WindowPhaseHeld}"
  by (auto simp: IsActive_def split: WindowPhase.splits)

lemma reason_for_error_simps [simp]:
  "reason_for_error (StatusError r msg cs) = r"
  "reason_for_error (ErrorString msg) = ReasonUnknown"
  "reason_for_error (WrapError pre e post) = reason_for_error e"
  "reason_for_error (BackendAccessError t e) = reason_for_error e"
  by (simp_all add: reason_for_error_def)

lemma IsNotFound_wrap [simp]:
  "IsNotFound (WrapError pre e post) = IsNotFound e"
  "IsNotFound (BackendAccessError t e) = IsNotFound e"
  by (simp_all add: IsNotFound_def)

end
