(* ===== verification/Signals.thy ===== *)
theory Signals
  imports Api_Types
begin

text \<open>
  \<open>pkg/signals\<close>: the registry of disruption detectors, the five built-in detectors, the
  custom signals of a policy and the resulting notion of a vulnerable node. The
  registry is the package-level map; the read-write lock around it is not modelled,
  every operation sees one state of the map. \<open>pkg/plugin\<close> only forwards to \<open>Register\<close>.

  \<open>signal_registry\<close> is the contract that the scans over a registry rely on: what a
  lookup returns after a registration.
\<close>


section \<open>Detectors and their registry\<close>

record Detector =
  det_Name :: DisruptionSignal
  det_Vulnerable :: "Node \<Rightarrow> bool"

type_synonym registry = "(DisruptionSignal, Detector) gomap"

definition TaintKarpenterDisrupted :: string where [go_simps]: "TaintKarpenterDisrupted = ''karpenter.sh/disrupted''"
definition TaintOutOfService :: string where [go_simps]: "TaintOutOfService = ''node.kubernetes.io/out-of-service''"
definition AnnotationDeleteAt :: string where [go_simps]: "AnnotationDeleteAt = ''karpenter.sh/delete-requested-at''"
definition AnnotationSpotInterrupt :: string where [go_simps]: "AnnotationSpotInterrupt = ''aws.amazon.com/spot-interrupt''"
definition LabelSpotVolatile :: string where [go_simps]: "LabelSpotVolatile = ''spotinst.com/volatile''"

fun hasTaint_loop :: "Taint list \<Rightarrow> string \<Rightarrow> bool" where
  "hasTaint_loop [] key = False"
| "hasTaint_loop (t # ts) key = (if taint_key t = key then True else hasTaint_loop ts key)"

definition hasTaint :: "Node \<Rightarrow> string \<Rightarrow> bool" where
  [go_simps]: "hasTaint node key = hasTaint_loop (node_taints node) key"

definition karpenterDisrupted :: Detector where
  [go_simps]: "karpenterDisrupted =
     \<lparr>det_Name = SignalKarpenterDisrupted,
      det_Vulnerable = (\<lambda>node. hasTaint node TaintKarpenterDisrupted)\<rparr>"

definition karpenterDeleteRequested :: Detector where
  [go_simps]: "karpenterDeleteRequested =
     \<lparr>det_Name = SignalKarpenterDeleteRequested,
      det_Vulnerable = (\<lambda>node. if node_annotations node = [] then False
                               else mget (node_annotations node) AnnotationDeleteAt \<noteq> [])\<rparr>"

definition outOfService :: Detector where
  [go_simps]: "outOfService =
     \<lparr>det_Name = SignalOutOfService,
      det_Vulnerable = (\<lambda>node. hasTaint node TaintOutOfService)\<rparr>"

definition spotInterrupted :: Detector where
  [go_simps]: "spotInterrupted =
     \<lparr>det_Name = SignalSpotInterrupted,
      det_Vulnerable = (\<lambda>node.
        if hasTaint node TaintOutOfService then True
        else if node_annotations node \<noteq> [] \<and> mget (node_annotations node) AnnotationSpotInterrupt \<noteq> [] then True
        else if node_labels node \<noteq> [] \<and> mget (node_labels node) LabelSpotVolatile = ''true'' then True
        else False)\<rparr>"

definition nodeCordoned :: Detector where
  [go_simps]: "nodeCordoned =
     \<lparr>det_Name = SignalNodeCordoned,
      det_Vulnerable = (\<lambda>node. node_unschedulable node)\<rparr>"

definition Register :: "Detector \<Rightarrow> registry \<Rightarrow> registry" where
  [go_simps]: "Register d registry = AList.update (det_Name d) d registry"

definition Lookup :: "registry \<Rightarrow> DisruptionSignal \<Rightarrow> Detector option" where
  [go_simps]: "Lookup registry name = map_of registry name"

text \<open>The package's \<open>init\<close> function.\<close>

definition init_registry :: registry where
  [go_simps]: "init_registry =
     Register nodeCordoned (Register spotInterrupted (Register outOfService
       (Register karpenterDeleteRequested (Register karpenterDisrupted []))))"

text \<open>\<open>plugin.RegisterSignal\<close>.\<close>

definition RegisterSignal :: "Detector \<Rightarrow> registry \<Rightarrow> registry" where
  "RegisterSignal d registry = Register d registry"

definition DefaultSignals :: "DisruptionSignal list" where
  [go_simps]: "DefaultSignals =
     [SignalKarpenterDisrupted, SignalKarpenterDeleteRequested, SignalOutOfService, SignalNodeCordoned]"

fun IsVulnerable_loop :: "registry \<Rightarrow> Node \<Rightarrow> DisruptionSignal list \<Rightarrow> bool" where
  "IsVulnerable_loop registry node [] = False"
| "IsVulnerable_loop registry node (name # wanted) =
     (case Lookup registry name of
        None \<Rightarrow> IsVulnerable_loop registry node wanted
      | Some d \<Rightarrow> if det_Vulnerable d node then True else IsVulnerable_loop registry node wanted)"

definition IsVulnerable :: "registry \<Rightarrow> Node \<Rightarrow> DisruptionSignal list \<Rightarrow> bool" where
  "IsVulnerable registry node wanted =
     IsVulnerable_loop registry node (if length wanted = 0 then DefaultSignals else wanted)"

fun Reasons_loop :: "registry \<Rightarrow> Node \<Rightarrow> DisruptionSignal list \<Rightarrow> DisruptionSignal list" where
  "Reasons_loop registry node [] = []"
| "Reasons_loop registry node (name # wanted) =
     (case Lookup registry name of
        None \<Rightarrow> Reasons_loop registry node wanted
      | Some d \<Rightarrow> if det_Vulnerable d node then name # Reasons_loop registry node wanted
                  else Reasons_loop registry node wanted)"

definition Reasons :: "registry \<Rightarrow> Node \<Rightarrow> DisruptionSignal list \<Rightarrow> DisruptionSignal list" where
  "Reasons registry node wanted =
     Reasons_loop registry node (if length wanted = 0 then DefaultSignals else wanted)"


section \<open>Custom signals and vulnerable nodes\<close>

definition kvMatch :: "strmap \<Rightarrow> KeyValueMatch option \<Rightarrow> bool" where
  [go_simps]: "kvMatch m want =
     (case want of
        None \<Rightarrow> False
      | Some kv \<Rightarrow>
          if m = [] then False
          else case map_of m (kv_key kv) of
            None \<Rightarrow> False
          | Some v \<Rightarrow> if kv_value kv \<noteq> [] \<and> v \<noteq> kv_value kv then False else True)"

definition customMatches :: "Node \<Rightarrow> CustomDisruptionSignal \<Rightarrow> bool" where
  [go_simps]: "customMatches node sig =
     (if (case cs_taint sig of None \<Rightarrow> False | Some t \<Rightarrow> MatchesAny t (node_taints node)) then True
      else if cs_annotation sig \<noteq> None \<and> kvMatch (node_annotations node) (cs_annotation sig) then True
      else if cs_label sig \<noteq> None \<and> kvMatch (node_labels node) (cs_label sig) then True
      else False)"

fun MatchCustom :: "Node \<Rightarrow> CustomDisruptionSignal list \<Rightarrow> bool" where
  "MatchCustom node [] = False"
| "MatchCustom node (sig # sigs) = (if customMatches node sig then True else MatchCustom node sigs)"

definition Vulnerable :: "registry \<Rightarrow> Node \<Rightarrow> EvictionGuardPolicy option \<Rightarrow> bool" where
  "Vulnerable registry node policy =
     (case policy of
        None \<Rightarrow> IsVulnerable registry node []
      | Some p \<Rightarrow>
          if IsVulnerable registry node (spec_disruptionSignals (pol_spec p)) then True
          else MatchCustom node (spec_customSignals (pol_spec p)))"


section \<open>The registry contract\<close>

locale signal_registry =
  fixes register :: "'d \<Rightarrow> 'r \<Rightarrow> 'r"
    and lookup :: "'r \<Rightarrow> 'n \<Rightarrow> 'd option"
    and name :: "'d \<Rightarrow> 'n"
  assumes lookup_same: "lookup (register d r) (name d) = Some d"
    and lookup_other: "n \<noteq> name d \<Longrightarrow> lookup (register d r) n = lookup r n"
begin

lemma lookup_register: "lookup (register d r) n = (if n = name d then Some d else lookup r n)"
  by (simp add: lookup_same lookup_other)

lemma register_again: "lookup (register d (register d r)) = lookup (register d r)"
  by (rule ext) (simp add: lookup_register)

lemma register_replaces:
  "name d = name e \<Longrightarrow> lookup (register d (register e r)) = lookup (register d r)"
  by (rule ext) (simp add: lookup_register)

lemma register_commutes:
  "name d \<noteq> name e \<Longrightarrow> lookup (register d (register e r)) = lookup (register e (register d r))"
  by (rule ext) (auto simp: lookup_register)

end

interpretation sig_reg: signal_registry Register Lookup det_Name
  by unfold_locales (simp_all add: Register_def Lookup_def update_conv)


section \<open>Lemmas\<close>

lemma hasTaint_iff: "hasTaint node key \<longleftrightarrow> (\<exists>t \<in> set (node_taints node). taint_key t = key)"
proof -
  have "hasTaint_loop ts key \<longleftrightarrow> (\<exists>t \<in> set ts. taint_key t = key)" for ts
    by (induction ts) auto
  then show ?thesis by (simp add: hasTaint_def)
qed

lemma Reasons_loop_filter:
  "Reasons_loop r node ns =
     filter (\<lambda>n. case Lookup r n of None \<Rightarrow> False | Some d \<Rightarrow> det_Vulnerable d node) ns"
  by (induction ns) (auto split: option.split)

lemma IsVulnerable_loop_iff:
  "IsVulnerable_loop r node ns \<longleftrightarrow> (\<exists>n \<in> set ns. \<exists>d. Lookup r n = Some d \<and> det_Vulnerable d node)"
  by (induction ns) (auto split: option.split)

lemma kvMatch_iff:
  "kvMatch m (Some kv) \<longleftrightarrow> (\<exists>v. map_of m (kv_key kv) = Some v \<and> (kv_value kv = [] \<or> v = kv_value kv))"
  by (auto simp: kvMatch_def split: option.splits)

lemma MatchCustom_iff: "MatchCustom node sigs \<longleftrightarrow> (\<exists>sig \<in> set sigs. customMatches node sig)"
  by (induction sigs) auto

lemma Lookup_init_registry:
  "Lookup init_registry n =
     (if n = SignalNodeCordoned then Some nodeCordoned
      else if n = SignalSpotInterrupted then Some spotInterrupted
      else if n = SignalOutOfService then Some outOfService
      else if n = SignalKarpenterDeleteRequested then Some karpenterDeleteRequested
      else if n = SignalKarpenterDisrupted then Some karpenterDisrupted
      else None)"
  unfolding init_registry_def sig_reg.lookup_register
  by (simp add: Lookup_def nodeCordoned_def spotInterrupted_def outOfService_def
      karpenterDeleteRequested_def karpenterDisrupted_def)


section \<open>Properties\<close>

text \<open>
  The two scans over a registry agree: a node is vulnerable for a list of wanted
  signals exactly when \<open>Reasons\<close> names at least one of them, and every name it returns
  is a wanted (or, for an empty list, a default) signal whose registered detector fires.
\<close>

lemma Reasons_explain_vulnerability:
  "(IsVulnerable r node wanted \<longleftrightarrow> Reasons r node wanted \<noteq> []) \<and>
   set (Reasons r node wanted) =
     {n \<in> set (if wanted = [] then DefaultSignals else wanted).
        \<exists>d. Lookup r n = Some d \<and> det_Vulnerable d node}"
  by (auto simp: IsVulnerable_def Reasons_def IsVulnerable_loop_iff Reasons_loop_filter filter_empty_conv
      split: option.splits)

end
