(* ===== verification/Cluster_Api.thy ===== *)
theory Cluster_Api
  imports Signals
begin

text \<open>
  What the program calls and does not contain: parameters of every definition that uses
  them.

  \<^item> \<open>env\<close> holds the library functions of apimachinery and controller-runtime that are
    pure (label selectors, status conditions, finalizers, accessors of unstructured
    objects, owner references) and the package-level detector registry, the only global
    variable of the program that its own logic reads.
  \<^item> \<open>'w client\<close> is the controller-runtime client together with the reconcilers' clock
    and event recorder, over an opaque cluster state \<open>'w\<close>. Reads are functions of the
    state, writes return a result and a new state; a failing write may change the state
    too. Patch, create and status update return the object as the server stored it,
    which is what the Go client decodes into its argument.
  \<^item> \<open>effect\<close> is one observability call; handlers append these to the log.

  The documented behaviour that a theorem relies on is a named hypothesis of that
  theorem, one of the predicates below. \<open>std_env\<close> is a concrete \<open>env\<close> with the
  documented behaviour, used where a theorem is applied to concrete inputs.
\<close>


section \<open>Unstructured objects\<close>

datatype json =
    JNull
  | JBool bool
  | JInt int
  | JString string
  | JArray "json list"
  | JObject "(string \<times> json) list"

type_synonym gvk = "string \<times> string \<times> string"


section \<open>Parameters\<close>

record env =
  LabelSelectorAsSelector :: "LabelSelector option \<Rightarrow> goerror + (strmap \<Rightarrow> bool)"
  FindStatusCondition :: "Condition list \<Rightarrow> string \<Rightarrow> Condition option"
  SetStatusCondition :: "Condition list \<Rightarrow> Condition \<Rightarrow> Condition list"
  ContainsFinalizer :: "string list \<Rightarrow> string \<Rightarrow> bool"
  AddFinalizer :: "string list \<Rightarrow> string \<Rightarrow> string list"
  RemoveFinalizer :: "string list \<Rightarrow> string \<Rightarrow> string list"
  SetControllerReference :: "EvictionGuardPolicy \<Rightarrow> EvictionGuardWindow \<Rightarrow> goerror + EvictionGuardWindow"
  ParseGroupVersion :: "string \<Rightarrow> goerror + (string \<times> string)"
  gvk_String :: "gvk \<Rightarrow> string"
  NestedInt64 :: "json \<Rightarrow> string list \<Rightarrow> goerror + int option"
  NestedStringMap :: "json \<Rightarrow> string list \<Rightarrow> strmap"
  registry :: registry

record 'w client =
  Get_Pod :: "'w \<Rightarrow> string \<Rightarrow> string \<Rightarrow> goerror + Pod"
  Get_Node :: "'w \<Rightarrow> string \<Rightarrow> goerror + Node"
  Get_Namespace :: "'w \<Rightarrow> string \<Rightarrow> goerror + strmap"
  Get_ReplicaSet :: "'w \<Rightarrow> string \<Rightarrow> string \<Rightarrow> goerror + ReplicaSet"
  Get_Deployment :: "'w \<Rightarrow> string \<Rightarrow> string \<Rightarrow> goerror + Deployment"
  Get_Policy :: "'w \<Rightarrow> string \<Rightarrow> goerror + EvictionGuardPolicy"
  Get_Window :: "'w \<Rightarrow> string \<Rightarrow> string \<Rightarrow> goerror + EvictionGuardWindow"
  Get_Unstructured :: "'w \<Rightarrow> gvk \<Rightarrow> string \<Rightarrow> string \<Rightarrow> goerror + json"
  List_Nodes :: "'w \<Rightarrow> goerror + Node list"
  List_Policies :: "'w \<Rightarrow> goerror + EvictionGuardPolicy list"
  List_PodsByNode :: "'w \<Rightarrow> string \<Rightarrow> goerror + Pod list"
  List_PodsMatching :: "'w \<Rightarrow> string \<Rightarrow> (strmap \<Rightarrow> bool) \<Rightarrow> goerror + Pod list"
  List_WindowsByPolicy :: "'w \<Rightarrow> string \<Rightarrow> goerror + EvictionGuardWindow list"
  List_WindowsByWorkload :: "'w \<Rightarrow> string \<Rightarrow> goerror + EvictionGuardWindow list"
  List_WindowsByNode :: "'w \<Rightarrow> string \<Rightarrow> goerror + EvictionGuardWindow list"
  Create_Window :: "EvictionGuardWindow \<Rightarrow> 'w \<Rightarrow> (goerror + EvictionGuardWindow) \<times> 'w"
  Patch_Window :: "EvictionGuardWindow \<Rightarrow> EvictionGuardWindow \<Rightarrow> 'w \<Rightarrow> (goerror + EvictionGuardWindow) \<times> 'w"
  Update_WindowStatus :: "EvictionGuardWindow \<Rightarrow> 'w \<Rightarrow> (goerror + EvictionGuardWindow) \<times> 'w"
  Delete_Window :: "EvictionGuardWindow \<Rightarrow> 'w \<Rightarrow> (goerror + unit) \<times> 'w"
  Patch_Policy :: "EvictionGuardPolicy \<Rightarrow> EvictionGuardPolicy \<Rightarrow> 'w \<Rightarrow> (goerror + EvictionGuardPolicy) \<times> 'w"
  Update_PolicyStatus :: "EvictionGuardPolicy \<Rightarrow> 'w \<Rightarrow> (goerror + EvictionGuardPolicy) \<times> 'w"
  Patch_Unstructured :: "gvk \<Rightarrow> string \<Rightarrow> string \<Rightarrow> json \<Rightarrow> 'w \<Rightarrow> (goerror + unit) \<times> 'w"
  Now :: "'w \<Rightarrow> time"
  HasRecorder :: bool

datatype effect =
    GaugeSet string "string list" int
  | CounterInc string "string list"
  | SeriesDelete string "string list"
  | Eventf string string string string

type_synonym ('w, 'a) io = "('w, effect, 'a) handler"
type_synonym ('w, 'a) fallible = "('w, effect, goerror + 'a) handler"

text \<open>\<open>emitf\<close> of \<open>events.go\<close>: the object, the event type, the reason and the message.\<close>

definition emitf :: "'w client \<Rightarrow> string \<Rightarrow> string \<Rightarrow> string \<Rightarrow> string \<Rightarrow> ('w, unit) io" where
  "emitf c obj eventtype reason msg =
     (if \<not> HasRecorder c then State_Monad.return ()
      else emit (Eventf obj eventtype reason msg))"

definition EventTypeNormal :: string where [go_simps]: "EventTypeNormal = ''Normal''"
definition EventTypeWarning :: string where [go_simps]: "EventTypeWarning = ''Warning''"


section \<open>Documented behaviour of the parameters\<close>

text \<open>\<open>meta.SetStatusCondition\<close> and \<open>meta.FindStatusCondition\<close>: a condition that was set is found.\<close>

definition conditions_documented :: "env \<Rightarrow> bool" where
  "conditions_documented E \<longleftrightarrow>
     (\<forall>cs c. \<exists>c'. FindStatusCondition E (SetStatusCondition E cs c) (cond_type c) = Some c' \<and>
        cond_type c' = cond_type c \<and> cond_status c' = cond_status c \<and>
        cond_reason c' = cond_reason c \<and> cond_message c' = cond_message c) \<and>
     (\<forall>cs c t. t \<noteq> cond_type c \<longrightarrow>
        FindStatusCondition E (SetStatusCondition E cs c) t = FindStatusCondition E cs t)"

text \<open>
  \<open>unstructured.NestedInt64\<close> finds an integer exactly where there is one;
  \<open>unstructured.NestedStringMap\<close> returns the map at a path whose values are all strings.
\<close>

fun json_at :: "json \<Rightarrow> string list \<Rightarrow> json option" where
  "json_at j [] = Some j"
| "json_at (JObject fs) (k # ks) = (case map_of fs k of None \<Rightarrow> None | Some v \<Rightarrow> json_at v ks)"
| "json_at _ (k # ks) = None"

definition nested_documented :: "env \<Rightarrow> bool" where
  "nested_documented E \<longleftrightarrow>
     (\<forall>j path i. NestedInt64 E j path = Inr (Some i) \<longleftrightarrow> json_at j path = Some (JInt i)) \<and>
     (\<forall>j path k. if list_all (\<lambda>(_, v). case v of JString _ \<Rightarrow> True | _ \<Rightarrow> False)
          (case json_at j path of Some (JObject fs) \<Rightarrow> fs | _ \<Rightarrow> [])
        then json_at j (path @ [k]) = map_option JString (map_of (NestedStringMap E j path) k)
        else map_of (NestedStringMap E j path) k = None)"

text \<open>Finalizer helpers of \<open>controllerutil\<close> work on the set of finalizers of the object.\<close>

definition finalizers_documented :: "env \<Rightarrow> bool" where
  "finalizers_documented E \<longleftrightarrow>
     (\<forall>fs f. ContainsFinalizer E fs f \<longleftrightarrow> f \<in> set fs) \<and>
     (\<forall>fs f. set (AddFinalizer E fs f) = insert f (set fs)) \<and>
     (\<forall>fs f. set (RemoveFinalizer E fs f) = set fs - {f})"


section \<open>A concrete environment\<close>

definition req_matches :: "strmap \<Rightarrow> LabelSelectorRequirement \<Rightarrow> bool" where
  [go_simps]: "req_matches m r =
     (if req_operator r = ''In'' then mhas m (req_key r) \<and> mget m (req_key r) \<in> set (req_values r)
      else if req_operator r = ''NotIn'' then \<not> (mhas m (req_key r) \<and> mget m (req_key r) \<in> set (req_values r))
      else if req_operator r = ''Exists'' then mhas m (req_key r)
      else \<not> mhas m (req_key r))"

definition std_selector :: "LabelSelector option \<Rightarrow> goerror + (strmap \<Rightarrow> bool)" where
  [go_simps]: "std_selector s =
     (case s of
        None \<Rightarrow> Inr (\<lambda>_. False)
      | Some sel \<Rightarrow>
          if list_all (\<lambda>r. req_operator r \<in> {''In'', ''NotIn'', ''Exists'', ''DoesNotExist''}) (sel_matchExpressions sel)
          then Inr (\<lambda>m. list_all (\<lambda>(k, v). mhas m k \<and> mget m k = v) (sel_matchLabels sel) \<and>
                        list_all (req_matches m) (sel_matchExpressions sel))
          else Inl (ErrorString ''not a valid label selector operator''))"

fun std_set_condition :: "Condition list \<Rightarrow> Condition \<Rightarrow> Condition list" where
  "std_set_condition [] c = [c]"
| "std_set_condition (d # ds) c =
     (if cond_type d = cond_type c
      then (if cond_status d = cond_status c then c\<lparr>cond_lastTransitionTime := cond_lastTransitionTime d\<rparr> else c) # ds
      else d # std_set_condition ds c)"

fun std_find_condition :: "Condition list \<Rightarrow> string \<Rightarrow> Condition option" where
  "std_find_condition [] t = None"
| "std_find_condition (d # ds) t = (if cond_type d = t then Some d else std_find_condition ds t)"

text \<open>
  The accessors of \<open>unstructured\<close>: a missing field or a null on the way is not found,
  another value on the way is an error.
\<close>

fun std_nested :: "json \<Rightarrow> string list \<Rightarrow> goerror + json option" where
  "std_nested j [] = Inr (Some j)"
| "std_nested JNull (k # ks) = Inr None"
| "std_nested (JObject fs) (k # ks) = (case map_of fs k of None \<Rightarrow> Inr None | Some v \<Rightarrow> std_nested v ks)"
| "std_nested _ (k # ks) = Inl (ErrorString ''accessor error: not a map'')"

definition std_nested_int :: "json \<Rightarrow> string list \<Rightarrow> goerror + int option" where
  [go_simps]: "std_nested_int j path =
     (case std_nested j path of
        Inl e \<Rightarrow> Inl e
      | Inr None \<Rightarrow> Inr None
      | Inr (Some (JInt i)) \<Rightarrow> Inr (Some i)
      | Inr (Some _) \<Rightarrow> Inl (ErrorString ''accessor error: expected int64''))"

definition std_env :: env where
  [go_simps]: "std_env =
     \<lparr>LabelSelectorAsSelector = std_selector,
      FindStatusCondition = std_find_condition,
      SetStatusCondition = std_set_condition,
      ContainsFinalizer = (\<lambda>fs f. f \<in> set fs),
      AddFinalizer = (\<lambda>fs f. if f \<in> set fs then fs else fs @ [f]),
      RemoveFinalizer = (\<lambda>fs f. filter (\<lambda>x. x \<noteq> f) fs),
      SetControllerReference = (\<lambda>p w. Inr (w\<lparr>win_controller := Some (pol_name p)\<rparr>)),
      ParseGroupVersion = (\<lambda>v. case SplitCh (CHR ''/'') v of
           [ver] \<Rightarrow> Inr ([], ver)
         | [g, ver] \<Rightarrow> Inr (g, ver)
         | _ \<Rightarrow> Inl (ErrorString (''unexpected GroupVersion string: '' @ v))),
      gvk_String = (\<lambda>(g, v, k). g @ ''/'' @ v @ '', Kind='' @ k),
      NestedInt64 = std_nested_int,
      NestedStringMap = (\<lambda>j path. case json_at j path of
           Some (JObject fs) \<Rightarrow>
             (if list_all (\<lambda>(k, v). case v of JString s \<Rightarrow> True | _ \<Rightarrow> False) fs
              then map (\<lambda>(k, v). (k, case v of JString s \<Rightarrow> s | _ \<Rightarrow> [])) fs else [])
         | _ \<Rightarrow> []),
      registry = init_registry\<rparr>"


section \<open>Lemmas\<close>

lemma run_emitf [io_simps]:
  "run_state (emitf c obj et reason msg) s =
     ((), if HasRecorder c then s\<lparr>log := log s @ [Eventf obj et reason msg]\<rparr> else s)"
  by (simp add: emitf_def)

lemma cluster_emitf [simp]: "cluster (snd (run_state (emitf c obj et reason msg) s)) = cluster s"
  by (simp add: run_emitf)

lemma std_find_set_same:
  "\<exists>c'. std_find_condition (std_set_condition cs c) (cond_type c) = Some c' \<and>
     cond_type c' = cond_type c \<and> cond_status c' = cond_status c \<and>
     cond_reason c' = cond_reason c \<and> cond_message c' = cond_message c"
  by (induction cs) auto

lemma std_find_set_other:
  "t \<noteq> cond_type c \<Longrightarrow> std_find_condition (std_set_condition cs c) t = std_find_condition cs t"
  by (induction cs) auto

lemma std_env_conditions: "conditions_documented std_env"
  unfolding conditions_documented_def std_env_def
  by (auto simp: std_find_set_other intro: std_find_set_same [simplified])

lemma std_env_finalizers: "finalizers_documented std_env"
  unfolding finalizers_documented_def std_env_def by auto

lemma std_env_simps [simp]:
  "NestedInt64 std_env = std_nested_int"
  "registry std_env = init_registry"
  by (simp_all add: std_env_def)

lemma std_nested_json_at: "std_nested j path = Inr (Some v) \<longleftrightarrow> json_at j path = Some v"
  by (induction j path rule: std_nested.induct) (auto split: option.splits)

lemma map_of_string_fields:
  "list_all (\<lambda>(_, v). case v of JString _ \<Rightarrow> True | _ \<Rightarrow> False) fs \<Longrightarrow>
     map_option JString (map_of (map (\<lambda>(k, v). (k, case v of JString s \<Rightarrow> s | _ \<Rightarrow> [])) fs) k) = map_of fs k"
  by (induction fs) (auto split: if_splits json.splits)

lemma json_at_last:
  "json_at j (path @ [k]) = map_of (case json_at j path of Some (JObject fs) \<Rightarrow> fs | _ \<Rightarrow> []) k"
proof (induction j path rule: json_at.induct)
  case (1 j)
  then show ?case by (cases j) (simp_all split: option.split)
qed (auto split: option.splits)

lemma std_env_nested: "nested_documented std_env"
  unfolding nested_documented_def
proof (intro conjI allI)
  fix j path i
  show "NestedInt64 std_env j path = Inr (Some i) \<longleftrightarrow> json_at j path = Some (JInt i)"
    by (auto simp: std_env_def std_nested_int_def std_nested_json_at [symmetric]
        split: sum.splits option.splits json.splits)
next
  fix j path k
  show "if list_all (\<lambda>(_, v). case v of JString _ \<Rightarrow> True | _ \<Rightarrow> False)
          (case json_at j path of Some (JObject fs) \<Rightarrow> fs | _ \<Rightarrow> [])
        then json_at j (path @ [k]) = map_option JString (map_of (NestedStringMap std_env j path) k)
        else map_of (NestedStringMap std_env j path) k = None"
    by (auto simp: std_env_def json_at_last map_of_string_fields split: option.splits json.splits)
qed

lemma conditions_find_set:
  assumes "conditions_documented E"
  obtains c' where "FindStatusCondition E (SetStatusCondition E cs c) (cond_type c) = Some c'"
    and "cond_status c' = cond_status c" and "cond_reason c' = cond_reason c"
    and "cond_message c' = cond_message c"
  using assms unfolding conditions_documented_def by blast

lemma conditions_find_other:
  assumes "conditions_documented E" and "t \<noteq> cond_type c"
  shows "FindStatusCondition E (SetStatusCondition E cs c) t = FindStatusCondition E cs t"
  using assms unfolding conditions_documented_def by blast

end
