(* ===== verification/Workload_Owner.thy ===== *)
theory Workload_Owner
  imports Cluster_Api
begin

text \<open>
  \<open>pkg/workload\<close>: from a pod to the deployment that owns it (pod, replica set,
  deployment, controller references only) and the labels of a namespace. Both the policy
  controller and the eviction gate use these walks. They only read the cluster, so they
  are functions of the cluster state. A nil deployment is \<open>None\<close>.
\<close>


section \<open>Definitions\<close>

text \<open>\<open>client.IgnoreNotFound\<close>: nil for a not-found error, the error otherwise.\<close>

definition IgnoreNotFound :: "goerror \<Rightarrow> goerror option" where
  [go_simps]: "IgnoreNotFound e = (if IsNotFound e then None else Some e)"

definition nil_or_error :: "goerror \<Rightarrow> goerror + 'a option" where
  [go_simps]: "nil_or_error e = (case IgnoreNotFound e of None \<Rightarrow> Inr None | Some e' \<Rightarrow> Inl e')"

definition controls :: "string \<Rightarrow> OwnerReference \<Rightarrow> bool" where
  [go_simps]: "controls kind r = (\<not> (or_kind r \<noteq> kind \<or> or_controller r = None \<or> or_controller r \<noteq> Some True))"

text \<open>
  The two nested loops. The inner result \<open>None\<close> means that the replica set has no
  controlling deployment, so that the outer loop goes on with the next reference.
\<close>

fun deployment_loop ::
  "'w client \<Rightarrow> 'w \<Rightarrow> string \<Rightarrow> OwnerReference list \<Rightarrow> (goerror + Deployment option) option" where
  "deployment_loop c w ns [] = None"
| "deployment_loop c w ns (oo # refs) =
     (if \<not> controls ''Deployment'' oo then deployment_loop c w ns refs
      else case Get_Deployment c w ns (or_name oo) of
        Inl e \<Rightarrow> Some (nil_or_error e)
      | Inr dep \<Rightarrow> Some (Inr (Some dep)))"

fun replicaset_loop ::
  "'w client \<Rightarrow> 'w \<Rightarrow> string \<Rightarrow> OwnerReference list \<Rightarrow> goerror + Deployment option" where
  "replicaset_loop c w ns [] = Inr None"
| "replicaset_loop c w ns (r # refs) =
     (if \<not> controls ''ReplicaSet'' r then replicaset_loop c w ns refs
      else case Get_ReplicaSet c w ns (or_name r) of
        Inl e \<Rightarrow> nil_or_error e
      | Inr rs \<Rightarrow> (case deployment_loop c w ns (rs_ownerReferences rs) of
            Some res \<Rightarrow> res
          | None \<Rightarrow> replicaset_loop c w ns refs))"

definition OwnerDeployment :: "'w client \<Rightarrow> 'w \<Rightarrow> Pod option \<Rightarrow> goerror + Deployment option" where
  "OwnerDeployment c w pod =
     (case pod of
        None \<Rightarrow> Inr None
      | Some p \<Rightarrow> replicaset_loop c w (pod_namespace p) (pod_ownerReferences p))"

definition NamespaceLabels :: "'w client \<Rightarrow> 'w \<Rightarrow> string \<Rightarrow> goerror + strmap" where
  "NamespaceLabels c w name =
     (case Get_Namespace c w name of
        Inl e \<Rightarrow> if IsNotFound e then Inr [] else Inl e
      | Inr ls \<Rightarrow> Inr ls)"


section \<open>Lemmas\<close>

lemma nil_or_error_ne_Some [simp]: "nil_or_error e \<noteq> Inr (Some d)"
  by (simp add: nil_or_error_def split: option.split)

lemma deployment_loop_found:
  assumes "deployment_loop c w ns refs = Some (Inr (Some d))"
  shows "\<exists>oo \<in> set refs. controls ''Deployment'' oo \<and> Get_Deployment c w ns (or_name oo) = Inr d"
  using assms by (induction refs) (auto split: if_splits sum.splits)

lemma OwnerDeployment_found:
  assumes "OwnerDeployment c w (Some p) = Inr (Some d)"
  shows "\<exists>r \<in> set (pod_ownerReferences p). controls ''ReplicaSet'' r \<and>
     (\<exists>rs. Get_ReplicaSet c w (pod_namespace p) (or_name r) = Inr rs \<and>
       (\<exists>oo \<in> set (rs_ownerReferences rs). controls ''Deployment'' oo \<and>
          Get_Deployment c w (pod_namespace p) (or_name oo) = Inr d))"
proof -
  have "\<exists>r \<in> set refs. controls ''ReplicaSet'' r \<and> (\<exists>rs. Get_ReplicaSet c w ns (or_name r) = Inr rs \<and>
     (\<exists>oo \<in> set (rs_ownerReferences rs). controls ''Deployment'' oo \<and> Get_Deployment c w ns (or_name oo) = Inr d))"
    if "replicaset_loop c w ns refs = Inr (Some d)" for ns refs
    using that
  proof (induction refs)
    case (Cons r refs)
    then show ?case
      using deployment_loop_found [of c w ns _ d] by (auto split: if_splits sum.splits option.splits)
  qed simp
  with assms show ?thesis by (auto simp: OwnerDeployment_def)
qed

text \<open>The walk never surfaces a not-found error: missing objects mean that there is no owner.\<close>

lemma OwnerDeployment_error:
  assumes "OwnerDeployment c w p = Inl e"
  shows "\<not> IsNotFound e"
proof -
  have ne: "nil_or_error x = (Inl e :: goerror + Deployment option) \<Longrightarrow> \<not> IsNotFound e" for x
    by (auto simp: nil_or_error_def IgnoreNotFound_def split: if_splits)
  have dl: "deployment_loop c w ns refs = Some (Inl e) \<Longrightarrow> \<not> IsNotFound e" for ns refs
    by (induction refs) (auto split: if_splits sum.splits dest: ne)
  have "replicaset_loop c w ns refs = Inl e \<Longrightarrow> \<not> IsNotFound e" for ns refs
    by (induction refs) (auto split: if_splits sum.splits option.splits dest: ne dl)
  with assms show ?thesis by (auto simp: OwnerDeployment_def split: option.splits)
qed

lemma NamespaceLabels_error: "NamespaceLabels c w n = Inl e \<Longrightarrow> \<not> IsNotFound e"
  by (auto simp: NamespaceLabels_def split: sum.splits if_splits)

end
