(* ===== verification/Policy_Own.thy ===== *)
theory Policy_Own
  imports Cluster_Api
begin

text \<open>
  \<open>pkg/policyown\<close>: which policy manages a deployment. The policy controller asks
  \<open>Owns\<close> for itself, the eviction gate asks \<open>ResolveOwner\<close> for the owner; the two must
  agree, or a pod would be gated by one policy and scaled by another. Pointers are options.

  \<open>ownership\<close> is the contract between the two questions; its interpretation on the
  program's functions holds for every list of policies with distinct names (names are
  unique in a cluster).
\<close>


section \<open>Definitions\<close>

definition Pin :: "Deployment option \<Rightarrow> string" where
  "Pin dep =
     (case dep of
        None \<Rightarrow> []
      | Some d \<Rightarrow> if dep_annotations d = [] then [] else TrimSpace (mget (dep_annotations d) PolicyPinAnnotation))"

definition WorkloadSelectorMatch :: "env \<Rightarrow> EvictionGuardPolicy option \<Rightarrow> Deployment option \<Rightarrow> bool" where
  "WorkloadSelectorMatch E policy dep =
     (case (policy, dep) of
        (Some p, Some d) \<Rightarrow>
          (if spec_workloadSelector (pol_spec p) = None then True
           else case LabelSelectorAsSelector E (spec_workloadSelector (pol_spec p)) of
             Inl _ \<Rightarrow> False
           | Inr sel \<Rightarrow> sel (dep_labels d))
      | _ \<Rightarrow> False)"

definition NamespaceSelectorMatch :: "env \<Rightarrow> EvictionGuardPolicy option \<Rightarrow> strmap \<Rightarrow> bool" where
  "NamespaceSelectorMatch E policy nsLabels =
     (case policy of
        None \<Rightarrow> False
      | Some p \<Rightarrow>
          (if spec_namespaceSelector (pol_spec p) = None then True
           else case LabelSelectorAsSelector E (spec_namespaceSelector (pol_spec p)) of
             Inl _ \<Rightarrow> False
           | Inr sel \<Rightarrow> sel nsLabels))"

definition SelectorMatch :: "env \<Rightarrow> EvictionGuardPolicy option \<Rightarrow> Deployment option \<Rightarrow> strmap \<Rightarrow> bool" where
  "SelectorMatch E policy dep nsLabels \<longleftrightarrow>
     NamespaceSelectorMatch E policy nsLabels \<and> WorkloadSelectorMatch E policy dep"

fun FirstByName_loop ::
  "env \<Rightarrow> Deployment option \<Rightarrow> strmap \<Rightarrow> EvictionGuardPolicy option list \<Rightarrow> string list \<Rightarrow>
   (string, EvictionGuardPolicy) gomap \<Rightarrow> string list \<times> (string, EvictionGuardPolicy) gomap" where
  "FirstByName_loop E dep nsLabels [] names byName = (names, byName)"
| "FirstByName_loop E dep nsLabels (p0 # ps) names byName =
     (case p0 of
        None \<Rightarrow> FirstByName_loop E dep nsLabels ps names byName
      | Some p \<Rightarrow>
          if \<not> time_is_zero (pol_deletionTimestamp p) then FirstByName_loop E dep nsLabels ps names byName
          else if \<not> SelectorMatch E (Some p) dep nsLabels then FirstByName_loop E dep nsLabels ps names byName
          else if mhas byName (pol_name p) then FirstByName_loop E dep nsLabels ps names byName
          else FirstByName_loop E dep nsLabels ps (names @ [pol_name p]) (AList.update (pol_name p) p byName))"

definition FirstByName ::
  "env \<Rightarrow> Deployment option \<Rightarrow> strmap \<Rightarrow> EvictionGuardPolicy option list \<Rightarrow> EvictionGuardPolicy option" where
  "FirstByName E dep nsLabels all =
     (case FirstByName_loop E dep nsLabels all [] [] of (names, byName) \<Rightarrow>
        if length names = 0 then None else map_of byName (hd (sort names)))"

definition Owns ::
  "env \<Rightarrow> EvictionGuardPolicy option \<Rightarrow> Deployment option \<Rightarrow> strmap \<Rightarrow> EvictionGuardPolicy option list \<Rightarrow> bool" where
  "Owns E policy dep nsLabels all =
     (case (policy, dep) of
        (Some p, Some d) \<Rightarrow>
          (if \<not> time_is_zero (pol_deletionTimestamp p) then False
           else if Pin dep \<noteq> [] then Pin dep = pol_name p
           else if \<not> SelectorMatch E policy dep nsLabels then False
           else case FirstByName E dep nsLabels all of
             None \<Rightarrow> False
           | Some winner \<Rightarrow> pol_name winner = pol_name p)
      | _ \<Rightarrow> False)"

fun pinned_loop :: "string \<Rightarrow> EvictionGuardPolicy option list \<Rightarrow> EvictionGuardPolicy option" where
  "pinned_loop pin [] = None"
| "pinned_loop pin (p0 # ps) =
     (case p0 of
        None \<Rightarrow> pinned_loop pin ps
      | Some p \<Rightarrow>
          if \<not> time_is_zero (pol_deletionTimestamp p) then pinned_loop pin ps
          else if pol_name p = pin then Some p
          else pinned_loop pin ps)"

definition ResolveOwner ::
  "env \<Rightarrow> Deployment option \<Rightarrow> strmap \<Rightarrow> EvictionGuardPolicy option list \<Rightarrow> EvictionGuardPolicy option" where
  "ResolveOwner E dep nsLabels all =
     (case dep of
        None \<Rightarrow> None
      | Some d \<Rightarrow>
          if Pin dep \<noteq> [] then pinned_loop (Pin dep) all
          else FirstByName E dep nsLabels all)"


section \<open>The ownership contract\<close>

locale ownership =
  fixes member :: "'p \<Rightarrow> bool"
    and owns :: "'p \<Rightarrow> 'd \<Rightarrow> bool"
    and resolve :: "'d \<Rightarrow> 'p option"
  assumes owns_iff: "member p \<Longrightarrow> owns p d \<longleftrightarrow> resolve d = Some p"
begin

lemma owner_unique: "member p \<Longrightarrow> member q \<Longrightarrow> owns p d \<Longrightarrow> owns q d \<Longrightarrow> p = q"
  by (simp add: owns_iff)

lemma orphan: "resolve d = None \<Longrightarrow> member p \<Longrightarrow> \<not> owns p d"
  by (simp add: owns_iff)

end


section \<open>Lemmas\<close>

definition eligible :: "env \<Rightarrow> Deployment \<Rightarrow> strmap \<Rightarrow> EvictionGuardPolicy \<Rightarrow> bool" where
  "eligible E d ns p \<longleftrightarrow>
     time_is_zero (pol_deletionTimestamp p) \<and> SelectorMatch E (Some p) (Some d) ns"

lemma FirstByName_loop_spec:
  assumes "FirstByName_loop E (Some d) ns (map Some ps) names byName = (names', byName')"
    and "set names = fst ` set byName"
  shows "set names' = set names \<union> pol_name ` {p \<in> set ps. eligible E d ns p}
     \<and> map_of byName' = map_of (byName @ map (\<lambda>p. (pol_name p, p)) (filter (eligible E d ns) ps))"
  using assms
proof (induction ps arbitrary: names byName)
  case Nil
  then show ?case by simp
next
  case (Cons p ps)
  show ?case
  proof (cases "eligible E d ns p \<and> \<not> mhas byName (pol_name p)")
    case True
    then have step: "FirstByName_loop E (Some d) ns (map Some ps) (names @ [pol_name p])
        (AList.update (pol_name p) p byName) = (names', byName')"
      using Cons.prems(1) by (simp add: eligible_def)
    have "map_of (AList.update (pol_name p) p byName @ r) = map_of (byName @ (pol_name p, p) # r)" for r
      using True by (auto simp: mhas_def map_add_def update_conv fun_eq_iff split: option.split)
    with True Cons.IH [OF step] Cons.prems(2) show ?thesis
      by (auto simp: dom_update)
  next
    case False
    then have step: "FirstByName_loop E (Some d) ns (map Some ps) names byName = (names', byName')"
      using Cons.prems(1) by (auto simp: eligible_def split: if_splits)
    have "map_of (byName @ (pol_name p, p) # r) = map_of (byName @ r)" if "mhas byName (pol_name p)" for r
      using that by (auto simp: mhas_def map_add_def fun_eq_iff split: option.split)
    moreover have "pol_name p \<in> set names" if "mhas byName (pol_name p)"
      using that Cons.prems(2) by (simp add: mhas_iff)
    ultimately show ?thesis using False Cons.IH [OF step] Cons.prems(2) by auto
  qed
qed

lemma hd_sort_Min:
  fixes xs :: "'a::linorder list"
  assumes "xs \<noteq> []"
  shows "hd (sort xs) = Min (set xs)"
proof -
  obtain y ys where y: "sort xs = y # ys" using assms by (metis list.exhaust set_empty set_sort)
  have "sorted (sort xs)" by simp
  with y have "\<forall>z \<in> set ys. y \<le> z" by simp
  moreover have "set xs = insert y (set ys)" using y by (metis list.simps(15) set_sort)
  ultimately show ?thesis using y by (auto intro: Min_eqI [symmetric])
qed

lemma FirstByName_spec:
  "FirstByName E (Some d) ns (map Some ps) =
     (let es = filter (eligible E d ns) ps in
      if es = [] then None
      else map_of (map (\<lambda>p. (pol_name p, p)) es) (Min (pol_name ` set es)))"
proof -
  obtain names byName where l: "FirstByName_loop E (Some d) ns (map Some ps) [] [] = (names, byName)"
    by fastforce
  from FirstByName_loop_spec [OF l] have names: "set names = pol_name ` {p \<in> set ps. eligible E d ns p}"
    and byName: "map_of byName = map_of (map (\<lambda>p. (pol_name p, p)) (filter (eligible E d ns) ps))"
    by auto
  have same: "set names = pol_name ` set (filter (eligible E d ns) ps)" using names by simp
  have empty: "names = [] \<longleftrightarrow> filter (eligible E d ns) ps = []"
    using same by (metis image_is_empty set_empty)
  show ?thesis
    using empty byName hd_sort_Min [of names] unfolding same
    by (simp add: FirstByName_def l Let_def)
qed

lemma map_of_named:
  assumes "distinct (map pol_name ps)"
  shows "map_of (map (\<lambda>p. (pol_name p, p)) ps) n = Some p \<longleftrightarrow> p \<in> set ps \<and> pol_name p = n"
  using assms by (induction ps) (auto simp: image_iff split: if_splits)

lemma FirstByName_iff:
  assumes "distinct (map pol_name ps)"
  shows "FirstByName E (Some d) ns (map Some ps) = Some p \<longleftrightarrow>
     p \<in> set ps \<and> eligible E d ns p \<and> (\<forall>q \<in> set ps. eligible E d ns q \<longrightarrow> pol_name p \<le> pol_name q)"
proof -
  let ?es = "filter (eligible E d ns) ps"
  have dist: "distinct (map pol_name ?es)" using assms by (simp add: distinct_map_filter)
  show ?thesis
  proof (cases "?es = []")
    case True
    then show ?thesis by (auto simp: FirstByName_spec Let_def filter_empty_conv)
  next
    case False
    then have fin: "finite (pol_name ` set ?es)" and ne: "pol_name ` set ?es \<noteq> {}"
      by (simp_all only: finite_imageI finite_set image_is_empty set_empty not_False_eq_True)
    have "pol_name p = Min (pol_name ` set ?es) \<longleftrightarrow>
        (\<forall>q \<in> set ps. eligible E d ns q \<longrightarrow> pol_name p \<le> pol_name q)" if "p \<in> set ?es"
      using that Min_eq_iff [OF fin ne, of "pol_name p"] by (auto simp: eq_commute [of "pol_name p"])
    moreover have "FirstByName E (Some d) ns (map Some ps) = Some p \<longleftrightarrow>
        p \<in> set ?es \<and> pol_name p = Min (pol_name ` set ?es)"
      unfolding FirstByName_spec Let_def using False map_of_named [OF dist, of _ p] by (simp only: if_False)
    ultimately show ?thesis by auto
  qed
qed

lemma pinned_loop_iff:
  assumes "distinct (map pol_name ps)"
  shows "pinned_loop pin (map Some ps) = Some p \<longleftrightarrow>
     p \<in> set ps \<and> time_is_zero (pol_deletionTimestamp p) \<and> pol_name p = pin"
  using assms by (induction ps) (auto simp: image_iff)

lemma Owns_resolve:
  assumes dist: "distinct (map pol_name ps)" and mem: "p \<in> set ps"
  shows "Owns E (Some p) (Some d) ns (map Some ps) \<longleftrightarrow> ResolveOwner E (Some d) ns (map Some ps) = Some p"
proof (cases "Pin (Some d) = []")
  case False
  with mem show ?thesis by (auto simp: Owns_def ResolveOwner_def pinned_loop_iff [OF dist])
next
  case True
  have inj: "q = p" if "q \<in> set ps" "pol_name q = pol_name p" for q
    using that dist mem by (auto simp: distinct_map inj_on_def)
  show ?thesis
  proof (cases "FirstByName E (Some d) ns (map Some ps)")
    case None
    with True show ?thesis by (simp add: Owns_def ResolveOwner_def)
  next
    case (Some q)
    then have "q \<in> set ps" and "eligible E d ns q" by (simp_all add: FirstByName_iff [OF dist])
    with True Some inj show ?thesis by (auto simp: Owns_def ResolveOwner_def eligible_def)
  qed
qed

interpretation own: ownership
  "\<lambda>p. distinct (map pol_name ps) \<and> p \<in> set ps"
  "\<lambda>p d. Owns E (Some p) (Some d) ns (map Some ps)"
  "\<lambda>d. ResolveOwner E (Some d) ns (map Some ps)" for E ns ps
  by unfold_locales (simp add: Owns_resolve)


section \<open>Examples\<close>

definition empty_node_filter :: NodeFilter where
  "empty_node_filter =
     \<lparr>nf_labelSelector = None, nf_excludeLabelSelector = None, nf_names = [], nf_namePattern = [],
      nf_zones = [], nf_instanceTypes = [], nf_capacityTypes = [], nf_taintSelector = []\<rparr>"

definition plain_policy :: "string \<Rightarrow> EvictionGuardPolicy" where
  "plain_policy n =
     \<lparr>pol_name = n, pol_generation = 1, pol_deletionTimestamp = None, pol_finalizers = [],
      pol_spec = \<lparr>spec_nodeFilter = empty_node_filter, spec_workloadSelector = None, spec_namespaceSelector = None,
        spec_spareReplicas = None, spec_maxBuffer = None, spec_maxConcurrentWindows = None, spec_backends = [],
        spec_scaleBackAfter = None, spec_maxWindow = None,
        spec_stamp = \<lparr>stamp_enabled = False, stamp_scaledToKey = [], stamp_baselineKey = [], stamp_activeKey = [],
          stamp_windowUntilKey = []\<rparr>,
        spec_disruptionSignals = [], spec_customSignals = []\<rparr>,
      pol_status = \<lparr>ps_observedGeneration = 0, ps_matchedNodes = 0, ps_vulnerableNodes = 0, ps_activeWindows = 0,
        ps_deferredWorkloads = 0, ps_conditions = []\<rparr>\<rparr>"

definition plain_deployment :: Deployment where
  "plain_deployment =
     \<lparr>dep_name = ''web'', dep_namespace = ''shop'', dep_labels = [], dep_annotations = [], dep_replicas = Some 3,
      dep_selector = Some \<lparr>sel_matchLabels = [(''app'', ''web'')], sel_matchExpressions = []\<rparr>,
      dep_templateLabels = [(''app'', ''web''), (ProtectedLabel, ''true'')]\<rparr>"

lemma plain_eligible: "eligible E plain_deployment ns (plain_policy n)"
  by (simp add: eligible_def SelectorMatch_def NamespaceSelectorMatch_def WorkloadSelectorMatch_def
      plain_policy_def time_is_zero_def)

lemma plain_names [simp]: "pol_name (plain_policy n) = n"
  by (simp add: plain_policy_def)


section \<open>Properties\<close>

text \<open>
  C35. The controller and the gate agree on ownership: among policies with distinct names,
  a listed policy \<open>Owns\<close> a deployment exactly when \<open>ResolveOwner\<close> returns that policy;
  so at most one policy scales a deployment, and it is the one that gates its pods.
\<close>

theorem Owns_iff_ResolveOwner:
  assumes "distinct (map pol_name ps)" and "p \<in> set ps" and "q \<in> set ps"
  shows "(Owns E (Some p) (Some d) ns (map Some ps) \<longleftrightarrow> ResolveOwner E (Some d) ns (map Some ps) = Some p)
     \<and> (if Owns E (Some p) (Some d) ns (map Some ps) \<and> Owns E (Some q) (Some d) ns (map Some ps) then p = q else True)"
  using own.owns_iff own.owner_unique assms by auto

theorem Owns_iff_ResolveOwner_witness:
  "ResolveOwner std_env (Some plain_deployment) [] [Some (plain_policy ''b''), Some (plain_policy ''a'')]
     = Some (plain_policy ''a'')
   \<and> Owns std_env (Some (plain_policy ''a'')) (Some plain_deployment) []
       [Some (plain_policy ''b''), Some (plain_policy ''a'')]
   \<and> \<not> Owns std_env (Some (plain_policy ''b'')) (Some plain_deployment) []
       [Some (plain_policy ''b''), Some (plain_policy ''a'')]"
proof -
  let ?ps = "[plain_policy ''b'', plain_policy ''a'']"
  have ne: "plain_policy ''b'' \<noteq> plain_policy ''a''" by (simp add: plain_policy_def)
  have "FirstByName std_env (Some plain_deployment) [] (map Some ?ps) = Some (plain_policy ''a'')"
    by (subst FirstByName_iff) (simp_all add: plain_eligible)
  then have "ResolveOwner std_env (Some plain_deployment) [] (map Some ?ps) = Some (plain_policy ''a'')"
    by (simp add: ResolveOwner_def Pin_def plain_deployment_def)
  with ne Owns_iff_ResolveOwner [of ?ps "plain_policy ''a''" "plain_policy ''b''" std_env plain_deployment "[]"]
  show ?thesis by auto
qed

text \<open>
  Without a pin, the owner is the non-deleting policy with the lexicographically least
  name among those whose namespace and workload selectors match; the order in which the
  API lists the policies does not matter.
\<close>

lemma FirstByName_least:
  assumes "distinct (map pol_name ps)" and "set ps' = set ps" and "distinct (map pol_name ps')"
  shows "(FirstByName E (Some d) ns (map Some ps) = Some p \<longleftrightarrow>
       p \<in> set ps \<and> eligible E d ns p \<and> list_all (\<lambda>q. if eligible E d ns q then pol_name p \<le> pol_name q else True) ps)
     \<and> FirstByName E (Some d) ns (map Some ps') = FirstByName E (Some d) ns (map Some ps)"
proof -
  have "FirstByName E (Some d) ns (map Some ps') = Some q \<longleftrightarrow> FirstByName E (Some d) ns (map Some ps) = Some q" for q
    by (simp add: FirstByName_iff assms)
  then have "FirstByName E (Some d) ns (map Some ps') = FirstByName E (Some d) ns (map Some ps)"
    by (metis option.exhaust)
  then show ?thesis by (auto simp: FirstByName_iff [OF assms(1)] list_all_iff)
qed

end
