(* ===== verification/Go_Glob.thy ===== *)
theory Go_Glob
  imports Api_Types
begin

text \<open>
  Go's \<open>filepath.Match\<close> on a Unix system, as the node filter uses it: \<open>scanChunk\<close>
  cuts the pattern at its stars, \<open>matchChunk\<close> matches the operators between two stars
  and keeps checking the syntax after a mismatch, \<open>getEsc\<close> reads one character of a
  class. Characters are bytes; patterns and node names are ASCII.

  The result that the filters rely on: whether a pattern is malformed does not depend on
  the name it is matched against (\<open>Match_bad_iff\<close>), so the one test that
  \<open>filters.FromSpec\<close> makes with the empty name is enough.
\<close>


section \<open>Definitions\<close>

definition ErrBadPattern :: goerror where
  "ErrBadPattern = ErrorString ''syntax error in pattern''"

fun getEsc :: "string \<Rightarrow> goerror + (char \<times> string)" where
  "getEsc [] = Inl ErrBadPattern"
| "getEsc (c # cs) =
     (if c = CHR ''-'' \<or> c = CHR '']'' then Inl ErrBadPattern
      else if c = CHR 0x5C then
        (case cs of [] \<Rightarrow> Inl ErrBadPattern
         | d # ds \<Rightarrow> if ds = [] then Inl ErrBadPattern else Inr (d, ds))
      else if cs = [] then Inl ErrBadPattern else Inr (c, cs))"

lemma getEsc_length: "getEsc s = Inr (c, t) \<Longrightarrow> length t < length s \<and> t \<noteq> []"
  by (cases s) (auto split: if_splits list.splits)

lemma getEsc_err: "getEsc s = Inl e \<Longrightarrow> e = ErrBadPattern"
  by (cases s) (auto split: if_splits list.splits)

function matchRanges :: "char \<Rightarrow> string \<Rightarrow> bool \<Rightarrow> bool \<Rightarrow> goerror + (bool \<times> string)" where
  "matchRanges r chunk some_range matched =
     (if chunk \<noteq> [] \<and> hd chunk = CHR '']'' \<and> some_range then Inr (matched, tl chunk)
      else case getEsc chunk of
        Inl e \<Rightarrow> Inl e
      | Inr (lo, chunk1) \<Rightarrow>
          if hd chunk1 = CHR ''-'' then
            (case getEsc (tl chunk1) of
               Inl e \<Rightarrow> Inl e
             | Inr (hi, chunk2) \<Rightarrow> matchRanges r chunk2 True (matched \<or> (lo \<le> r \<and> r \<le> hi)))
          else matchRanges r chunk1 True (matched \<or> (lo \<le> r \<and> r \<le> lo)))"
  by pat_completeness auto
termination
proof (relation "measure (\<lambda>(r, chunk, n, m). length chunk)", goal_cases)
  case 1
  then show ?case by simp
next
  case (2 r chunk n m p lo chunk1 q hi chunk2)
  then have "length chunk1 < length chunk" and "length chunk2 < length (tl chunk1)"
    by (auto dest: getEsc_length)
  then show ?case by simp
next
  case (3 r chunk n m p lo chunk1)
  then show ?case by (auto dest: getEsc_length)
qed

declare matchRanges.simps [simp del]

lemma matchRanges_length: "matchRanges r chunk n m = Inr (b, rest) \<Longrightarrow> length rest < length chunk"
proof (induction r chunk n m rule: matchRanges.induct)
  case (1 r chunk n m)
  show ?case
  proof (cases "chunk \<noteq> [] \<and> hd chunk = CHR '']'' \<and> n")
    case True
    with "1.prems" show ?thesis by (subst (asm) matchRanges.simps) (cases chunk; auto)
  next
    case False
    with "1.prems" obtain lo chunk1 where e: "getEsc chunk = Inr (lo, chunk1)"
      by (subst (asm) matchRanges.simps) (auto split: sum.splits)
    then have l: "length chunk1 < length chunk" by (simp add: getEsc_length)
    show ?thesis
    proof (cases "hd chunk1 = CHR ''-''")
      case True
      with "1.prems" False e obtain hi chunk2 where e2: "getEsc (tl chunk1) = Inr (hi, chunk2)"
        and r: "matchRanges r chunk2 True (m \<or> (lo \<le> r \<and> r \<le> hi)) = Inr (b, rest)"
        by (subst (asm) matchRanges.simps) (auto split: sum.splits)
      have "length rest < length chunk2" by (rule "1.IH"(1) [OF False e refl True e2 refl r])
      with e2 l show ?thesis by (auto dest: getEsc_length)
    next
      case no_range: False
      with "1.prems" False e have r: "matchRanges r chunk1 True (m \<or> (lo \<le> r \<and> r \<le> lo)) = Inr (b, rest)"
        by (subst (asm) matchRanges.simps) simp
      have "length rest < length chunk1" by (rule "1.IH"(2) [OF False e refl no_range r])
      with l show ?thesis by simp
    qed
  qed
qed

text \<open>The result of \<open>matchChunk\<close>: \<open>Inr None\<close> is \<open>ok = false\<close>, \<open>Inr (Some rest)\<close> a match.\<close>

function matchChunk :: "string \<Rightarrow> string \<Rightarrow> bool \<Rightarrow> goerror + string option" where
  "matchChunk [] s failed = Inr (if failed then None else Some s)"
| "matchChunk (c # cs) s failed0 =
     (let failed = (failed0 \<or> s = [])
      in if c = CHR ''['' then
           (let r = (if failed then CHR 0x00 else hd s);
                s1 = (if failed then s else tl s);
                negated = (cs \<noteq> [] \<and> hd cs = CHR ''^'');
                cs1 = (if negated then tl cs else cs)
            in case matchRanges r cs1 False False of
                 Inl e \<Rightarrow> Inl e
               | Inr (matched, cs2) \<Rightarrow> matchChunk cs2 s1 (failed \<or> matched = negated))
         else if c = CHR ''?'' then
           (if failed then matchChunk cs s True else matchChunk cs (tl s) (hd s = CHR ''/''))
         else if c = CHR 0x5C then
           (case cs of
              [] \<Rightarrow> Inl ErrBadPattern
            | d # ds \<Rightarrow> if failed then matchChunk ds s True else matchChunk ds (tl s) (d \<noteq> hd s))
         else (if failed then matchChunk cs s True else matchChunk cs (tl s) (c \<noteq> hd s)))"
  by pat_completeness auto
termination
proof (relation "measure (\<lambda>(chunk, s, failed). length chunk)", goal_cases)
  case (2 c cs s failed0 failed r s1 negated cs1 p matched cs2)
  then have "matchRanges r cs1 False False = Inr (matched, cs2)" by metis
  then have "length cs2 < length cs1" by (rule matchRanges_length)
  moreover have "length cs1 \<le> length cs" using 2 by simp
  ultimately show ?case by simp
qed auto

fun scanBody :: "string \<Rightarrow> bool \<Rightarrow> string \<times> string" where
  "scanBody [] inrange = ([], [])"
| "scanBody (c # cs) inrange =
     (if c = CHR 0x5C then
        (case cs of
           [] \<Rightarrow> ([c], [])
         | d # ds \<Rightarrow> (case scanBody ds inrange of (a, b) \<Rightarrow> (c # d # a, b)))
      else if c = CHR ''['' then (case scanBody cs True of (a, b) \<Rightarrow> (c # a, b))
      else if c = CHR '']'' then (case scanBody cs False of (a, b) \<Rightarrow> (c # a, b))
      else if c = CHR ''*'' \<and> \<not> inrange then ([], c # cs)
      else (case scanBody cs inrange of (a, b) \<Rightarrow> (c # a, b)))"

definition scanChunk :: "string \<Rightarrow> bool \<times> string \<times> string" where
  "scanChunk pattern =
     (let p = dropWhile (\<lambda>c. c = CHR ''*'') pattern
      in (p \<noteq> pattern, scanBody p False))"

lemma scanBody_append: "scanBody p b = (x, y) \<Longrightarrow> x @ y = p"
  by (induction p b arbitrary: x y rule: scanBody.induct) (auto split: if_splits prod.splits list.splits)

lemma scanBody_Nil: "scanBody p False = ([], y) \<Longrightarrow> p = [] \<or> hd p = CHR ''*''"
  by (cases p) (auto split: if_splits prod.splits list.splits)

lemma scanChunk_shorter:
  assumes "scanChunk pattern = (star, chunk, rest)" and "pattern \<noteq> []"
  shows "length rest < length pattern"
proof -
  define p where "p = dropWhile (\<lambda>c. c = CHR ''*'') pattern"
  with assms(1) have s: "scanBody p False = (chunk, rest)" and star: "star = (p \<noteq> pattern)"
    by (auto simp: scanChunk_def Let_def)
  have app: "chunk @ rest = p" by (rule scanBody_append [OF s])
  have len: "length p \<le> length pattern" by (simp add: p_def length_dropWhile_le)
  have no_star: "p = [] \<or> hd p \<noteq> CHR ''*''"
    unfolding p_def by (metis (mono_tags, lifting) hd_dropWhile)
  show ?thesis
  proof (cases "chunk = []")
    case True
    with s no_star have "p = []" using scanBody_Nil by blast
    with app assms(2) show ?thesis by (cases pattern) auto
  next
    case False
    then have "length rest < length p" using app by (metis length_append length_greater_0_conv less_add_same_cancel2)
    with len show ?thesis by simp
  qed
qed

text \<open>The loop that checks the rest of the pattern after a mismatch.\<close>

function validTail :: "string \<Rightarrow> goerror + bool" where
  "validTail pattern =
     (if pattern = [] then Inr False
      else case scanChunk pattern of (star, chunk, rest) \<Rightarrow>
        (case matchChunk chunk [] False of
           Inl e \<Rightarrow> Inl e
         | Inr r \<Rightarrow> validTail rest))"
  by pat_completeness auto
termination
  by (relation "measure length") (auto dest: scanChunk_shorter [OF sym])

declare validTail.simps [simp del]

text \<open>
  The inner loop of a star: try the chunk after every skip that does not cross a slash.
  \<open>Inr (Some t)\<close> continues with the name \<open>t\<close>, \<open>Inr None\<close> falls through.
\<close>

fun matchStar :: "string \<Rightarrow> bool \<Rightarrow> string \<Rightarrow> goerror + string option" where
  "matchStar chunk last_chunk [] = Inr None"
| "matchStar chunk last_chunk (n # name) =
     (if n = CHR ''/'' then Inr None
      else case matchChunk chunk name False of
        Inl e \<Rightarrow> Inl e
      | Inr None \<Rightarrow> matchStar chunk last_chunk name
      | Inr (Some t) \<Rightarrow> if last_chunk \<and> t \<noteq> [] then matchStar chunk last_chunk name else Inr (Some t))"

function Match :: "string \<Rightarrow> string \<Rightarrow> goerror + bool" where
  "Match pattern name =
     (if pattern = [] then Inr (name = [])
      else case scanChunk pattern of (star, chunk, rest) \<Rightarrow>
        if star \<and> chunk = [] then Inr (\<not> Contains name ''/'')
        else case matchChunk chunk name False of
          Inl e \<Rightarrow> Inl e
        | Inr res \<Rightarrow>
            (case (case res of Some t \<Rightarrow> if t = [] \<or> rest \<noteq> [] then Some t else None | None \<Rightarrow> None) of
               Some t \<Rightarrow> Match rest t
             | None \<Rightarrow>
                 if star then
                   (case matchStar chunk (rest = []) name of
                      Inl e \<Rightarrow> Inl e
                    | Inr (Some t) \<Rightarrow> Match rest t
                    | Inr None \<Rightarrow> validTail rest)
                 else validTail rest))"
  by pat_completeness auto
termination
  by (relation "measure (\<lambda>(pattern, name). length pattern)") (auto dest: scanChunk_shorter [OF sym])

declare Match.simps [simp del]


section \<open>Malformed patterns\<close>

text \<open>A reference definition: a pattern is bad when one of its chunks is.\<close>

definition bad_chunk :: "string \<Rightarrow> bool" where
  "bad_chunk chunk \<longleftrightarrow> (\<exists>e. matchChunk chunk [] True = Inl e)"

lemma matchRanges_shape:
  "(\<exists>e. matchRanges r chunk n m = Inl e \<and> matchRanges r' chunk n m' = Inl e) \<or>
   (\<exists>b b' rest. matchRanges r chunk n m = Inr (b, rest) \<and> matchRanges r' chunk n m' = Inr (b', rest))"
proof (induction r chunk n m arbitrary: m' rule: matchRanges.induct)
  case (1 r chunk n m)
  show ?case
  proof (cases "chunk \<noteq> [] \<and> hd chunk = CHR '']'' \<and> n")
    case True
    then have "matchRanges x chunk n y = Inr (y, tl chunk)" for x y
      by (subst matchRanges.simps) simp
    then show ?thesis by simp
  next
    case False
    note IH = "1.IH"(1) [OF False] "1.IH"(2) [OF False]
    have unf: "matchRanges x chunk n y =
        (case getEsc chunk of Inl e \<Rightarrow> Inl e | Inr (lo, chunk1) \<Rightarrow>
          if hd chunk1 = CHR ''-'' then
            (case getEsc (tl chunk1) of Inl e \<Rightarrow> Inl e
             | Inr (hi, chunk2) \<Rightarrow> matchRanges x chunk2 True (y \<or> (lo \<le> x \<and> x \<le> hi)))
          else matchRanges x chunk1 True (y \<or> (lo \<le> x \<and> x \<le> lo)))" for x y
      by (subst matchRanges.simps) (simp only: False if_False)
    show ?thesis
    proof (cases "getEsc chunk")
      case (Inl e)
      then show ?thesis by (simp add: unf)
    next
      case (Inr p)
      obtain lo chunk1 where p: "p = (lo, chunk1)" by fastforce
      show ?thesis
      proof (cases "hd chunk1 = CHR ''-''")
        case no: False
        then show ?thesis using IH(2) [OF Inr p [symmetric] no] by (simp add: unf Inr p)
      next
        case dash: True
        show ?thesis
        proof (cases "getEsc (tl chunk1)")
          case (Inl e)
          with dash Inr p show ?thesis by (simp add: unf)
        next
          case (Inr q)
          obtain hi chunk2 where q: "q = (hi, chunk2)" by fastforce
          show ?thesis
            using IH(1) [OF \<open>getEsc chunk = Inr p\<close> p [symmetric] dash Inr q [symmetric]]
              dash Inr p q \<open>getEsc chunk = Inr p\<close>
            by (simp add: unf)
        qed
      qed
    qed
  qed
qed

lemma matchRanges_rest:
  "isl (matchRanges r chunk n m) = isl (matchRanges r' chunk n m') \<and>
   (matchRanges r chunk n m = Inr (b, rest) \<longrightarrow> (\<exists>b'. matchRanges r' chunk n m' = Inr (b', rest)))"
  using matchRanges_shape [of r chunk n m r' m'] by auto

lemma matchChunk_class:
  assumes "neg = (cs \<noteq> [] \<and> hd cs = CHR ''^'')" and "cs1 = (if neg then tl cs else cs)"
  shows "matchChunk (CHR ''['' # cs) t g =
     (case matchRanges (if g \<or> t = [] then CHR 0x00 else hd t) cs1 False False of
        Inl e \<Rightarrow> Inl e
      | Inr (b, cs2) \<Rightarrow> matchChunk cs2 (if g \<or> t = [] then t else tl t) ((g \<or> t = []) \<or> b = neg))"
  unfolding assms by (simp only: matchChunk.simps(2) Let_def if_True refl)

lemma matchChunk_step:
  assumes "c \<noteq> CHR ''[''"
  shows "(c = CHR 0x5C \<and> cs = [] \<and> matchChunk (c # cs) t g = Inl ErrBadPattern) \<or>
     (\<exists>t' g'. matchChunk (c # cs) t g = matchChunk (if c = CHR 0x5C then tl cs else cs) t' g' \<and>
        (c = CHR 0x5C \<longrightarrow> cs \<noteq> []))"
proof (cases "c = CHR 0x5C")
  case True
  show ?thesis
  proof (cases cs)
    case Nil
    with True show ?thesis by (simp add: Let_def)
  next
    case (Cons d ds)
    with True show ?thesis by (cases "g \<or> t = []") (auto simp: Let_def)
  qed
next
  case False
  with assms show ?thesis by (cases "g \<or> t = []") (auto simp: Let_def)
qed

lemma matchChunk_isl: "isl (matchChunk chunk s f) = isl (matchChunk chunk s' f')"
proof (induction chunk arbitrary: s f s' f' rule: length_induct)
  case (1 chunk)
  then have IH: "isl (matchChunk xs t g) = isl (matchChunk xs t' g')" if "length xs < length chunk" for xs t g t' g'
    using that by blast
  show ?case
  proof (cases chunk)
    case Nil
    then show ?thesis by simp
  next
    case chunk: (Cons c cs)
    show ?thesis
    proof (cases "c = CHR ''[''")
      case True
      define neg where "neg = (cs \<noteq> [] \<and> hd cs = CHR ''^'')"
      define cs1 where "cs1 = (if neg then tl cs else cs)"
      note step = matchChunk_class [OF neg_def cs1_def]
      have same: "isl (matchRanges r cs1 False False) = isl (matchRanges r' cs1 False False)" for r r'
        using matchRanges_rest by blast
      show ?thesis
      proof (cases "matchRanges (if f \<or> s = [] then CHR 0x00 else hd s) cs1 False False")
        case (Inl e)
        with same have "isl (matchRanges (if f' \<or> s' = [] then CHR 0x00 else hd s') cs1 False False)"
          by (metis sum.disc(1))
        then obtain e' where "matchRanges (if f' \<or> s' = [] then CHR 0x00 else hd s') cs1 False False = Inl e'"
          by (auto simp: isl_def)
        with Inl show ?thesis by (simp only: chunk True step sum.case sum.disc)
      next
        case (Inr p)
        obtain b rest where p: "p = (b, rest)" by fastforce
        with Inr matchRanges_rest [of _ cs1 False False] obtain b' where
          r': "matchRanges (if f' \<or> s' = [] then CHR 0x00 else hd s') cs1 False False = Inr (b', rest)"
          by metis
        have "length rest < length cs1" using Inr p matchRanges_length by blast
        then have l: "length rest < length chunk" by (simp add: chunk cs1_def split: if_splits)
        show ?thesis by (simp only: chunk True step Inr r' p sum.case prod.case) (rule IH [OF l])
      qed
    next
      case False
      note step = matchChunk_step [OF False, of cs]
      let ?ds = "if c = CHR 0x5C then tl cs else cs"
      have len: "length ?ds < length chunk" by (auto simp: chunk)
      show ?thesis
        using step [of s f] step [of s' f'] IH [OF len] unfolding chunk by metis
    qed
  qed
qed

lemma matchChunk_bad_iff: "isl (matchChunk chunk s f) \<longleftrightarrow> bad_chunk chunk"
  using matchChunk_isl [of chunk s f "[]" True] by (auto simp: bad_chunk_def isl_def)

text \<open>The chunks of a pattern, as \<open>Match\<close> and its tail check visit them.\<close>

function bad_pattern :: "string \<Rightarrow> bool" where
  "bad_pattern pattern =
     (if pattern = [] then False
      else case scanChunk pattern of (star, chunk, rest) \<Rightarrow> bad_chunk chunk \<or> bad_pattern rest)"
  by pat_completeness auto
termination
  by (relation "measure length") (auto dest: scanChunk_shorter [OF sym])

declare bad_pattern.simps [simp del]

lemma bad_chunk_Nil [simp]: "\<not> bad_chunk []"
  by (simp add: bad_chunk_def)

lemma validTail_isl: "isl (validTail p) \<longleftrightarrow> bad_pattern p"
proof (induction p rule: validTail.induct)
  case (1 p)
  show ?case
  proof (cases "p = []")
    case True
    then show ?thesis by (simp add: validTail.simps bad_pattern.simps)
  next
    case False
    obtain star chunk rest where sc: "scanChunk p = (star, chunk, rest)" by (cases "scanChunk p") auto
    have b: "bad_pattern p \<longleftrightarrow> bad_chunk chunk \<or> bad_pattern rest"
      using False sc by (simp add: bad_pattern.simps [of p])
    show ?thesis
    proof (cases "matchChunk chunk [] False")
      case (Inl e)
      then have "bad_chunk chunk" using matchChunk_bad_iff [of chunk "[]" False] by simp
      with Inl False sc b show ?thesis by (simp add: validTail.simps [of p])
    next
      case (Inr r)
      then have "\<not> bad_chunk chunk" using matchChunk_bad_iff [of chunk "[]" False] by simp
      with Inr False sc b "1.IH" [OF False sc [symmetric] refl Inr] show ?thesis
        by (simp add: validTail.simps [of p])
    qed
  qed
qed

lemma matchStar_isl: "isl (matchStar chunk l name) \<Longrightarrow> bad_chunk chunk"
proof (induction chunk l name rule: matchStar.induct)
  case (2 chunk l n name)
  then show ?case
    using matchChunk_bad_iff [of chunk name False]
    by (auto split: if_splits sum.splits option.splits)
qed simp

lemma scanChunk_star_Nil:
  assumes "scanChunk p = (star, [], rest)"
  shows "rest = []"
proof -
  define q where "q = dropWhile (\<lambda>c. c = CHR ''*'') p"
  with assms have s: "scanBody q False = ([], rest)" by (auto simp: scanChunk_def Let_def)
  have "q = [] \<or> hd q \<noteq> CHR ''*''"
    unfolding q_def by (metis (mono_tags, lifting) hd_dropWhile)
  with scanBody_Nil [OF s] scanBody_append [OF s] show ?thesis by auto
qed

theorem Match_isl: "isl (Match pattern name) \<longleftrightarrow> bad_pattern pattern"
proof (induction pattern name rule: Match.induct)
  case (1 p name)
  show ?case
  proof (cases "p = []")
    case True
    then show ?thesis by (simp add: Match.simps bad_pattern.simps)
  next
    case False
    obtain star chunk rest where sc: "scanChunk p = (star, chunk, rest)" by (cases "scanChunk p") auto
    have b: "bad_pattern p \<longleftrightarrow> bad_chunk chunk \<or> bad_pattern rest"
      using False sc by (simp add: bad_pattern.simps [of p])
    show ?thesis
    proof (cases "star \<and> chunk = []")
      case True
      then have "rest = []" using sc scanChunk_star_Nil by blast
      with True False sc b show ?thesis by (simp add: Match.simps [of p] bad_pattern.simps [of "[]"])
    next
      case ne: False
      show ?thesis
      proof (cases "matchChunk chunk name False")
        case (Inl e)
        then have "bad_chunk chunk" using matchChunk_bad_iff [of chunk name False] by simp
        with Inl False sc b ne show ?thesis by (auto simp: Match.simps [of p])
      next
        case (Inr r)
        then have good: "\<not> bad_chunk chunk" using matchChunk_bad_iff [of chunk name False] by simp
        define c where "c = (case r of Some t \<Rightarrow> if t = [] \<or> rest \<noteq> [] then Some t else None | None \<Rightarrow> None)"
        note IH = "1.IH" [OF False sc [symmetric] refl ne Inr]
        have unf: "Match p name = (case c of Some t \<Rightarrow> Match rest t
             | None \<Rightarrow> if star then (case matchStar chunk (rest = []) name of Inl e \<Rightarrow> Inl e
                    | Inr (Some t) \<Rightarrow> Match rest t | Inr None \<Rightarrow> validTail rest)
                 else validTail rest)"
          unfolding c_def by (subst Match.simps) (simp only: False ne Inr sc prod.case if_False sum.case)
        show ?thesis
        proof (cases c)
          case (Some t)
          with IH(2) [folded c_def, OF Some] good b show ?thesis by (simp add: unf)
        next
          case None
          obtain m where m: "matchStar chunk (rest = []) name = Inr m"
            using good matchStar_isl by (metis isl_def sum.exhaust)
          show ?thesis
          proof (cases "star \<and> m \<noteq> None")
            case True
            then obtain t where "star" and t: "m = Some t" by auto
            with IH(1) [folded c_def, OF None _ m t] None m good b show ?thesis by (simp add: unf)
          next
            case False
            with m None good b validTail_isl [of rest] show ?thesis by (auto simp: unf)
          qed
        qed
      qed
    qed
  qed
qed

end
