(* ===== verification/Filters.thy ===== *)
theory Filters
  imports Go_Glob Cluster_Api
begin

text \<open>
  \<open>pkg/filters\<close>: a policy's node filter. \<open>FromSpec\<close> compiles the label selectors and
  checks the name pattern once, \<open>Matches\<close> evaluates the compiled filter on a node.

  \<open>node_filter\<close> is the contract every user of a filter relies on (the eviction gate, both
  controllers and the event handlers): a filter that compiled never reports an error, it
  decides \<open>accepts\<close>. \<open>filter_accepts\<close> is that meaning for the program's filters, the
  conjunction of the criteria that are set.
\<close>


section \<open>Definitions\<close>

definition zoneLabel :: string where [go_simps]: "zoneLabel = ''topology.kubernetes.io/zone''"
definition instanceTypeLabel :: string where [go_simps]: "instanceTypeLabel = ''node.kubernetes.io/instance-type''"
definition capacityTypeLabel :: string where [go_simps]: "capacityTypeLabel = ''karpenter.sh/capacity-type''"

record specFilter =
  sf_spec :: NodeFilter
  sf_include :: "(strmap \<Rightarrow> bool) option"
  sf_exclude :: "(strmap \<Rightarrow> bool) option"

fun contains :: "string list \<Rightarrow> string \<Rightarrow> bool" where
  "contains [] v = False"
| "contains (x # xs) v = (if x = v then True else contains xs v)"

definition FromSpec :: "env \<Rightarrow> NodeFilter \<Rightarrow> goerror + specFilter" where
  "FromSpec E spec =
     sum_bind
       (case nf_labelSelector spec of
          None \<Rightarrow> Inr None
        | Some s \<Rightarrow>
            (case LabelSelectorAsSelector E (Some s) of
               Inl err \<Rightarrow> Inl (WrapError ''labelSelector: '' err [])
             | Inr sel \<Rightarrow> Inr (Some sel)))
       (\<lambda>include.
     sum_bind
       (case nf_excludeLabelSelector spec of
          None \<Rightarrow> Inr None
        | Some s \<Rightarrow>
            (case LabelSelectorAsSelector E (Some s) of
               Inl err \<Rightarrow> Inl (WrapError ''excludeLabelSelector: '' err [])
             | Inr sel \<Rightarrow> Inr (Some sel)))
       (\<lambda>exclude.
     sum_bind
       (if nf_namePattern spec \<noteq> [] then
          (case Match (nf_namePattern spec) [] of
             Inl err \<Rightarrow> Inl (WrapError ''namePattern: '' err [])
           | Inr _ \<Rightarrow> Inr ())
        else Inr ())
       (\<lambda>_. Inr \<lparr>sf_spec = spec, sf_include = include, sf_exclude = exclude\<rparr>)))"

fun taints_all :: "TaintMatch list \<Rightarrow> Taint list \<Rightarrow> bool" where
  "taints_all [] taints = True"
| "taints_all (want # wants) taints = (if \<not> MatchesAny want taints then False else taints_all wants taints)"

definition Matches :: "specFilter \<Rightarrow> Node option \<Rightarrow> goerror + bool" where
  "Matches s node0 =
     (case node0 of
        None \<Rightarrow> Inl (ErrorString ''node is nil'')
      | Some node \<Rightarrow>
          if (case sf_include s of None \<Rightarrow> False | Some inc \<Rightarrow> \<not> inc (node_labels node)) then Inr False
          else if (case sf_exclude s of None \<Rightarrow> False | Some exc \<Rightarrow> exc (node_labels node)) then Inr False
          else if length (nf_names (sf_spec s)) > 0 \<and> \<not> contains (nf_names (sf_spec s)) (node_name node) then Inr False
          else
            sum_bind
              (if nf_namePattern (sf_spec s) \<noteq> [] then
                 (case Match (nf_namePattern (sf_spec s)) (node_name node) of
                    Inl err \<Rightarrow> Inl (WrapError ''namePattern: '' err [])
                  | Inr matched \<Rightarrow> Inr matched)
               else Inr True)
              (\<lambda>matched.
                if \<not> matched then Inr False
                else if length (nf_zones (sf_spec s)) > 0 \<and>
                    \<not> contains (nf_zones (sf_spec s)) (mget (node_labels node) zoneLabel) then Inr False
                else if length (nf_instanceTypes (sf_spec s)) > 0 \<and>
                    \<not> contains (nf_instanceTypes (sf_spec s)) (mget (node_labels node) instanceTypeLabel) then Inr False
                else if length (nf_capacityTypes (sf_spec s)) > 0 \<and>
                    \<not> contains (nf_capacityTypes (sf_spec s)) (mget (node_labels node) capacityTypeLabel) then Inr False
                else if length (nf_taintSelector (sf_spec s)) > 0 \<and>
                    \<not> taints_all (nf_taintSelector (sf_spec s)) (node_taints node) then Inr False
                else Inr True))"


section \<open>Meaning\<close>

definition selector_holds :: "env \<Rightarrow> LabelSelector option \<Rightarrow> strmap \<Rightarrow> bool" where
  "selector_holds E s ls = (case LabelSelectorAsSelector E s of Inl _ \<Rightarrow> False | Inr f \<Rightarrow> f ls)"

definition filter_accepts :: "env \<Rightarrow> NodeFilter \<Rightarrow> Node \<Rightarrow> bool" where
  "filter_accepts E spec node \<longleftrightarrow>
     (nf_labelSelector spec \<noteq> None \<longrightarrow> selector_holds E (nf_labelSelector spec) (node_labels node)) \<and>
     (nf_excludeLabelSelector spec \<noteq> None \<longrightarrow> \<not> selector_holds E (nf_excludeLabelSelector spec) (node_labels node)) \<and>
     (nf_names spec \<noteq> [] \<longrightarrow> node_name node \<in> set (nf_names spec)) \<and>
     (nf_namePattern spec \<noteq> [] \<longrightarrow> Match (nf_namePattern spec) (node_name node) = Inr True) \<and>
     (nf_zones spec \<noteq> [] \<longrightarrow> mget (node_labels node) zoneLabel \<in> set (nf_zones spec)) \<and>
     (nf_instanceTypes spec \<noteq> [] \<longrightarrow> mget (node_labels node) instanceTypeLabel \<in> set (nf_instanceTypes spec)) \<and>
     (nf_capacityTypes spec \<noteq> [] \<longrightarrow> mget (node_labels node) capacityTypeLabel \<in> set (nf_capacityTypes spec)) \<and>
     (\<forall>want \<in> set (nf_taintSelector spec). MatchesAny want (node_taints node))"

definition selector_compiles :: "env \<Rightarrow> LabelSelector option \<Rightarrow> bool" where
  "selector_compiles E s \<longleftrightarrow> s = None \<or> \<not> isl (LabelSelectorAsSelector E s)"


section \<open>The filter contract\<close>

locale node_filter =
  fixes compile :: "'s \<Rightarrow> 'e + 'f"
    and matches :: "'f \<Rightarrow> 'n \<Rightarrow> 'e + bool"
    and accepts :: "'s \<Rightarrow> 'n \<Rightarrow> bool"
  assumes matches_accepts: "compile s = Inr f \<Longrightarrow> matches f n = Inr (accepts s n)"
begin

lemma matches_never_fails: "compile s = Inr f \<Longrightarrow> matches f n \<noteq> Inl e"
  by (simp add: matches_accepts)

lemma matches_iff: "compile s = Inr f \<Longrightarrow> matches f n = Inr b \<longleftrightarrow> b = accepts s n"
  by (auto simp: matches_accepts)

lemma compiled_twice: "compile s = Inr f \<Longrightarrow> compile s = Inr g \<Longrightarrow> matches f n = matches g n"
  by (simp add: matches_accepts)

end


section \<open>Lemmas\<close>

lemma contains_iff [simp]: "contains xs v \<longleftrightarrow> v \<in> set xs"
  by (induction xs) auto

lemma taints_all_iff [simp]: "taints_all ws ts \<longleftrightarrow> (\<forall>w \<in> set ws. MatchesAny w ts)"
  by (induction ws) auto

lemma FromSpec_Inr:
  assumes "FromSpec E spec = Inr f"
  shows "sf_spec f = spec"
    and "sf_include f = None \<longleftrightarrow> nf_labelSelector spec = None"
    and "sf_include f = Some inc \<Longrightarrow> LabelSelectorAsSelector E (nf_labelSelector spec) = Inr inc"
    and "sf_exclude f = None \<longleftrightarrow> nf_excludeLabelSelector spec = None"
    and "sf_exclude f = Some exc \<Longrightarrow> LabelSelectorAsSelector E (nf_excludeLabelSelector spec) = Inr exc"
    and "nf_namePattern spec \<noteq> [] \<Longrightarrow> \<not> bad_pattern (nf_namePattern spec)"
  using assms Match_isl [of "nf_namePattern spec" "[]"]
  by (auto simp: FromSpec_def sum_bind_eq_Inr_iff split: option.splits sum.splits if_splits)

lemma FromSpec_total:
  assumes "selector_compiles E (nf_labelSelector spec)"
    and "selector_compiles E (nf_excludeLabelSelector spec)"
    and "\<not> bad_pattern (nf_namePattern spec)"
  shows "\<exists>f. FromSpec E spec = Inr f"
  using assms Match_isl [of "nf_namePattern spec" "[]"]
  by (auto simp: FromSpec_def selector_compiles_def isl_def split: option.splits sum.splits)

lemma Match_total: "\<not> bad_pattern p \<Longrightarrow> Match p n = Inr (Match p n = Inr True)"
  using Match_isl [of p n] by (cases "Match p n") auto

lemma Matches_accepts:
  assumes "FromSpec E spec = Inr f"
  shows "Matches f (Some n) = Inr (filter_accepts E spec n)"
proof -
  note f = FromSpec_Inr [OF assms]
  have inc: "(case sf_include f of None \<Rightarrow> False | Some i \<Rightarrow> \<not> i (node_labels n)) \<longleftrightarrow>
      nf_labelSelector spec \<noteq> None \<and> \<not> selector_holds E (nf_labelSelector spec) (node_labels n)"
    using f(2,3) by (auto simp: selector_holds_def split: option.splits sum.splits)
  have exc: "(case sf_exclude f of None \<Rightarrow> False | Some x \<Rightarrow> x (node_labels n)) \<longleftrightarrow>
      nf_excludeLabelSelector spec \<noteq> None \<and> selector_holds E (nf_excludeLabelSelector spec) (node_labels n)"
    using f(4,5) by (auto simp: selector_holds_def split: option.splits sum.splits)
  have pat: "(if nf_namePattern spec \<noteq> [] then
        (case Match (nf_namePattern spec) (node_name n) of Inl err \<Rightarrow> Inl (WrapError ''namePattern: '' err []) | Inr b \<Rightarrow> Inr b)
      else Inr True) = Inr (nf_namePattern spec \<noteq> [] \<longrightarrow> Match (nf_namePattern spec) (node_name n) = Inr True)"
  proof (cases "nf_namePattern spec = []")
    case False
    then obtain b where "Match (nf_namePattern spec) (node_name n) = Inr b"
      using Match_total [OF f(6), of "node_name n"] by blast
    with False show ?thesis by simp
  qed simp
  show ?thesis
    unfolding Matches_def f(1) option.case inc exc pat
    by (simp add: filter_accepts_def)
qed

interpretation flt: node_filter "FromSpec E" "\<lambda>f n. Matches f (Some n)" "filter_accepts E" for E
  by unfold_locales (rule Matches_accepts)


section \<open>Example node\<close>

definition spot_node :: Node where
  "spot_node =
     \<lparr>node_name = ''ip-7'', node_labels = [(''karpenter.sh/capacity-type'', ''spot'')], node_annotations = [],
      node_taints = [], node_unschedulable = True\<rparr>"

end
