(* ===== verification/Sha256.thy ===== *)
theory Sha256
  imports Go_Strings "HOL-Library.Word"
begin

text \<open>
  Go's \<open>crypto/sha256\<close> (FIPS 180-4) and \<open>encoding/hex\<close>, as \<open>naming.WindowName\<close> uses them
  for the suffix of a long name: \<open>Sum256\<close> of a byte string and the hexadecimal text of
  its first bytes. Words are 32 bits wide and additions wrap around.
\<close>

unbundle bit_operations_syntax


section \<open>Definitions\<close>

type_synonym u32 = "32 word"

text \<open>
  The constants are the first 32 bits of the fractional parts of the cube roots of the
  first 64 primes and of the square roots of the first 8 primes; \<open>iroot\<close> finds an integer
  root bit by bit.
\<close>

definition iroot :: "nat \<Rightarrow> nat \<Rightarrow> nat" where
  "iroot k n = fold (\<lambda>b x. if (x + 2 ^ b) ^ k \<le> n then x + 2 ^ b else x) (rev [0..<40]) 0"

definition sha_K :: "u32 list" where
  "sha_K = map (\<lambda>p. word_of_nat (iroot 3 (p * 2 ^ 96)))
     (filter (\<lambda>n. list_all (\<lambda>d. n mod d \<noteq> 0) [2..<n]) [2..<312])"

definition sha_H0 :: "u32 list" where
  "sha_H0 = map (\<lambda>p. word_of_nat (iroot 2 (p * 2 ^ 64))) [2, 3, 5, 7, 11, 13, 17, 19]"

definition sha_pad :: "nat list \<Rightarrow> nat list" where
  "sha_pad msg =
     (let n = length msg; bits = 8 * n
      in msg @ [0x80] @ replicate ((119 - n mod 64) mod 64) 0 @
         map (\<lambda>i. (bits div 256 ^ (7 - i)) mod 256) [0..<8])"

fun sha_words :: "nat list \<Rightarrow> u32 list" where
  "sha_words (a # b # c # d # rest) = word_of_nat (((a * 256 + b) * 256 + c) * 256 + d) # sha_words rest"
| "sha_words _ = []"

text \<open>The message schedule, most recent word first.\<close>

definition sha_next :: "u32 list \<Rightarrow> u32" where
  "sha_next rw =
     (let s0 = word_rotr 7 (rw ! 14) XOR word_rotr 18 (rw ! 14) XOR drop_bit 3 (rw ! 14);
          s1 = word_rotr 17 (rw ! 1) XOR word_rotr 19 (rw ! 1) XOR drop_bit 10 (rw ! 1)
      in rw ! 15 + s0 + rw ! 6 + s1)"

definition sha_schedule :: "u32 list \<Rightarrow> u32 list" where
  "sha_schedule block = rev (((\<lambda>rw. sha_next rw # rw) ^^ 48) (rev block))"

definition sha_round :: "u32 \<times> u32 \<Rightarrow> u32 list \<Rightarrow> u32 list" where
  "sha_round kw st =
     (case st of
        [a, b, c, d, e, f, g, h] \<Rightarrow>
          (let S1 = word_rotr 6 e XOR word_rotr 11 e XOR word_rotr 25 e;
               ch = (e AND f) XOR (NOT e AND g);
               t1 = h + S1 + ch + fst kw + snd kw;
               S0 = word_rotr 2 a XOR word_rotr 13 a XOR word_rotr 22 a;
               maj = (a AND b) XOR (a AND c) XOR (b AND c);
               t2 = S0 + maj
           in [t1 + t2, a, b, c, d + t1, e, f, g])
      | _ \<Rightarrow> st)"

definition sha_block :: "u32 list \<Rightarrow> u32 list \<Rightarrow> u32 list" where
  "sha_block st block = map2 (+) st (fold sha_round (zip sha_K (sha_schedule block)) st)"

function sha_blocks :: "u32 list \<Rightarrow> u32 list \<Rightarrow> u32 list" where
  "sha_blocks st ws = (if ws = [] then st else sha_blocks (sha_block st (take 16 ws)) (drop 16 ws))"
  by pat_completeness auto
termination
  by (relation "measure (\<lambda>(st, ws). length ws)") auto

definition word_bytes :: "u32 \<Rightarrow> nat list" where
  "word_bytes w = map (\<lambda>i. (unat w div 256 ^ (3 - i)) mod 256) [0..<4]"

definition Sum256 :: "string \<Rightarrow> nat list" where
  "Sum256 s = concat (map word_bytes (sha_blocks sha_H0 (sha_words (sha_pad (map of_char s)))))"

definition hex_digit :: "nat \<Rightarrow> char" where
  "hex_digit n = (if n < 10 then char_of (48 + n) else char_of (87 + n))"

definition EncodeToString :: "nat list \<Rightarrow> string" where
  "EncodeToString bs = concat (map (\<lambda>b. [hex_digit (b div 16), hex_digit (b mod 16)]) bs)"

declare sha_blocks.simps [simp del]


section \<open>Lemmas\<close>

lemma length_sha_round [simp]: "length (sha_round kw st) = length st"
  by (auto simp: sha_round_def Let_def split: list.split)

lemma length_fold_sha_round [simp]: "length (fold sha_round kws st) = length st"
  by (induction kws arbitrary: st) auto

lemma length_sha_blocks [simp]: "length (sha_blocks st ws) = length st"
  by (induction st ws rule: sha_blocks.induct) (subst sha_blocks.simps, auto simp: sha_block_def)

lemma length_word_bytes [simp]: "length (word_bytes w) = 4"
  by (simp add: word_bytes_def)

lemma Sum256_byte: "b \<in> set (Sum256 s) \<Longrightarrow> b < 256"
  by (auto simp: Sum256_def word_bytes_def)

lemma length_Sum256 [simp]: "length (Sum256 s) = 32"
proof -
  have "length (concat (map word_bytes ws)) = 4 * length ws" for ws
    by (induction ws) auto
  then show ?thesis by (simp add: Sum256_def sha_H0_def)
qed

lemma length_EncodeToString [simp]: "length (EncodeToString bs) = 2 * length bs"
  by (induction bs) (auto simp: EncodeToString_def)

lemma hex_digit_chars: "n < 16 \<Longrightarrow> is_digit (hex_digit n) \<or> is_lower (hex_digit n)"
  by (auto simp: hex_digit_def is_digit_def is_lower_def less_eq_char_def)

lemma EncodeToString_chars:
  assumes "\<forall>b \<in> set bs. b < 256" and "c \<in> set (EncodeToString bs)"
  shows "is_digit c \<or> is_lower c"
proof -
  from assms(2) obtain b where "b \<in> set bs" and "c = hex_digit (b div 16) \<or> c = hex_digit (b mod 16)"
    by (auto simp: EncodeToString_def)
  moreover from this assms(1) have "b div 16 < 16" by auto
  ultimately show ?thesis using hex_digit_chars [of "b div 16"] hex_digit_chars [of "b mod 16"] by auto
qed

end
