(* ===== verification/Naming.thy ===== *)
theory Naming
  imports Sha256
begin

text \<open>
  \<open>pkg/naming\<close> (and its wrapper in \<open>internal/controller/names.go\<close>): the name of the
  window object of a policy and a workload. \<open>dns1123\<close> is the shape that Kubernetes asks of
  a label name.
\<close>


section \<open>Definitions\<close>

definition dns_char :: "char \<Rightarrow> bool" where
  "dns_char c = (is_lower c \<or> is_digit c \<or> c = CHR ''-'')"

text \<open>\<open>dnsLabel.ReplaceAllString(raw, "-")\<close>: every maximal run of other characters becomes one dash.\<close>

function replace_runs :: "string \<Rightarrow> string" where
  "replace_runs [] = []"
| "replace_runs (c # cs) =
     (if dns_char c then c # replace_runs cs
      else CHR ''-'' # replace_runs (dropWhile (\<lambda>d. \<not> dns_char d) cs))"
  by pat_completeness auto
termination
  by (relation "measure length") (auto simp: le_imp_less_Suc length_dropWhile_le)

definition WindowName :: "string \<Rightarrow> string \<Rightarrow> string \<Rightarrow> string" where
  "WindowName policy namespace name =
     (let raw0 = ToLower (policy @ ''-'' @ namespace @ ''-'' @ name);
          raw1 = replace_runs raw0;
          raw2 = TrimCh (CHR ''-'') raw1;
          raw = (if raw2 = [] then ''evg'' else raw2)
      in if length raw \<le> 63 then raw
         else (let sum = Sum256 (policy @ ''/'' @ namespace @ ''/'' @ name);
                   suffix = EncodeToString (take 8 sum);
                   keep = 63 - 1 - length suffix;
                   prefix = TrimCh (CHR ''-'') (take keep raw)
               in prefix @ ''-'' @ suffix))"

definition dns1123 :: "string \<Rightarrow> bool" where
  "dns1123 s \<longleftrightarrow> s \<noteq> [] \<and> length s \<le> 63 \<and> list_all dns_char s \<and>
     hd s \<noteq> CHR ''-'' \<and> last s \<noteq> CHR ''-''"


section \<open>Lemmas\<close>

lemma replace_runs_chars: "list_all dns_char (replace_runs s)"
  by (induction s rule: replace_runs.induct) (auto simp: dns_char_def)

lemma list_all_trim_by: "list_all Q s \<Longrightarrow> list_all Q (trim_by P s)"
  using set_trim_by [of P s] by (auto simp: list_all_iff)

lemma trim_dash_hd: "TrimCh (CHR ''-'') s \<noteq> [] \<Longrightarrow> hd (TrimCh (CHR ''-'') s) \<noteq> CHR ''-''"
  using trim_by_hd [of "\<lambda>x. x = CHR ''-''" s] by (simp add: TrimCh_def)

lemma trim_dash_last: "TrimCh (CHR ''-'') s \<noteq> [] \<Longrightarrow> last (TrimCh (CHR ''-'') s) \<noteq> CHR ''-''"
  using trim_by_last [of "\<lambda>x. x = CHR ''-''" s] by (simp add: TrimCh_def)

lemma trim_dash_keeps_hd:
  assumes "s \<noteq> []" and "hd s \<noteq> CHR ''-''"
  shows "TrimCh (CHR ''-'') s \<noteq> []" and "hd (TrimCh (CHR ''-'') s) = hd s"
proof -
  from assms obtain c cs where s: "s = c # cs" and c: "c \<noteq> CHR ''-''" by (cases s) auto
  have "dropWhile (\<lambda>x. x = CHR ''-'') (rev cs @ [c]) = dropWhile (\<lambda>x. x = CHR ''-'') (rev cs) @ [c]"
    using c by (induction "rev cs" rule: rev_induct) (auto simp: dropWhile_append)
  then have "TrimCh (CHR ''-'') s = c # rev (dropWhile (\<lambda>x. x = CHR ''-'') (rev cs))"
    using c by (simp add: TrimCh_def trim_by_def s)
  with s show "TrimCh (CHR ''-'') s \<noteq> []" and "hd (TrimCh (CHR ''-'') s) = hd s" by simp_all
qed

lemma hash_suffix:
  assumes "suffix = EncodeToString (take 8 (Sum256 s))"
  shows "length suffix = 16" and "list_all (\<lambda>c. is_digit c \<or> is_lower c) suffix"
proof -
  show "length suffix = 16" by (simp add: assms)
  have "\<forall>b \<in> set (take 8 (Sum256 s)). b < 256" using Sum256_byte by (metis in_set_takeD)
  then show "list_all (\<lambda>c. is_digit c \<or> is_lower c) suffix"
    unfolding assms list_all_iff using EncodeToString_chars by blast
qed

text \<open>Parts that are already labels are joined with dashes, when the result is short enough.\<close>

lemma ascii_lower_dns: "dns_char c \<Longrightarrow> ascii_lower c = c"
  by (auto simp: dns_char_def is_lower_def is_digit_def ascii_lower_def less_eq_char_def)

lemma replace_runs_id: "list_all dns_char s \<Longrightarrow> replace_runs s = s"
  by (induction s) auto

lemma WindowName_labels:
  assumes "dns1123 policy" and "list_all dns_char namespace" and "list_all dns_char name" and "name \<noteq> []"
    and "last name \<noteq> CHR ''-''" and "length (policy @ ''-'' @ namespace @ ''-'' @ name) \<le> 63"
  shows "WindowName policy namespace name = policy @ ''-'' @ namespace @ ''-'' @ name"
proof -
  let ?raw = "policy @ ''-'' @ namespace @ ''-'' @ name"
  have chars: "list_all dns_char ?raw" using assms by (simp add: dns1123_def dns_char_def)
  then have "ToLower ?raw = ?raw" unfolding ToLower_def by (intro map_idI) (auto simp: list_all_iff ascii_lower_dns)
  moreover have "TrimCh (CHR ''-'') ?raw = ?raw"
    unfolding TrimCh_def using assms by (intro trim_by_id) (auto simp: dns1123_def)
  moreover have "?raw \<noteq> []" by simp
  ultimately show ?thesis
    using replace_runs_id [OF chars] assms(6) by (simp only: WindowName_def Let_def if_True if_False)
qed


section \<open>Properties\<close>

text \<open>
  C39. Every window name is a DNS-1123 label: 1 to 63 characters from \<open>a-z\<close>, \<open>0-9\<close> and the
  dash, and no dash at either end, whatever the policy, namespace and workload are called.
\<close>

theorem WindowName_dns1123: "dns1123 (WindowName policy namespace name)"
proof -
  define raw where "raw = (let r = TrimCh (CHR ''-'') (replace_runs (ToLower (policy @ ''-'' @ namespace @ ''-'' @ name)))
     in if r = [] then ''evg'' else r)"
  have chars: "list_all dns_char raw"
    by (auto simp: raw_def Let_def TrimCh_def dns_char_def is_lower_def less_eq_char_def
        intro!: list_all_trim_by replace_runs_chars)
  have ends: "raw \<noteq> []" "hd raw \<noteq> CHR ''-''" "last raw \<noteq> CHR ''-''"
    by (auto simp: raw_def Let_def trim_dash_hd trim_dash_last)
  show ?thesis
  proof (cases "length raw \<le> 63")
    case True
    then have "WindowName policy namespace name = raw"
      by (simp add: WindowName_def Let_def raw_def)
    with True chars ends show ?thesis by (simp add: dns1123_def)
  next
    case False
    define suffix where "suffix = EncodeToString (take 8 (Sum256 (policy @ ''/'' @ namespace @ ''/'' @ name)))"
    define prefix where "prefix = TrimCh (CHR ''-'') (take 46 raw)"
    note suf = hash_suffix [OF suffix_def]
    have w: "WindowName policy namespace name = prefix @ ''-'' @ suffix"
      using False suf by (simp add: WindowName_def Let_def raw_def prefix_def suffix_def)
    have hd46: "take 46 raw \<noteq> []" "hd (take 46 raw) \<noteq> CHR ''-''" using ends by simp_all
    have pre: "prefix \<noteq> []" "hd prefix \<noteq> CHR ''-''"
      using trim_dash_keeps_hd [OF hd46] hd46 by (simp_all add: prefix_def)
    have "length prefix \<le> 46"
      unfolding prefix_def TrimCh_def using length_trim_by [of _ "take 46 raw"] by (metis length_take min.bounded_iff)
    moreover have "list_all dns_char prefix"
      unfolding prefix_def TrimCh_def using chars by (intro list_all_trim_by) (auto simp: list_all_iff dest: in_set_takeD)
    moreover have "suffix \<noteq> []" using suf(1) by auto
    moreover from this have "is_digit (last suffix) \<or> is_lower (last suffix)"
      using suf(2) by (simp add: list_all_iff)
    then have "last suffix \<noteq> CHR ''-''" by (auto simp: is_digit_def is_lower_def less_eq_char_def)
    ultimately show ?thesis
      using pre suf by (auto simp: w dns1123_def dns_char_def list_all_iff)
  qed
qed

text \<open>
  C40. A window name does not identify its policy and workload: the parts are joined with
  the dash that they may contain. For all labels \<open>a\<close>, \<open>n\<close> and \<open>x\<close> short enough that no hash
  is added, in the namespace \<open>n\<close> the policy \<open>a\<close> with the workload \<open>n-x\<close> and the policy \<open>a-n\<close>
  with the workload \<open>x\<close> get the same window object, \<open>a-n-n-x\<close>.
\<close>

theorem WindowName_collision:
  assumes "dns1123 a" and "dns1123 n" and "dns1123 x" and "length a + 2 * length n + length x + 3 \<le> 63"
  shows "WindowName a n (n @ ''-'' @ x) = a @ ''-'' @ n @ ''-'' @ n @ ''-'' @ x \<and>
     WindowName (a @ ''-'' @ n) n x = a @ ''-'' @ n @ ''-'' @ n @ ''-'' @ x"
proof
  have dash: "dns_char (CHR ''-'')" by (simp add: dns_char_def)
  show "WindowName a n (n @ ''-'' @ x) = a @ ''-'' @ n @ ''-'' @ n @ ''-'' @ x"
    using assms dash WindowName_labels [of a n "n @ ''-'' @ x"] by (simp add: dns1123_def)
  have "dns1123 (a @ ''-'' @ n)" using assms dash by (auto simp: dns1123_def)
  then show "WindowName (a @ ''-'' @ n) n x = a @ ''-'' @ n @ ''-'' @ n @ ''-'' @ x"
    using assms WindowName_labels [of "a @ ''-'' @ n" n x] by (simp add: dns1123_def)
qed

theorem WindowName_collision_witness:
  "WindowName ''web'' ''prod'' ''prod-api'' = ''web-prod-prod-api'' \<and>
   WindowName ''web-prod'' ''prod'' ''api'' = ''web-prod-prod-api''"
  using WindowName_collision [of "''web''" "''prod''" "''api''"]
  by (simp add: dns1123_def dns_char_def is_lower_def less_eq_char_def)

end
