(* ===== verification/Json_Patch.thy ===== *)
theory Json_Patch
  imports Cluster_Api
begin

text \<open>
  JSON merge patch (RFC 7386), the patch type of every capacity and annotation write of
  \<open>pkg/backends\<close>. The API server applies it; the definition transcribes the RFC's
  pseudo-code, and the lemmas say what a reader finds at a path of the patched document.
  Objects are association lists read with \<open>map_of\<close>.
\<close>


section \<open>Definitions\<close>

definition json_fields :: "json \<Rightarrow> (string \<times> json) list" where
  "json_fields j = (case j of JObject fs \<Rightarrow> fs | _ \<Rightarrow> [])"

function (sequential) merge_patch :: "json \<Rightarrow> json \<Rightarrow> json"
  and merge_fields :: "(string \<times> json) list \<Rightarrow> (string \<times> json) list \<Rightarrow> (string \<times> json) list" where
  "merge_patch target (JObject ps) = JObject (merge_fields (json_fields target) ps)"
| "merge_patch target patch = patch"
| "merge_fields fs [] = fs"
| "merge_fields fs ((k, v) # ps) =
     merge_fields
       (if v = JNull then AList.delete k fs
        else AList.update k (merge_patch (case map_of fs k of None \<Rightarrow> JNull | Some x \<Rightarrow> x) v) fs) ps"
  by pat_completeness auto

termination
  by (relation "measure (\<lambda>x. case x of Inl (t, p) \<Rightarrow> 2 * size p | Inr (fs, ps) \<Rightarrow> 2 * size_list (size_prod (\<lambda>_. 0) size) ps + 1)")
    auto



section \<open>Lemmas\<close>

text \<open>One field of a patch decides one field of the result.\<close>

lemma merge_fields_other:
  "k \<notin> fst ` set ps \<Longrightarrow> map_of (merge_fields fs ps) k = map_of fs k"
  by (induction fs ps rule: merge_patch_merge_fields.induct(2) [where P = "\<lambda>_ _. True"])
    (auto simp: update_conv delete_conv)

lemma merge_fields_deleted:
  assumes "distinct (map fst ps)" and "map_of ps k = Some JNull"
  shows "map_of (merge_fields fs ps) k = None"
  using assms
proof (induction ps arbitrary: fs)
  case (Cons p ps)
  obtain k' v where p: "p = (k', v)" by fastforce
  show ?case
  proof (cases "k' = k")
    case True
    with Cons.prems p have "v = JNull" and "k \<notin> fst ` set ps" by auto
    with True p show ?thesis by (simp add: merge_fields_other delete_conv)
  next
    case False
    with Cons p show ?thesis by simp
  qed
qed simp

lemma merge_fields_set:
  assumes "distinct (map fst ps)" and "map_of ps k = Some v" and "v \<noteq> JNull"
  shows "map_of (merge_fields fs ps) k =
     Some (merge_patch (case map_of fs k of None \<Rightarrow> JNull | Some x \<Rightarrow> x) v)"
  using assms
proof (induction ps arbitrary: fs)
  case (Cons p ps)
  obtain k' v' where p: "p = (k', v')" by fastforce
  show ?case
  proof (cases "k' = k")
    case True
    with Cons.prems p have "v' = v" and "k \<notin> fst ` set ps" by auto
    with True p Cons.prems show ?thesis by (simp add: merge_fields_other update_conv)
  next
    case False
    let ?fs = "if v' = JNull then AList.delete k' fs
       else AList.update k' (merge_patch (case map_of fs k' of None \<Rightarrow> JNull | Some x \<Rightarrow> x) v') fs"
    have "map_of ?fs k = map_of fs k" using False by (simp add: update_conv delete_conv)
    moreover have "map_of (merge_fields ?fs ps) k =
        Some (merge_patch (case map_of ?fs k of None \<Rightarrow> JNull | Some x \<Rightarrow> x) v)"
      using Cons False p by (intro Cons.IH) auto
    ultimately show ?thesis using p by simp
  qed
qed simp

lemma map_of_json_fields_at: "json_at j (k # ks) = Option.bind (map_of (json_fields j) k) (\<lambda>v. json_at v ks)"
  by (cases j) (auto simp: json_fields_def split: option.splits)

lemma json_at_append: "json_at j (ks @ ls) = Option.bind (json_at j ks) (\<lambda>v. json_at v ls)"
  by (induction ks arbitrary: j) (auto simp: map_of_json_fields_at split: option.splits bind_splits)

lemma json_fields_simps [simp]:
  "json_fields (JObject fs) = fs" "json_fields JNull = []" "json_fields (JBool b) = []" "json_fields (JInt i) = []"
  "json_fields (JString s) = []" "json_fields (JArray js) = []"
  by (simp_all add: json_fields_def)

text \<open>Objects without repeated field names, at every depth: what a Go map marshals to.\<close>

fun json_wf :: "json \<Rightarrow> bool" where
  "json_wf (JObject fs) \<longleftrightarrow> distinct (map fst fs) \<and> list_all (\<lambda>(k, v). json_wf v) fs"
| "json_wf (JArray js) \<longleftrightarrow> list_all json_wf js"
| "json_wf _ \<longleftrightarrow> True"

text \<open>A leaf of the patch that is not an object is read back as written.\<close>

lemma merge_patch_at_leaf:
  assumes "json_wf patch" and "json_at patch ks = Some v" and "ks \<noteq> []"
    and "v \<noteq> JNull" and "\<forall>fs. v \<noteq> JObject fs"
  shows "json_at (merge_patch j patch) ks = Some v"
  using assms
proof (induction ks arbitrary: j patch)
  case (Cons k ks)
  then obtain ps x where p: "patch = JObject ps" and x: "map_of ps k = Some x" and at: "json_at x ks = Some v"
    by (cases patch) (auto split: option.splits)
  have wf: "distinct (map fst ps)" "json_wf x"
    using Cons.prems(1) x map_of_SomeD [OF x] by (auto simp: p list_all_iff)
  have nn: "x \<noteq> JNull" using at Cons.prems(4) by (cases ks) auto
  have "json_at (merge_patch y x) ks = Some v" for y
  proof (cases ks)
    case Nil
    with at have "x = v" by simp
    with Cons.prems(5) Nil show ?thesis by (cases v) auto
  next
    case (Cons k' ks')
    with Cons.IH [OF wf(2) at] Cons.prems(4,5) show ?thesis by simp
  qed
  then show ?case by (simp add: p merge_fields_set [OF wf(1) x nn])
qed simp

text \<open>
  A path that the patch does not reach is unchanged: walking down the patch along the
  path leaves its objects before the path ends.
\<close>

fun patch_misses :: "json \<Rightarrow> string list \<Rightarrow> bool" where
  "patch_misses (JObject ps) (k # ks) = (case map_of ps k of None \<Rightarrow> True | Some v \<Rightarrow> patch_misses v ks)"
| "patch_misses _ _ = False"

lemma merge_patch_frame:
  assumes "json_wf patch" and "patch_misses patch ks"
  shows "json_at (merge_patch j patch) ks = json_at j ks"
  using assms
proof (induction ks arbitrary: j patch)
  case Nil
  then show ?case by (cases patch) auto
next
  case (Cons k ks)
  then obtain ps where p: "patch = JObject ps" by (cases patch) auto
  show ?case
  proof (cases "map_of ps k")
    case None
    then have "k \<notin> fst ` set ps" by (simp add: map_of_eq_None_iff)
    then show ?thesis by (simp add: p map_of_json_fields_at merge_fields_other)
  next
    case (Some x)
    have wf: "distinct (map fst ps)" "json_wf x"
      using Cons.prems(1) Some map_of_SomeD [OF Some] by (auto simp: p list_all_iff)
    have miss: "patch_misses x ks" using Cons.prems(2) Some p by simp
    then have nn: "x \<noteq> JNull" by (cases ks) auto
    obtain k' ks' where ks: "ks = k' # ks'" using miss by (cases ks; cases x) auto
    show ?thesis
      using Cons.IH [OF wf(2) miss]
      by (auto simp: p map_of_json_fields_at merge_fields_set [OF wf(1) Some nn] ks
          split: option.splits)
  qed
qed

end
