(* ===== verification/Indexes.thy ===== *)
theory Indexes
  imports Cluster_Api
begin

text \<open>
  \<open>internal/controller/indexes.go\<close> and \<open>names.go\<close>: the index functions that the
  controllers register with the shared cache, and the sorted key list of a set. A cached
  list by field value returns the objects whose index function contains that value.
\<close>


section \<open>Definitions\<close>

definition workloadIndexKey :: "string \<Rightarrow> string \<Rightarrow> string" where
  "workloadIndexKey ns name = ns @ ''/'' @ name"

definition IndexPodNodeName :: "Pod \<Rightarrow> string list" where
  "IndexPodNodeName pod = (if pod_nodeName pod = [] then [] else [pod_nodeName pod])"

definition IndexWindowPolicyName :: "EvictionGuardWindow \<Rightarrow> string list" where
  "IndexWindowPolicyName w = (if ws_policyName (win_spec w) = [] then [] else [ws_policyName (win_spec w)])"

definition IndexWindowWorkload :: "EvictionGuardWindow \<Rightarrow> string list" where
  "IndexWindowWorkload w =
     (let ns = (if wr_namespace (ws_target (win_spec w)) = [] then win_namespace w
                else wr_namespace (ws_target (win_spec w)));
          name = wr_name (ws_target (win_spec w))
      in if name = [] then [] else [workloadIndexKey ns name])"

fun dedup_loop :: "string list \<Rightarrow> string list \<Rightarrow> string list \<Rightarrow> string list" where
  "dedup_loop seen out [] = out"
| "dedup_loop seen out (n # nodes) =
     (if n = [] then dedup_loop seen out nodes
      else if n \<in> set seen then dedup_loop seen out nodes
      else dedup_loop (n # seen) (out @ [n]) nodes)"

definition IndexWindowVulnerableNode :: "EvictionGuardWindow \<Rightarrow> string list" where
  "IndexWindowVulnerableNode w =
     (if ws_vulnerableNodes (win_spec w) = [] then [] else dedup_loop [] [] (ws_vulnerableNodes (win_spec w)))"

text \<open>\<open>sortedKeys\<close>: a Go set is a list of its keys in some iteration order, without repetition.\<close>

definition sortedKeys :: "string list \<Rightarrow> string list" where
  "sortedKeys m = sort m"


section \<open>Lemmas\<close>

lemma dedup_loop_set:
  "set seen = set out \<Longrightarrow> set (dedup_loop seen out ns) = set out \<union> (set ns - {[]})"
  by (induction seen out ns rule: dedup_loop.induct) auto

lemma dedup_loop_distinct:
  "set seen = set out \<Longrightarrow> distinct out \<Longrightarrow> distinct (dedup_loop seen out ns)"
  by (induction seen out ns rule: dedup_loop.induct) auto

lemma IndexWindowVulnerableNode_mem:
  "n \<noteq> [] \<Longrightarrow> n \<in> set (IndexWindowVulnerableNode w) \<longleftrightarrow> n \<in> set (ws_vulnerableNodes (win_spec w))"
  by (simp add: IndexWindowVulnerableNode_def dedup_loop_set)

lemma IndexWindowVulnerableNode_distinct: "distinct (IndexWindowVulnerableNode w)"
  by (simp add: IndexWindowVulnerableNode_def dedup_loop_distinct)

lemma set_sortedKeys [simp]: "set (sortedKeys m) = set m"
  by (simp add: sortedKeys_def)

lemma sorted_sortedKeys [simp]: "sorted (sortedKeys m)"
  by (simp add: sortedKeys_def)

end
