(* ===== verification/Mem_Cluster.thy ===== *)
theory Mem_Cluster
  imports Json_Patch Indexes
begin

text \<open>
  A concrete cluster: the lists of the stored objects and a clock, with a client that
  reads and writes them the way the API server documents (not-found and already-exists
  errors, status as a subresource, deletion waiting for finalizers, JSON merge patch on
  unstructured objects, field-index lists through the index functions of \<open>indexes.go\<close>).
  The program is verified against every client; this one shows that the hypotheses of
  the theorems can hold, and evaluates the model on concrete inputs.
\<close>


section \<open>Definitions\<close>

record memory =
  mc_pods :: "Pod list"
  mc_nodes :: "Node list"
  mc_namespaces :: "(string \<times> strmap) list"
  mc_replicaSets :: "((string \<times> string) \<times> ReplicaSet) list"
  mc_deployments :: "Deployment list"
  mc_policies :: "EvictionGuardPolicy list"
  mc_windows :: "EvictionGuardWindow list"
  mc_objects :: "((gvk \<times> string \<times> string) \<times> json) list"
  mc_now :: time

definition not_found :: goerror where
  "not_found = StatusError ReasonNotFound ''not found'' None"

definition or_not_found :: "'a option \<Rightarrow> goerror + 'a" where
  [go_simps]: "or_not_found x = (case x of None \<Rightarrow> Inl not_found | Some a \<Rightarrow> Inr a)"

definition window_is :: "EvictionGuardWindow \<Rightarrow> EvictionGuardWindow \<Rightarrow> bool" where
  [go_simps]: "window_is v w \<longleftrightarrow> win_namespace v = win_namespace w \<and> win_name v = win_name w"

definition empty_status :: EvictionGuardWindowStatus where
  "empty_status =
     \<lparr>wst_phase = WindowPhaseUnset, wst_lastScaleTime = None, wst_spareReady = False, wst_readyReplicas = 0,
      wst_safeReadyReplicas = 0, wst_message = [], wst_forcedCool = False, wst_conditions = []\<rparr>"

text \<open>Store \<open>f\<close> of the stored window in its place; not found when there is none.\<close>

definition put_window ::
  "EvictionGuardWindow \<Rightarrow> (EvictionGuardWindow \<Rightarrow> EvictionGuardWindow) \<Rightarrow> memory \<Rightarrow>
   (goerror + EvictionGuardWindow) \<times> memory" where
  [go_simps]: "put_window win f m =
     (case find (window_is win) (mc_windows m) of
        None \<Rightarrow> (Inl not_found, m)
      | Some old \<Rightarrow>
          (Inr (f old), m\<lparr>mc_windows := map (\<lambda>x. if window_is win x then f old else x) (mc_windows m)\<rparr>))"

text \<open>
  The merge patch between two copies of a window, applied to the stored one: what differs
  between the copies is written, the rest is kept.
\<close>

definition differing :: "'a \<Rightarrow> 'a \<Rightarrow> 'a \<Rightarrow> 'a" where
  [go_simps]: "differing base new old = (if new = base then old else new)"

definition merge_window_spec ::
  "EvictionGuardWindowSpec \<Rightarrow> EvictionGuardWindowSpec \<Rightarrow> EvictionGuardWindowSpec \<Rightarrow> EvictionGuardWindowSpec" where
  "merge_window_spec base new old =
     \<lparr>ws_policyName = differing (ws_policyName base) (ws_policyName new) (ws_policyName old),
      ws_target = differing (ws_target base) (ws_target new) (ws_target old),
      ws_actions = differing (ws_actions base) (ws_actions new) (ws_actions old),
      ws_baseline = differing (ws_baseline base) (ws_baseline new) (ws_baseline old),
      ws_scaledTo = differing (ws_scaledTo base) (ws_scaledTo new) (ws_scaledTo old),
      ws_vulnerableNodes = differing (ws_vulnerableNodes base) (ws_vulnerableNodes new) (ws_vulnerableNodes old),
      ws_windowUntil = differing (ws_windowUntil base) (ws_windowUntil new) (ws_windowUntil old)\<rparr>"

definition merge_window :: "EvictionGuardWindow \<Rightarrow> EvictionGuardWindow \<Rightarrow> EvictionGuardWindow \<Rightarrow> EvictionGuardWindow" where
  "merge_window base new old =
     old\<lparr>win_labels := differing (win_labels base) (win_labels new) (win_labels old),
       win_finalizers := differing (win_finalizers base) (win_finalizers new) (win_finalizers old),
       win_controller := differing (win_controller base) (win_controller new) (win_controller old),
       win_spec := merge_window_spec (win_spec base) (win_spec new) (win_spec old)\<rparr>"

text \<open>An object that is being deleted goes with its last finalizer.\<close>

definition finalize_window :: "EvictionGuardWindow \<Rightarrow> EvictionGuardWindow \<Rightarrow> memory \<Rightarrow> memory" where
  [go_simps]: "finalize_window base win m =
     (if win_deletionTimestamp win \<noteq> None \<and> win_finalizers base \<noteq> [] \<and> win_finalizers win = []
      then m\<lparr>mc_windows := filter (\<lambda>x. \<not> window_is win x) (mc_windows m)\<rparr> else m)"

definition finalize_policy :: "EvictionGuardPolicy \<Rightarrow> EvictionGuardPolicy \<Rightarrow> memory \<Rightarrow> memory" where
  [go_simps]: "finalize_policy base p m =
     (if pol_deletionTimestamp p \<noteq> None \<and> pol_finalizers base \<noteq> [] \<and> pol_finalizers p = []
      then m\<lparr>mc_policies := filter (\<lambda>x. pol_name x \<noteq> pol_name p) (mc_policies m)\<rparr> else m)"

text \<open>The windows that are found under their own name.\<close>

definition visible_windows :: "memory \<Rightarrow> EvictionGuardWindow list" where
  [go_simps]: "visible_windows m = filter (\<lambda>w. find (window_is w) (mc_windows m) = Some w) (mc_windows m)"

definition put_policy ::
  "EvictionGuardPolicy \<Rightarrow> (EvictionGuardPolicy \<Rightarrow> EvictionGuardPolicy) \<Rightarrow> memory \<Rightarrow>
   (goerror + EvictionGuardPolicy) \<times> memory" where
  [go_simps]: "put_policy p f m =
     (case find (\<lambda>x. pol_name x = pol_name p) (mc_policies m) of
        None \<Rightarrow> (Inl not_found, m)
      | Some old \<Rightarrow>
          (Inr (f old), m\<lparr>mc_policies := map (\<lambda>x. if pol_name x = pol_name p then f old else x) (mc_policies m)\<rparr>))"

definition mem_client :: "memory client" where
  [go_simps]: "mem_client =
     \<lparr>Get_Pod = (\<lambda>m ns n. or_not_found (find (\<lambda>p. pod_namespace p = ns \<and> pod_name p = n) (mc_pods m))),
      Get_Node = (\<lambda>m n. or_not_found (find (\<lambda>x. node_name x = n) (mc_nodes m))),
      Get_Namespace = (\<lambda>m n. or_not_found (map_of (mc_namespaces m) n)),
      Get_ReplicaSet = (\<lambda>m ns n. or_not_found (map_of (mc_replicaSets m) (ns, n))),
      Get_Deployment = (\<lambda>m ns n. or_not_found (find (\<lambda>d. dep_namespace d = ns \<and> dep_name d = n) (mc_deployments m))),
      Get_Policy = (\<lambda>m n. or_not_found (find (\<lambda>p. pol_name p = n) (mc_policies m))),
      Get_Window = (\<lambda>m ns n. or_not_found (find (\<lambda>w. win_namespace w = ns \<and> win_name w = n) (mc_windows m))),
      Get_Unstructured = (\<lambda>m g ns n. or_not_found (map_of (mc_objects m) (g, ns, n))),
      List_Nodes = (\<lambda>m. Inr (mc_nodes m)),
      List_Policies = (\<lambda>m. Inr (mc_policies m)),
      List_PodsByNode = (\<lambda>m n. Inr (filter (\<lambda>p. n \<in> set (IndexPodNodeName p)) (mc_pods m))),
      List_PodsMatching = (\<lambda>m ns sel. Inr (filter (\<lambda>p. pod_namespace p = ns \<and> sel (pod_labels p)) (mc_pods m))),
      List_WindowsByPolicy = (\<lambda>m n. Inr (filter (\<lambda>w. n \<in> set (IndexWindowPolicyName w)) (visible_windows m))),
      List_WindowsByWorkload = (\<lambda>m k. Inr (filter (\<lambda>w. k \<in> set (IndexWindowWorkload w)) (mc_windows m))),
      List_WindowsByNode = (\<lambda>m n. Inr (filter (\<lambda>w. n \<in> set (IndexWindowVulnerableNode w)) (mc_windows m))),
      Create_Window = (\<lambda>win m.
         if list_ex (window_is win) (mc_windows m) then (Inl (StatusError ReasonAlreadyExists ''already exists'' None), m)
         else let stored = win\<lparr>win_creationTimestamp := mc_now m, win_generation := 1, win_status := empty_status\<rparr>
              in (Inr stored, m\<lparr>mc_windows := mc_windows m @ [stored]\<rparr>)),
      Patch_Window = (\<lambda>base win m. map_prod id (finalize_window base win) (put_window win (merge_window base win) m)),
      Update_WindowStatus = (\<lambda>win m.
         if known_phase (wst_phase (win_status win)) then put_window win (\<lambda>old. old\<lparr>win_status := win_status win\<rparr>) m
         else (Inl (StatusError ReasonInvalid ''unsupported phase'' None), m)),
      Delete_Window = (\<lambda>win m.
         case find (window_is win) (mc_windows m) of
           None \<Rightarrow> (Inl not_found, m)
         | Some old \<Rightarrow>
             (Inr (), m\<lparr>mc_windows :=
                if win_finalizers old = [] then filter (\<lambda>x. \<not> window_is win x) (mc_windows m)
                else map (\<lambda>x. if window_is win x then x\<lparr>win_deletionTimestamp := Some (max 1 (mc_now m))\<rparr> else x) (mc_windows m)\<rparr>)),
      Patch_Policy = (\<lambda>base p m. map_prod id (finalize_policy base p) (put_policy p (\<lambda>old. p\<lparr>pol_status := pol_status old\<rparr>) m)),
      Update_PolicyStatus = (\<lambda>p. put_policy p (\<lambda>old. old\<lparr>pol_status := pol_status p\<rparr>)),
      Patch_Unstructured = (\<lambda>g ns n patch m.
         case map_of (mc_objects m) (g, ns, n) of
           None \<Rightarrow> (Inl not_found, m)
         | Some obj \<Rightarrow> (Inr (), m\<lparr>mc_objects := AList.update (g, ns, n) (merge_patch obj patch) (mc_objects m)\<rparr>)),
      Now = mc_now,
      HasRecorder = True\<rparr>"


section \<open>Lemmas\<close>

lemma IsNotFound_not_found [simp]: "IsNotFound not_found"
  by (simp add: IsNotFound_def not_found_def)

lemma merge_window_held [simp]:
  "merge_window base (base\<lparr>win_labels := l, win_spec := sp\<rparr>) base = base\<lparr>win_labels := l, win_spec := sp\<rparr>"
  "merge_window base (base\<lparr>win_spec := sp\<rparr>) base = base\<lparr>win_spec := sp\<rparr>"
  "merge_window base (base\<lparr>win_finalizers := f\<rparr>) base = base\<lparr>win_finalizers := f\<rparr>"
  by (simp_all add: merge_window_def merge_window_spec_def differing_def)

lemma merge_window_fields [simp]:
  "win_namespace (merge_window base new old) = win_namespace old" "win_name (merge_window base new old) = win_name old"
  "win_status (merge_window base new old) = win_status old"
  by (simp_all add: merge_window_def)

lemma or_not_found_simps [simp]: "or_not_found None = Inl not_found" "or_not_found (Some a) = Inr a"
  by (simp_all add: or_not_found_def)

end
