(* ===== verification/Evict_Gate.thy ===== *)
theory Evict_Gate
  imports Workload_Owner Policy_Own Filters Naming Mem_Cluster
begin

text \<open>
  \<open>pkg/evictgate\<close>: the decision of the eviction webhook. \<open>Evaluate\<close> only reads the
  cluster, so it is a function of the cluster state \<open>w\<close>; each lookup that fails ends it
  with that error. \<open>gate_applies\<close> collects the conditions under which the gate has a say
  about a pod (opted in, scheduled on an existing node that the owning policy considers
  vulnerable); \<open>at_risk\<close> are the pods the gate would still have to let go. The lemmas
  give the exact outcome of \<open>Evaluate\<close> under these conditions.
\<close>


section \<open>Definitions\<close>

datatype Decision = Allow | Deny

record Result =
  res_decision :: Decision
  res_reason :: string

definition result :: "Decision \<Rightarrow> string \<Rightarrow> goerror + Result" where
  [go_simps]: "result d why = Inr \<lparr>res_decision = d, res_reason = why\<rparr>"

definition optedIn :: "Pod \<Rightarrow> bool" where
  "optedIn pod \<longleftrightarrow> pod_labels pod \<noteq> [] \<and> mget (pod_labels pod) ProtectedLabel = ''true''"

definition templateOptedIn :: "Deployment \<Rightarrow> bool" where
  "templateOptedIn dep \<longleftrightarrow> dep_templateLabels dep \<noteq> [] \<and> mget (dep_templateLabels dep) ProtectedLabel = ''true''"

definition listPolicies :: "'w client \<Rightarrow> 'w \<Rightarrow> goerror + EvictionGuardPolicy option list" where
  "listPolicies c w = sum_bind (List_Policies c w) (\<lambda>items. Inr (map Some items))"

definition activeWindowFor ::
  "'w client \<Rightarrow> 'w \<Rightarrow> Deployment \<Rightarrow> EvictionGuardPolicy option \<Rightarrow> goerror + EvictionGuardWindow option" where
  "activeWindowFor c w dep policy =
     (case policy of
        None \<Rightarrow> Inr None
      | Some p \<Rightarrow>
          (case Get_Window c w (dep_namespace dep) (WindowName (pol_name p) (dep_namespace dep) (dep_name dep)) of
             Inl e \<Rightarrow> if IsNotFound e then Inr None else Inl e
           | Inr win \<Rightarrow>
               if IsActive win \<or> wst_forcedCool (win_status win) then Inr (Some win) else Inr None))"

fun nextAtRiskPod_loop :: "string list \<Rightarrow> Pod list \<Rightarrow> string \<Rightarrow> string" where
  "nextAtRiskPod_loop vuln [] next = next"
| "nextAtRiskPod_loop vuln (p # items) next =
     (if pod_deletionTimestamp p \<noteq> None then nextAtRiskPod_loop vuln items next
      else if mget (pod_labels p) ProtectedLabel \<noteq> ''true'' then nextAtRiskPod_loop vuln items next
      else if pod_nodeName p \<notin> set vuln then nextAtRiskPod_loop vuln items next
      else if next = [] \<or> pod_name p < next then nextAtRiskPod_loop vuln items (pod_name p)
      else nextAtRiskPod_loop vuln items next)"

definition nextAtRiskPod :: "env \<Rightarrow> 'w client \<Rightarrow> 'w \<Rightarrow> Deployment \<Rightarrow> string list \<Rightarrow> goerror + string" where
  "nextAtRiskPod E c w dep vulnNodes =
     sum_bind (LabelSelectorAsSelector E (dep_selector dep)) (\<lambda>sel.
     sum_bind (List_PodsMatching c w (dep_namespace dep) sel) (\<lambda>items.
       Inr (nextAtRiskPod_loop vulnNodes items [])))"

definition Evaluate :: "env \<Rightarrow> 'w client \<Rightarrow> 'w \<Rightarrow> Pod option \<Rightarrow> goerror + Result" where
  "Evaluate E c w pod0 =
     (case pod0 of None \<Rightarrow> result Allow []
      | Some pod \<Rightarrow>
        if \<not> optedIn pod then result Allow ''not opted in''
        else if pod_nodeName pod = [] then result Allow ''unscheduled''
        else sum_bind (OwnerDeployment c w (Some pod)) (\<lambda>dep0.
          case dep0 of None \<Rightarrow> result Allow ''workload not opted in''
          | Some dep \<Rightarrow>
            if \<not> templateOptedIn dep then result Allow ''workload not opted in''
            else case Get_Node c w (pod_nodeName pod) of
              Inl e \<Rightarrow> if IsNotFound e then result Allow ''node gone'' else Inl e
            | Inr node \<Rightarrow>
                sum_bind (listPolicies c w) (\<lambda>policies.
                sum_bind (NamespaceLabels c w (pod_namespace pod)) (\<lambda>nsLabels.
                case ResolveOwner E (Some dep) nsLabels policies of
                  None \<Rightarrow> result Allow ''no matching policy''
                | Some owner \<Rightarrow>
                    sum_bind (FromSpec E (spec_nodeFilter (pol_spec owner))) (\<lambda>filter.
                    sum_bind (Matches filter (Some node)) (\<lambda>nodeOK.
                    if \<not> (nodeOK \<and> Vulnerable (registry E) node (Some owner)) then result Allow ''no disruption''
                    else sum_bind (activeWindowFor c w dep (Some owner)) (\<lambda>win0.
                      case win0 of
                        None \<Rightarrow> result Deny ''waiting for eviction-guard window and spare capacity''
                      | Some win \<Rightarrow>
                          if wst_forcedCool (win_status win) then result Allow ''maxWindow force-cool''
                          else if wst_phase (win_status win) = WindowPhaseClosed then result Allow ''window closed''
                          else if \<not> wst_spareReady (win_status win)
                          then result Deny ''waiting for eviction-guard spare capacity''
                          else let vulnNodes = (if ws_vulnerableNodes (win_spec win) = [] then [pod_nodeName pod]
                                                else ws_vulnerableNodes (win_spec win))
                            in sum_bind (nextAtRiskPod E c w dep vulnNodes) (\<lambda>next.
                              if next = [] then result Allow ''no at-risk pods''
                              else if pod_name pod \<noteq> next
                              then result Deny (''waiting for eviction of '' @ next @ '' first'')
                              else result Allow ''spare ready; next at-risk pod''))))))))"


section \<open>Specification\<close>

text \<open>The pods that the gate counts as at risk on the nodes \<open>vuln\<close>.\<close>

definition at_risk :: "string list \<Rightarrow> Pod \<Rightarrow> bool" where
  "at_risk vuln p \<longleftrightarrow> pod_deletionTimestamp p = None \<and> mget (pod_labels p) ProtectedLabel = ''true''
     \<and> pod_nodeName p \<in> set vuln"

text \<open>The deployment \<open>dep\<close> of \<open>pod\<close> is managed by \<open>owner\<close> and its node is being disrupted.\<close>

definition gate_applies ::
  "env \<Rightarrow> 'w client \<Rightarrow> 'w \<Rightarrow> Pod \<Rightarrow> Deployment \<Rightarrow> EvictionGuardPolicy \<Rightarrow> bool" where
  "gate_applies E c w pod dep owner \<longleftrightarrow>
     optedIn pod \<and> pod_nodeName pod \<noteq> [] \<and>
     OwnerDeployment c w (Some pod) = Inr (Some dep) \<and> templateOptedIn dep \<and>
     (\<exists>node ps ns f. Get_Node c w (pod_nodeName pod) = Inr node \<and> List_Policies c w = Inr ps \<and>
        NamespaceLabels c w (pod_namespace pod) = Inr ns \<and>
        ResolveOwner E (Some dep) ns (map Some ps) = Some owner \<and>
        FromSpec E (spec_nodeFilter (pol_spec owner)) = Inr f \<and>
        filter_accepts E (spec_nodeFilter (pol_spec owner)) node \<and>
        Vulnerable (registry E) node (Some owner))"

definition recorded_nodes :: "Pod \<Rightarrow> EvictionGuardWindow \<Rightarrow> string list" where
  "recorded_nodes pod win =
     (if ws_vulnerableNodes (win_spec win) = [] then [pod_nodeName pod] else ws_vulnerableNodes (win_spec win))"


section \<open>Lemmas\<close>

lemma nextAtRiskPod_loop_filter:
  "nextAtRiskPod_loop vuln items next = nextAtRiskPod_loop vuln (filter (at_risk vuln) items) next"
  by (induction items arbitrary: "next") (auto simp: at_risk_def)

lemma nextAtRiskPod_loop_acc:
  assumes "next \<noteq> []" and "list_all (\<lambda>p. at_risk vuln p \<and> pod_name p \<noteq> []) items"
  shows "nextAtRiskPod_loop vuln items next = Min (insert next (pod_name ` set items))"
  using assms
proof (induction items arbitrary: "next")
  case (Cons p items)
  have "Min (insert next (pod_name ` set (p # items))) = Min (insert (min (pod_name p) next) (pod_name ` set items))"
    by (cases "items = []") (simp_all add: min.left_commute min.commute min.assoc)
  with Cons show ?case by (auto simp: at_risk_def min_def)
qed simp

text \<open>With named pods, the loop returns the least name at risk, and the empty string when there is none.\<close>

lemma nextAtRiskPod_loop_Min:
  assumes "list_all (\<lambda>p. pod_name p \<noteq> []) items"
  shows "nextAtRiskPod_loop vuln items [] =
     (if list_ex (at_risk vuln) items then Min (pod_name ` {p \<in> set items. at_risk vuln p}) else [])"
proof -
  let ?ps = "filter (at_risk vuln) items"
  have all: "list_all (\<lambda>p. at_risk vuln p \<and> pod_name p \<noteq> []) ?ps"
    using assms by (auto simp: list_all_iff)
  have eq: "nextAtRiskPod_loop vuln items [] = nextAtRiskPod_loop vuln ?ps []"
    by (rule nextAtRiskPod_loop_filter)
  show ?thesis
  proof (cases ?ps)
    case Nil
    then have "\<not> list_ex (at_risk vuln) items" by (auto simp: list_ex_iff filter_empty_conv)
    with eq Nil show ?thesis by simp
  next
    case (Cons q qs)
    then have ex: "list_ex (at_risk vuln) items"
      by (metis filter_empty_conv list.distinct(1) list_ex_iff)
    have "{p \<in> set items. at_risk vuln p} = set (q # qs)" using Cons by (metis set_filter)
    moreover have "nextAtRiskPod_loop vuln (q # qs) [] = Min (insert (pod_name q) (pod_name ` set qs))"
      using all nextAtRiskPod_loop_acc [of "pod_name q" vuln qs] unfolding Cons
      by (simp add: at_risk_def)
    ultimately show ?thesis using eq Cons ex by simp
  qed
qed

lemma activeWindowFor_Some:
  assumes "activeWindowFor c w dep (Some p) = Inr (Some win)"
  shows "Get_Window c w (dep_namespace dep) (WindowName (pol_name p) (dep_namespace dep) (dep_name dep)) = Inr win
     \<and> (IsActive win \<or> wst_forcedCool (win_status win))"
  using assms by (auto simp: activeWindowFor_def split: sum.splits if_splits)

text \<open>The outcome of \<open>Evaluate\<close> once the gate applies, as a function of the window.\<close>

lemma Evaluate_gated:
  assumes "gate_applies E c w pod dep owner"
  shows "Evaluate E c w (Some pod) =
     sum_bind (activeWindowFor c w dep (Some owner)) (\<lambda>win0.
       case win0 of None \<Rightarrow> result Deny ''waiting for eviction-guard window and spare capacity''
       | Some win \<Rightarrow>
           if wst_forcedCool (win_status win) then result Allow ''maxWindow force-cool''
           else if \<not> wst_spareReady (win_status win) then result Deny ''waiting for eviction-guard spare capacity''
           else sum_bind (nextAtRiskPod E c w dep (recorded_nodes pod win)) (\<lambda>next.
             if next = [] then result Allow ''no at-risk pods''
             else if pod_name pod \<noteq> next then result Deny (''waiting for eviction of '' @ next @ '' first'')
             else result Allow ''spare ready; next at-risk pod''))"
proof -
  obtain node ps ns f where g: "Get_Node c w (pod_nodeName pod) = Inr node" "List_Policies c w = Inr ps"
      "NamespaceLabels c w (pod_namespace pod) = Inr ns"
      "ResolveOwner E (Some dep) ns (map Some ps) = Some owner"
      "FromSpec E (spec_nodeFilter (pol_spec owner)) = Inr f"
      "filter_accepts E (spec_nodeFilter (pol_spec owner)) node" "Vulnerable (registry E) node (Some owner)"
    using assms unfolding gate_applies_def by blast
  have m: "Matches f (Some node) = Inr True" using flt.matches_accepts [OF g(5)] g(6) by simp
  have pre: "optedIn pod" "pod_nodeName pod \<noteq> []" "OwnerDeployment c w (Some pod) = Inr (Some dep)" "templateOptedIn dep"
    using assms by (simp_all add: gate_applies_def)
  have closed: "wst_phase (win_status win) \<noteq> WindowPhaseClosed"
    if "activeWindowFor c w dep (Some owner) = Inr (Some win)" "\<not> wst_forcedCool (win_status win)" for win
    using activeWindowFor_Some [OF that(1)] that(2) by (auto simp: IsActive_def)
  show ?thesis
  proof (cases "activeWindowFor c w dep (Some owner)")
    case (Inl e)
    then show ?thesis using pre g m by (simp add: Evaluate_def listPolicies_def)
  next
    case (Inr win0)
    with closed pre g m show ?thesis
      by (cases win0) (simp_all add: Evaluate_def listPolicies_def recorded_nodes_def Let_def)
  qed
qed

text \<open>Pods listed by the API server have names.\<close>

definition pods_named :: "'w client \<Rightarrow> 'w \<Rightarrow> bool" where
  "pods_named c w \<longleftrightarrow>
     (\<forall>ns sel items. List_PodsMatching c w ns sel = Inr items \<longrightarrow> list_all (\<lambda>p. pod_name p \<noteq> []) items)"

definition allows :: "env \<Rightarrow> 'w client \<Rightarrow> 'w \<Rightarrow> Pod \<Rightarrow> bool" where
  "allows E c w pod = (case Evaluate E c w (Some pod) of Inl _ \<Rightarrow> False | Inr r \<Rightarrow> res_decision r = Allow)"

definition denies :: "env \<Rightarrow> 'w client \<Rightarrow> 'w \<Rightarrow> Pod \<Rightarrow> bool" where
  "denies E c w pod = (case Evaluate E c w (Some pod) of Inl _ \<Rightarrow> False | Inr r \<Rightarrow> res_decision r = Deny)"

text \<open>The pods of the deployment that the gate lists, and whether \<open>pod\<close> is the one to go next.\<close>

definition next_to_go :: "env \<Rightarrow> 'w client \<Rightarrow> 'w \<Rightarrow> Deployment \<Rightarrow> string list \<Rightarrow> Pod \<Rightarrow> bool" where
  "next_to_go E c w dep vuln pod \<longleftrightarrow>
     (\<exists>sel items. LabelSelectorAsSelector E (dep_selector dep) = Inr sel \<and>
        List_PodsMatching c w (dep_namespace dep) sel = Inr items \<and>
        (if list_ex (at_risk vuln) items then pod_name pod = Min (pod_name ` {p \<in> set items. at_risk vuln p})
         else True))"

lemma nextAtRiskPod_next_to_go:
  assumes "pods_named c w"
  shows "(\<exists>next. nextAtRiskPod E c w dep vuln = Inr next \<and> (next = [] \<or> next = pod_name pod)) \<longleftrightarrow>
     next_to_go E c w dep vuln pod"
proof -
  have named: "nextAtRiskPod_loop vuln items [] = (if list_ex (at_risk vuln) items
      then Min (pod_name ` {p \<in> set items. at_risk vuln p}) else [])"
    and ne: "list_ex (at_risk vuln) items \<Longrightarrow> Min (pod_name ` {p \<in> set items. at_risk vuln p}) \<noteq> []"
    if "List_PodsMatching c w ns sel = Inr items" for ns sel items
  proof -
    have all: "list_all (\<lambda>p. pod_name p \<noteq> []) items" using assms that unfolding pods_named_def by blast
    then show "nextAtRiskPod_loop vuln items [] = (if list_ex (at_risk vuln) items
      then Min (pod_name ` {p \<in> set items. at_risk vuln p}) else [])" by (rule nextAtRiskPod_loop_Min)
    show "Min (pod_name ` {p \<in> set items. at_risk vuln p}) \<noteq> []" if "list_ex (at_risk vuln) items"
    proof -
      have "pod_name ` {p \<in> set items. at_risk vuln p} \<noteq> {}" using that by (auto simp: list_ex_iff)
      then have "Min (pod_name ` {p \<in> set items. at_risk vuln p}) \<in> pod_name ` {p \<in> set items. at_risk vuln p}"
        by (intro Min_in) auto
      with all show ?thesis by (auto simp: list_all_iff)
    qed
  qed
  show ?thesis
  proof (cases "LabelSelectorAsSelector E (dep_selector dep)")
    case (Inr sel)
    then show ?thesis
    proof (cases "List_PodsMatching c w (dep_namespace dep) sel")
      case (Inr items)
      with \<open>LabelSelectorAsSelector E (dep_selector dep) = Inr sel\<close> named [OF Inr] ne [OF Inr] show ?thesis
        by (cases "list_ex (at_risk vuln) items") (auto simp: nextAtRiskPod_def next_to_go_def)
    qed (simp add: nextAtRiskPod_def next_to_go_def)
  qed (simp add: nextAtRiskPod_def next_to_go_def)
qed

lemma allows_gated:
  assumes "gate_applies E c w pod dep owner"
  shows "allows E c w pod \<longleftrightarrow>
     (\<exists>win. activeWindowFor c w dep (Some owner) = Inr (Some win) \<and>
       (wst_forcedCool (win_status win) \<or>
        wst_spareReady (win_status win) \<and>
        (\<exists>next. nextAtRiskPod E c w dep (recorded_nodes pod win) = Inr next \<and> (next = [] \<or> next = pod_name pod))))"
  unfolding allows_def Evaluate_gated [OF assms]
  by (auto simp: sum_bind_def result_def split: sum.splits option.splits if_splits)

lemma activeWindowFor_iff:
  "activeWindowFor c w dep (Some p) = Inr (Some win) \<longleftrightarrow>
     Get_Window c w (dep_namespace dep) (WindowName (pol_name p) (dep_namespace dep) (dep_name dep)) = Inr win
     \<and> (IsActive win \<or> wst_forcedCool (win_status win))"
  by (auto simp: activeWindowFor_def split: sum.splits if_splits)

lemma denies_covered:
  assumes "denies E c w pod"
  shows "\<exists>dep owner. gate_applies E c w pod dep owner"
proof (rule ccontr)
  assume no: "\<nexists>dep owner. gate_applies E c w pod dep owner"
  have "Matches f (Some node) = Inr True \<Longrightarrow> FromSpec E spec = Inr f \<Longrightarrow> filter_accepts E spec node" for f node spec
    by (simp add: flt.matches_accepts)
  with no have "\<not> denies E c w pod"
    unfolding denies_def Evaluate_def gate_applies_def listPolicies_def
    by (auto simp: sum_bind_def result_def split: sum.splits option.splits if_splits)
  with assms show False by simp
qed


section \<open>Example cluster\<close>

text \<open>
  Deployment \<open>shop/web\<close> with two protected pods \<open>web-1\<close> and \<open>web-2\<close> on the cordoned
  node \<open>ip-7\<close>, one policy \<open>p\<close> that watches cordoned nodes, and a window whose recorded
  nodes and spare condition are parameters.
\<close>

definition cordon_policy :: EvictionGuardPolicy where
  "cordon_policy = (plain_policy ''p'')\<lparr>pol_spec := (pol_spec (plain_policy ''p''))\<lparr>spec_disruptionSignals := [SignalNodeCordoned]\<rparr>\<rparr>"

definition web_pod :: "string \<Rightarrow> Pod" where
  "web_pod n =
     \<lparr>pod_name = n, pod_namespace = ''shop'', pod_labels = [(''app'', ''web''), (ProtectedLabel, ''true'')],
      pod_deletionTimestamp = None,
      pod_ownerReferences = [\<lparr>or_kind = ''ReplicaSet'', or_name = ''web-rs'', or_controller = Some True\<rparr>],
      pod_nodeName = ''ip-7'', pod_conditions = []\<rparr>"

definition web_window :: "bool \<Rightarrow> string list \<Rightarrow> EvictionGuardWindow" where
  "web_window ready nodes =
     \<lparr>win_name = WindowName ''p'' ''shop'' ''web'', win_namespace = ''shop'', win_labels = [], win_finalizers = [WindowFinalizer],
      win_deletionTimestamp = None, win_creationTimestamp = hour, win_generation = 1, win_controller = Some ''p'',
      win_spec = \<lparr>ws_policyName = ''p'',
        ws_target = \<lparr>wr_apiVersion = ''apps/v1'', wr_kind = ''Deployment'', wr_name = ''web'', wr_namespace = ''shop''\<rparr>,
        ws_actions = [], ws_baseline = 2, ws_scaledTo = 4, ws_vulnerableNodes = nodes, ws_windowUntil = None\<rparr>,
      win_status = empty_status\<lparr>wst_phase := WindowPhaseOpen, wst_spareReady := ready\<rparr>\<rparr>"

definition web_cluster :: "bool \<Rightarrow> string list \<Rightarrow> memory" where
  "web_cluster ready nodes =
     \<lparr>mc_pods = [web_pod ''web-1'', web_pod ''web-2''], mc_nodes = [spot_node], mc_namespaces = [(''shop'', [])],
      mc_replicaSets = [((''shop'', ''web-rs''),
        \<lparr>rs_ownerReferences = [\<lparr>or_kind = ''Deployment'', or_name = ''web'', or_controller = Some True\<rparr>]\<rparr>)],
      mc_deployments = [plain_deployment], mc_policies = [cordon_policy],
      mc_windows = [web_window ready nodes], mc_objects = [], mc_now = 2 * hour\<rparr>"

lemma web_owner:
  "OwnerDeployment mem_client (web_cluster r ns) (Some (web_pod n)) = Inr (Some plain_deployment)"
  by (simp add: OwnerDeployment_def web_pod_def web_cluster_def mem_client_def controls_def plain_deployment_def)

lemma web_gate_applies:
  "gate_applies std_env mem_client (web_cluster r ns) (web_pod n) plain_deployment cordon_policy"
proof -
  let ?spec = "spec_nodeFilter (pol_spec cordon_policy)"
  have spec: "?spec = empty_node_filter" by (simp add: cordon_policy_def plain_policy_def)
  have res: "ResolveOwner std_env (Some plain_deployment) [] [Some cordon_policy] = Some cordon_policy"
    by (simp add: ResolveOwner_def Pin_def plain_deployment_def FirstByName_def time_is_zero_def SelectorMatch_def
        NamespaceSelectorMatch_def WorkloadSelectorMatch_def cordon_policy_def plain_policy_def)
  have vul: "Vulnerable (registry std_env) spot_node (Some cordon_policy)"
    by (simp add: Vulnerable_def IsVulnerable_def cordon_policy_def plain_policy_def go_simps spot_node_def)
  obtain f where f: "FromSpec std_env empty_node_filter = Inr f"
    by (auto simp: FromSpec_def empty_node_filter_def)
  have acc: "filter_accepts std_env empty_node_filter spot_node"
    by (simp add: filter_accepts_def empty_node_filter_def)
  have lk: "Get_Node mem_client (web_cluster r ns) (pod_nodeName (web_pod n)) = Inr spot_node"
    "List_Policies mem_client (web_cluster r ns) = Inr [cordon_policy]"
    "NamespaceLabels mem_client (web_cluster r ns) (pod_namespace (web_pod n)) = Inr []"
    by (simp_all add: mem_client_def web_cluster_def web_pod_def spot_node_def NamespaceLabels_def)
  have "optedIn (web_pod n)" "pod_nodeName (web_pod n) \<noteq> []" "templateOptedIn plain_deployment"
    by (simp_all add: optedIn_def templateOptedIn_def web_pod_def plain_deployment_def ProtectedLabel_def)
  then show ?thesis
    unfolding gate_applies_def spec using web_owner [of r ns n] lk res vul f acc by fastforce
qed

lemma web_pods_named: "pods_named mem_client (web_cluster r ns)"
  by (auto simp: pods_named_def mem_client_def web_cluster_def web_pod_def list_all_iff)

lemma web_window_found:
  "Get_Window mem_client (web_cluster r ns) (dep_namespace plain_deployment)
     (WindowName (pol_name cordon_policy) (dep_namespace plain_deployment) (dep_name plain_deployment))
   = Inr (web_window r ns)"
  by (simp add: mem_client_def web_cluster_def web_window_def plain_deployment_def cordon_policy_def plain_policy_def)

lemma web_window_state [simp]:
  "IsActive (web_window r ns)" "wst_spareReady (win_status (web_window r ns)) = r"
  "wst_forcedCool (win_status (web_window r ns)) = False" "ws_vulnerableNodes (win_spec (web_window r ns)) = ns"
  by (simp_all add: web_window_def IsActive_def empty_status_def)

lemma web_items:
  "LabelSelectorAsSelector std_env (dep_selector plain_deployment) =
     Inr (\<lambda>m. (mhas m ''app'' \<and> mget m ''app'' = ''web''))"
  "List_PodsMatching mem_client (web_cluster r ns) (dep_namespace plain_deployment)
     (\<lambda>m. (mhas m ''app'' \<and> mget m ''app'' = ''web'')) = Inr [web_pod ''web-1'', web_pod ''web-2'']"
  by (simp_all add: std_env_def std_selector_def plain_deployment_def mem_client_def web_cluster_def web_pod_def fun_eq_iff)

lemma web_pod_simps [simp]:
  "pod_name (web_pod n) = n" "pod_nodeName (web_pod n) = ''ip-7''"
  "at_risk vuln (web_pod n) \<longleftrightarrow> ''ip-7'' \<in> set vuln"
  by (simp_all add: web_pod_def at_risk_def ProtectedLabel_def)

lemma web_next:
  "next_to_go std_env mem_client (web_cluster r ns) plain_deployment vuln (web_pod n) \<longleftrightarrow>
     (''ip-7'' \<in> set vuln \<longrightarrow> n = ''web-1'')"
proof -
  have "{p \<in> set [web_pod ''web-1'', web_pod ''web-2'']. at_risk vuln p} =
      (if ''ip-7'' \<in> set vuln then {web_pod ''web-1'', web_pod ''web-2''} else {})"
    by auto
  then show ?thesis by (simp add: next_to_go_def web_items del: set_simps)
qed


section \<open>Properties\<close>

text \<open>
  C1. The gate, exactly: when a pod is covered (opted in, on an existing node that its
  owning policy filters and considers vulnerable), its eviction is allowed if and only if
  the window of that policy and deployment exists and is forced cool, or it is active and
  reports its spare ready and the pod is next: nothing on the recorded nodes is at risk
  any more, or the pod has the least name among the pods at risk there.
\<close>

theorem Evaluate_allow_iff:
  assumes "gate_applies E c w pod dep owner" and "pods_named c w"
  shows "allows E c w pod \<longleftrightarrow>
     (\<exists>win. Get_Window c w (dep_namespace dep) (WindowName (pol_name owner) (dep_namespace dep) (dep_name dep)) = Inr win \<and>
       (wst_forcedCool (win_status win) \<or>
        IsActive win \<and> wst_spareReady (win_status win) \<and> next_to_go E c w dep (recorded_nodes pod win) pod))"
  unfolding allows_gated [OF assms(1)] nextAtRiskPod_next_to_go [OF assms(2)] activeWindowFor_iff by blast

theorem Evaluate_allow_iff_witness:
  "allows std_env mem_client (web_cluster True [''ip-7'']) (web_pod ''web-1'') \<and>
   \<not> allows std_env mem_client (web_cluster False [''ip-7'']) (web_pod ''web-1'')"
  using Evaluate_allow_iff [OF web_gate_applies web_pods_named, of True "[''ip-7'']" "''web-1''"]
    Evaluate_allow_iff [OF web_gate_applies web_pods_named, of False "[''ip-7'']" "''web-1''"]
  by (simp add: web_window_found web_next recorded_nodes_def)

text \<open>
  C2. One at a time: while the window is not forced cool, two live pods of the deployment
  with different names, both on nodes the window records, are never both allowed.
\<close>

theorem one_eviction_at_a_time:
  assumes "gate_applies E c w p dep owner" and "gate_applies E c w q dep owner" and "pods_named c w"
    and "Get_Window c w (dep_namespace dep) (WindowName (pol_name owner) (dep_namespace dep) (dep_name dep)) = Inr win"
    and "\<not> wst_forcedCool (win_status win)"
    and "LabelSelectorAsSelector E (dep_selector dep) = Inr sel"
    and "List_PodsMatching c w (dep_namespace dep) sel = Inr items"
    and "p \<in> set items" and "at_risk (ws_vulnerableNodes (win_spec win)) p"
    and "pod_name p \<noteq> pod_name q"
  shows "\<not> (allows E c w p \<and> allows E c w q)"
proof -
  have ne: "ws_vulnerableNodes (win_spec win) \<noteq> []" using assms(9) by (auto simp: at_risk_def)
  have ex: "list_ex (at_risk (ws_vulnerableNodes (win_spec win))) items" using assms(8,9) by (auto simp: list_ex_iff)
  have "allows E c w x \<longrightarrow> pod_name x = Min (pod_name ` {p \<in> set items. at_risk (ws_vulnerableNodes (win_spec win)) p})"
    if "gate_applies E c w x dep owner" for x
    unfolding allows_gated [OF that] nextAtRiskPod_next_to_go [OF assms(3)] activeWindowFor_iff
    using assms(4-7) ne ex by (auto simp: next_to_go_def recorded_nodes_def)
  with assms(1,2,10) show ?thesis by metis
qed

theorem one_eviction_at_a_time_witness:
  "\<not> (allows std_env mem_client (web_cluster True [''ip-7'']) (web_pod ''web-1'') \<and>
      allows std_env mem_client (web_cluster True [''ip-7'']) (web_pod ''web-2''))"
  by (rule one_eviction_at_a_time [OF web_gate_applies web_gate_applies web_pods_named web_window_found _ web_items])
    simp_all

text \<open>
  C3. Progress: with the window active and its spare ready, when some pod of the
  deployment is at risk on the recorded nodes and the gate covers all the pods at risk
  there (their nodes are still being disrupted), one of them is allowed, so a drain that
  retries its evictions is not stuck on the order of the pods. Coverage is needed: a
  recorded node that has recovered keeps its pods in the order, and nobody evicts them.
\<close>

theorem drain_makes_progress:
  assumes "pods_named c w"
    and "Get_Window c w (dep_namespace dep) (WindowName (pol_name owner) (dep_namespace dep) (dep_name dep)) = Inr win"
    and "IsActive win" and "wst_spareReady (win_status win)"
    and "LabelSelectorAsSelector E (dep_selector dep) = Inr sel"
    and "List_PodsMatching c w (dep_namespace dep) sel = Inr items"
    and "list_ex (at_risk (ws_vulnerableNodes (win_spec win))) items"
    and "\<forall>p \<in> set items. at_risk (ws_vulnerableNodes (win_spec win)) p \<longrightarrow> gate_applies E c w p dep owner"
  shows "\<exists>p \<in> set items. at_risk (ws_vulnerableNodes (win_spec win)) p \<and> allows E c w p"
proof -
  let ?names = "pod_name ` {p \<in> set items. at_risk (ws_vulnerableNodes (win_spec win)) p}"
  have ne: "ws_vulnerableNodes (win_spec win) \<noteq> []" using assms(7) by (auto simp: list_ex_iff at_risk_def)
  have "?names \<noteq> {}" using assms(7) by (auto simp: list_ex_iff)
  then have "Min ?names \<in> ?names" by (intro Min_in) auto
  then obtain p where p: "p \<in> set items" "at_risk (ws_vulnerableNodes (win_spec win)) p" "pod_name p = Min ?names"
    by auto
  then have "gate_applies E c w p dep owner" using assms(8) by blast
  then have "allows E c w p"
    unfolding allows_gated [OF \<open>gate_applies E c w p dep owner\<close>] nextAtRiskPod_next_to_go [OF assms(1)] activeWindowFor_iff
    using assms(2-7) ne p(3) by (auto simp: next_to_go_def recorded_nodes_def)
  with p show ?thesis by blast
qed

theorem drain_makes_progress_witness:
  "\<exists>p \<in> set [web_pod ''web-1'', web_pod ''web-2'']. at_risk [''ip-7''] p \<and>
     allows std_env mem_client (web_cluster True [''ip-7'']) p"
  using drain_makes_progress [OF web_pods_named web_window_found _ _ web_items(1) web_items(2) [of True "[''ip-7'']"]]
    web_gate_applies [of True "[''ip-7'']"]
  by simp

text \<open>
  C5. The gate denies only what it covers: a denied pod is opted in, scheduled, owned by
  a protected deployment with an owning policy, and sits on a node that this policy
  filters and finds vulnerable.
\<close>

theorem denies_only_covered_pods:
  "if denies E c w pod then \<exists>dep owner. gate_applies E c w pod dep owner else True"
  using denies_covered [of E c w pod] by simp

text \<open>
  C6. The nodes recorded on the window bound the one-at-a-time rule: when an active window
  with its spare ready records some nodes, a covered pod on a node it does not record is
  allowed if and only if no pod of the deployment is at risk on the recorded nodes. So all
  the pods on such a node are held back together, or let go together.
\<close>

theorem unrecorded_node_lets_all_go:
  assumes "gate_applies E c w p dep owner" and "pods_named c w"
    and "Get_Window c w (dep_namespace dep) (WindowName (pol_name owner) (dep_namespace dep) (dep_name dep)) = Inr win"
    and "IsActive win" and "wst_spareReady (win_status win)" and "\<not> wst_forcedCool (win_status win)"
    and "LabelSelectorAsSelector E (dep_selector dep) = Inr sel"
    and "List_PodsMatching c w (dep_namespace dep) sel = Inr items"
    and "ws_vulnerableNodes (win_spec win) \<noteq> []" and "pod_nodeName p \<notin> set (ws_vulnerableNodes (win_spec win))"
    and "\<forall>q \<in> set items. pod_name q = pod_name p \<longrightarrow> pod_nodeName q = pod_nodeName p"
  shows "allows E c w p \<longleftrightarrow> \<not> list_ex (at_risk (ws_vulnerableNodes (win_spec win))) items"
proof -
  let ?risky = "{q \<in> set items. at_risk (ws_vulnerableNodes (win_spec win)) q}"
  have other: "pod_name p \<noteq> Min (pod_name ` ?risky)" if "?risky \<noteq> {}"
  proof
    assume "pod_name p = Min (pod_name ` ?risky)"
    moreover have "Min (pod_name ` ?risky) \<in> pod_name ` ?risky" using that by (intro Min_in) auto
    ultimately obtain q where "q \<in> ?risky" "pod_name q = pod_name p" by auto
    with assms(10,11) show False by (auto simp: at_risk_def)
  qed
  show ?thesis
    unfolding allows_gated [OF assms(1)] nextAtRiskPod_next_to_go [OF assms(2)] activeWindowFor_iff
    using assms(3-9) other by (auto simp: next_to_go_def recorded_nodes_def list_ex_iff)
qed

theorem unrecorded_node_lets_all_go_witness:
  "allows std_env mem_client (web_cluster True [''ip-9'']) (web_pod ''web-1'') \<and>
   allows std_env mem_client (web_cluster True [''ip-9'']) (web_pod ''web-2'')"
  using unrecorded_node_lets_all_go [OF web_gate_applies web_pods_named web_window_found _ _ _ web_items(1) web_items(2),
      of True "[''ip-9'']"]
  by simp

end
