(* ===== verification/Bindings.thy ===== *)
theory Bindings
  imports Policy_Own
begin

text \<open>
  \<open>pkg/backends/bindings.go\<close>: from the \<open>scale-backend\<close> annotation of a deployment and
  the backend catalog of a policy to the list of integer fields to patch.
  \<open>ParseBindings\<close> decodes the annotation, \<open>ResolveCatalog\<close> maps each binding through
  the catalog. The catalog, a Go map, is an association list; a result \<open>(nil, err)\<close> is
  \<open>Inl err\<close>.
\<close>


section \<open>Definitions\<close>

record Binding =
  bind_key :: string
  bind_namespace :: string
  bind_name :: string

record ResolvedStep =
  rstep_key :: string
  rstep_target :: Target
  rstep_annotations :: "string list"
  rstep_skipDownscaling :: bool

definition splitBinding :: "string \<Rightarrow> string \<Rightarrow> string \<Rightarrow> goerror + string \<times> string \<times> string" where
  "splitBinding tok defaultNS defaultName =
     (case CutCh (CHR ''='') tok of (key0, rest0, hasEq) \<Rightarrow>
        let key = TrimSpace key0 in
        if key = [] then Inl (ErrorString (''empty scale-backend key in '' @ quote tok))
        else if \<not> hasEq \<or> TrimSpace rest0 = [] then Inr (key, defaultNS, defaultName)
        else let rest = TrimSpace rest0 in
          if Contains rest ''/'' then
            (let parts = SplitCh (CHR ''/'') rest in
             if length parts \<noteq> 2 \<or> parts ! 0 = [] \<or> parts ! 1 = []
             then Inl (ErrorString (''invalid scale-backend target '' @ quote tok @ '' (want name or ns/name)''))
             else Inr (key, parts ! 0, parts ! 1))
          else Inr (key, defaultNS, rest))"

fun ParseBindings_loop ::
  "string list \<Rightarrow> string \<Rightarrow> string \<Rightarrow> string list \<Rightarrow> Binding list \<Rightarrow> goerror + Binding list" where
  "ParseBindings_loop [] defaultNS defaultName seen out = Inr out"
| "ParseBindings_loop (p0 # ps) defaultNS defaultName seen out =
     (let p = TrimSpace p0 in
      if p = [] then ParseBindings_loop ps defaultNS defaultName seen out
      else case splitBinding p defaultNS defaultName of
        Inl e \<Rightarrow> Inl e
      | Inr (key, ns, name) \<Rightarrow>
          if key \<in> set seen then ParseBindings_loop ps defaultNS defaultName seen out
          else ParseBindings_loop ps defaultNS defaultName (key # seen)
            (out @ [\<lparr>bind_key = key, bind_namespace = ns, bind_name = name\<rparr>]))"

definition ParseBindings :: "string \<Rightarrow> string \<Rightarrow> string \<Rightarrow> goerror + Binding list" where
  "ParseBindings raw defaultNS defaultName =
     sum_bind (ParseBindings_loop (SplitCh (CHR '','') raw) defaultNS defaultName [] []) (\<lambda>out.
       if length out = 0 then Inl (ErrorString ''empty scale-backend list'') else Inr out)"

definition BindingsForWorkload ::
  "Deployment option \<Rightarrow> EvictionGuardPolicy option \<Rightarrow> goerror + Binding list" where
  "BindingsForWorkload dep0 policy =
     (case (dep0, policy) of
        (Some dep, Some p) \<Rightarrow>
          (let raw = (if dep_annotations dep \<noteq> [] then mget (dep_annotations dep) ScaleBackendAnnotation else []) in
           if TrimSpace raw = []
           then Inl (ErrorString (ScaleBackendAnnotation @
             '' is required (list policy.spec.backends keys; first patched key is SpareReady primary)''))
           else ParseBindings raw (dep_namespace dep) (dep_name dep))
      | _ \<Rightarrow> Inl (ErrorString ''deployment and policy required''))"

fun splitPatches_loop ::
  "BackendPatch list \<Rightarrow> string list \<Rightarrow> string list \<Rightarrow> string list \<Rightarrow> goerror + string list \<times> string list" where
  "splitPatches_loop [] seenPath paths anns = Inr (paths, anns)"
| "splitPatches_loop (p # patches) seenPath paths anns =
     (if bp_path p = [] \<and> bp_annotation p = [] then Inl (ErrorString ''patch must set path or annotation'')
      else if bp_path p \<noteq> [] \<and> bp_path p \<in> set seenPath
      then Inl (ErrorString (''duplicate path '' @ quote (bp_path p)))
      else splitPatches_loop patches
        (if bp_path p \<noteq> [] then bp_path p # seenPath else seenPath)
        (if bp_path p \<noteq> [] then paths @ [bp_path p] else paths)
        (if bp_annotation p \<noteq> [] then anns @ [bp_annotation p] else anns))"

definition splitPatches :: "BackendPatch list \<Rightarrow> goerror + string list \<times> string list" where
  "splitPatches patches = splitPatches_loop patches [] [] []"

text \<open>The steps of one binding: the annotations go with the first path.\<close>

definition binding_step :: "Binding \<Rightarrow> BackendCatalogEntry \<Rightarrow> string list \<Rightarrow> string \<Rightarrow> ResolvedStep" where
  "binding_step b entry anns path =
     \<lparr>rstep_key = bind_key b,
      rstep_target = \<lparr>tgt_namespace = bind_namespace b, tgt_name = bind_name b, tgt_apiVersion = be_apiVersion entry,
        tgt_kind = be_kind entry, tgt_fieldPath = path, tgt_defaultWhenUnset = be_defaultWhenUnset entry\<rparr>,
      rstep_annotations = anns,
      rstep_skipDownscaling = be_skipDownscaling entry\<rparr>"

fun binding_steps :: "Binding \<Rightarrow> BackendCatalogEntry \<Rightarrow> nat \<Rightarrow> string list \<Rightarrow> string list \<Rightarrow> ResolvedStep list" where
  "binding_steps b entry i anns [] = []"
| "binding_steps b entry i anns (path # paths) =
     binding_step b entry (if i = 0 then anns else []) path # binding_steps b entry (i + 1) anns paths"

fun ResolveCatalog_loop ::
  "(string, BackendCatalogEntry) gomap \<Rightarrow> Binding list \<Rightarrow> ResolvedStep list \<Rightarrow> goerror + ResolvedStep list" where
  "ResolveCatalog_loop catalog [] out = Inr out"
| "ResolveCatalog_loop catalog (b # bs) out =
     (case map_of catalog (bind_key b) of
        None \<Rightarrow> Inl (ErrorString (''unknown scale-backend key '' @ quote (bind_key b) @ '' (not in policy.spec.backends)''))
      | Some entry \<Rightarrow>
          (case splitPatches (be_patches entry) of
             Inl e \<Rightarrow> Inl (WrapError (''backends['' @ bind_key b @ '']: '') e [])
           | Inr (paths, anns) \<Rightarrow>
               if length paths = 0 then ResolveCatalog_loop catalog bs out
               else ResolveCatalog_loop catalog bs (out @ binding_steps b entry 0 anns paths)))"

definition ResolveCatalog ::
  "Deployment option \<Rightarrow> EvictionGuardPolicy option \<Rightarrow> Binding list \<Rightarrow> goerror + ResolvedStep list" where
  "ResolveCatalog dep policy bindings =
     (case policy of
        None \<Rightarrow> Inl (ErrorString ''policy.spec.backends is required'')
      | Some p \<Rightarrow>
          if mlen (spec_backends (pol_spec p)) = 0 then Inl (ErrorString ''policy.spec.backends is required'')
          else ResolveCatalog_loop (spec_backends (pol_spec p)) bindings [])"


section \<open>Lemmas on parsing\<close>

text \<open>What one token decides, whatever the defaults: whether it is accepted, and its key.\<close>

lemma splitBinding_key:
  "map_sum (\<lambda>_. ()) fst (splitBinding tok ns n) = map_sum (\<lambda>_. ()) fst (splitBinding tok ns' n')"
  by (auto simp: splitBinding_def Let_def split: prod.split)

lemma splitBinding_wf:
  assumes "splitBinding tok ns n = Inr (k, ns', n')"
  shows "k \<noteq> [] \<and> TrimSpace k = k \<and> CHR ''='' \<notin> set k \<and> set k \<subseteq> set tok"
proof -
  obtain a b f where c: "CutCh (CHR ''='') tok = (a, b, f)" by (cases "CutCh (CHR ''='') tok")
  with assms have "k = TrimSpace a" and "k \<noteq> []"
    by (auto simp: splitBinding_def Let_def split: if_splits)
  with CutCh_before [OF c] set_TrimSpace [of a] show ?thesis by auto
qed

lemma ParseBindings_loop_wf:
  assumes "ParseBindings_loop ps ns n seen out = Inr bs"
    and "set seen = bind_key ` set out" and "distinct (map bind_key out)" and "[] \<notin> bind_key ` set out"
  shows "distinct (map bind_key bs) \<and> [] \<notin> bind_key ` set bs"
  using assms
proof (induction ps arbitrary: seen out)
  case (Cons p ps)
  show ?case
  proof (cases "TrimSpace p = []")
    case True
    with Cons show ?thesis by (simp add: Let_def)
  next
    case False
    then obtain k ns' n' where sp: "splitBinding (TrimSpace p) ns n = Inr (k, ns', n')"
      using Cons.prems(1) by (auto simp: Let_def split: sum.splits)
    let ?out = "out @ [\<lparr>bind_key = k, bind_namespace = ns', bind_name = n'\<rparr>]"
    show ?thesis
    proof (cases "k \<in> set seen")
      case True
      with sp False Cons.prems Cons.IH [of seen out] show ?thesis by (simp add: Let_def)
    next
      case False
      with splitBinding_wf [OF sp] sp \<open>TrimSpace p \<noteq> []\<close> Cons.prems Cons.IH [of "k # seen" ?out]
      show ?thesis by (auto simp: Let_def)
    qed
  qed
qed simp

lemma ParseBindings_wf:
  assumes "ParseBindings raw ns n = Inr bs"
  shows "bs \<noteq> [] \<and> distinct (map bind_key bs) \<and> [] \<notin> bind_key ` set bs"
proof -
  have "ParseBindings_loop (SplitCh (CHR '','') raw) ns n [] [] = Inr bs \<and> bs \<noteq> []"
    using assms by (auto simp: ParseBindings_def sum_bind_eq_Inr_iff split: if_splits)
  with ParseBindings_loop_wf [of "SplitCh (CHR '','') raw" ns n "[]" "[]" bs] show ?thesis by simp
qed

lemma ParseBindings_loop_keys:
  assumes "map bind_key out = map bind_key out'"
  shows "map_sum (\<lambda>_. ()) (map bind_key) (ParseBindings_loop ps ns n seen out) =
     map_sum (\<lambda>_. ()) (map bind_key) (ParseBindings_loop ps ns' n' seen out')"
  using assms
proof (induction ps arbitrary: seen out out')
  case (Cons p ps)
  have key: "map_sum (\<lambda>_. ()) fst (splitBinding (TrimSpace p) ns n) = map_sum (\<lambda>_. ()) fst (splitBinding (TrimSpace p) ns' n')"
    by (rule splitBinding_key)
  show ?case
  proof (cases "TrimSpace p = []")
    case True
    with Cons show ?thesis by (simp add: Let_def)
  next
    case False
    show ?thesis
    proof (cases "splitBinding (TrimSpace p) ns n")
      case (Inl e)
      with key False show ?thesis by (cases "splitBinding (TrimSpace p) ns' n'") (auto simp: Let_def)
    next
      case (Inr t)
      with key obtain t' where t': "splitBinding (TrimSpace p) ns' n' = Inr t'" "fst t = fst t'"
        by (cases "splitBinding (TrimSpace p) ns' n'") auto
      show ?thesis
        using Inr t' False Cons.prems Cons.IH [OF Cons.prems, of seen]
        by (cases t; cases t') (auto simp: Let_def intro!: Cons.IH)
    qed
  qed
qed simp

text \<open>Acceptance and keys of a whole annotation do not depend on the defaults either.\<close>

lemma ParseBindings_keys:
  "map_sum (\<lambda>_. ()) (map bind_key) (ParseBindings raw ns n) =
   map_sum (\<lambda>_. ()) (map bind_key) (ParseBindings raw ns' n')"
  using ParseBindings_loop_keys [of "[]" "[]" "SplitCh (CHR '','') raw" ns n "[]" ns' n']
  by (cases "ParseBindings_loop (SplitCh (CHR '','') raw) ns n [] []";
      cases "ParseBindings_loop (SplitCh (CHR '','') raw) ns' n' [] []")
    (auto simp: ParseBindings_def)

lemma ParseBindings_isl: "isl (ParseBindings raw ns n) = isl (ParseBindings raw ns' n')"
  using ParseBindings_keys [of raw ns n ns' n']
  by (cases "ParseBindings raw ns n"; cases "ParseBindings raw ns' n'") auto


section \<open>Lemmas on the catalog\<close>

lemma splitPatches_loop_spec:
  "splitPatches_loop ps seen paths anns = Inr r \<longleftrightarrow>
     list_all (\<lambda>p. \<not> (bp_path p = [] \<and> bp_annotation p = [])) ps \<and>
     distinct (filter (\<lambda>x. x \<noteq> []) (map bp_path ps)) \<and> set (filter (\<lambda>x. x \<noteq> []) (map bp_path ps)) \<inter> set seen = {} \<and>
     r = (paths @ filter (\<lambda>x. x \<noteq> []) (map bp_path ps), anns @ filter (\<lambda>x. x \<noteq> []) (map bp_annotation ps))"
  by (induction ps arbitrary: seen paths anns) auto

lemma splitPatches_spec:
  "splitPatches ps = Inr r \<longleftrightarrow>
     list_all (\<lambda>p. \<not> (bp_path p = [] \<and> bp_annotation p = [])) ps \<and>
     distinct (filter (\<lambda>x. x \<noteq> []) (map bp_path ps)) \<and>
     r = (filter (\<lambda>x. x \<noteq> []) (map bp_path ps), filter (\<lambda>x. x \<noteq> []) (map bp_annotation ps))"
  by (simp add: splitPatches_def splitPatches_loop_spec)

definition patches_ok :: "BackendPatch list \<Rightarrow> bool" where
  "patches_ok ps \<longleftrightarrow> list_all (\<lambda>p. \<not> (bp_path p = [] \<and> bp_annotation p = [])) ps \<and>
     distinct (filter (\<lambda>x. x \<noteq> []) (map bp_path ps))"

definition entry_steps :: "Binding \<Rightarrow> BackendCatalogEntry \<Rightarrow> ResolvedStep list" where
  "entry_steps b entry = binding_steps b entry 0 (filter (\<lambda>x. x \<noteq> []) (map bp_annotation (be_patches entry)))
     (filter (\<lambda>x. x \<noteq> []) (map bp_path (be_patches entry)))"

lemma splitPatches_ok:
  "patches_ok ps \<Longrightarrow> splitPatches ps =
     Inr (filter (\<lambda>x. x \<noteq> []) (map bp_path ps), filter (\<lambda>x. x \<noteq> []) (map bp_annotation ps))"
  by (simp add: splitPatches_spec patches_ok_def)

lemma splitPatches_bad:
  assumes "\<not> patches_ok ps"
  obtains e where "splitPatches ps = Inl e"
  using assms splitPatches_spec [of ps] by (cases "splitPatches ps") (auto simp: patches_ok_def)

lemma ResolveCatalog_loop_spec:
  "ResolveCatalog_loop cat bs out = Inr r \<longleftrightarrow>
     (\<forall>b \<in> set bs. \<exists>entry. map_of cat (bind_key b) = Some entry \<and> patches_ok (be_patches entry)) \<and>
     r = out @ concat (map (\<lambda>b. entry_steps b (the (map_of cat (bind_key b)))) bs)"
proof (induction bs arbitrary: out)
  case Nil
  show ?case by auto
next
  case (Cons b bs)
  show ?case
  proof (cases "map_of cat (bind_key b)")
    case None
    then show ?thesis by simp
  next
    case (Some entry)
    show ?thesis
    proof (cases "patches_ok (be_patches entry)")
      case True
      let ?paths = "filter (\<lambda>x. x \<noteq> []) (map bp_path (be_patches entry))"
      have "ResolveCatalog_loop cat (b # bs) out =
          (if ?paths = [] then ResolveCatalog_loop cat bs out
           else ResolveCatalog_loop cat bs (out @ entry_steps b entry))"
        using Some splitPatches_ok [OF True] by (simp add: entry_steps_def)
      moreover have "?paths = [] \<Longrightarrow> entry_steps b entry = []" by (simp add: entry_steps_def)
      ultimately show ?thesis using Cons.IH Some True by (cases "?paths = []") simp_all
    next
      case False
      then obtain e where "splitPatches (be_patches entry) = Inl e" by (rule splitPatches_bad)
      with Some False show ?thesis by simp
    qed
  qed
qed

lemma binding_steps_shape:
  "map (\<lambda>s. (rstep_key s, tgt_fieldPath (rstep_target s))) (binding_steps b entry i anns paths) =
     map (\<lambda>path. (bind_key b, path)) paths"
  by (induction paths arbitrary: i) (simp_all add: binding_step_def)

lemma entry_steps_keys:
  assumes "s \<in> set (entry_steps b entry)"
  shows "rstep_key s = bind_key b"
proof -
  have "s \<in> set (binding_steps b entry i anns paths) \<Longrightarrow> rstep_key s = bind_key b" for i anns paths
    by (induction paths arbitrary: i) (auto simp: binding_step_def)
  with assms show ?thesis by (simp add: entry_steps_def)
qed

lemma entry_steps_distinct:
  assumes "patches_ok (be_patches entry)"
  shows "distinct (map (\<lambda>s. (rstep_key s, tgt_fieldPath (rstep_target s))) (entry_steps b entry))"
  using assms unfolding entry_steps_def binding_steps_shape patches_ok_def
  by (simp add: distinct_map inj_on_def)

lemma disjoint_by_fst: "fst ` A \<subseteq> {k} \<Longrightarrow> fst ` B \<subseteq> K \<Longrightarrow> k \<notin> K \<Longrightarrow> A \<inter> B = {}"
  by (auto simp: subset_iff image_iff)

lemma concat_steps_distinct:
  assumes "distinct (map bind_key bs)"
    and "\<forall>b \<in> set bs. \<exists>entry. map_of cat (bind_key b) = Some entry \<and> patches_ok (be_patches entry)"
  shows "distinct (map (\<lambda>s. (rstep_key s, tgt_fieldPath (rstep_target s)))
     (concat (map (\<lambda>b. entry_steps b (the (map_of cat (bind_key b)))) bs)))"
  using assms
proof (induction bs)
  case (Cons b bs)
  obtain entry where e: "map_of cat (bind_key b) = Some entry" "patches_ok (be_patches entry)"
    using Cons.prems(2) by auto
  let ?id = "\<lambda>s. (rstep_key s, tgt_fieldPath (rstep_target s))"
  let ?rest = "concat (map (\<lambda>b. entry_steps b (the (map_of cat (bind_key b)))) bs)"
  have "fst ` ?id ` set (entry_steps b entry) \<subseteq> {bind_key b}" using entry_steps_keys by auto
  moreover have "fst ` ?id ` set ?rest \<subseteq> bind_key ` set bs" using entry_steps_keys by auto
  moreover have "bind_key b \<notin> bind_key ` set bs" using Cons.prems(1) by simp
  ultimately have "?id ` set (entry_steps b entry) \<inter> ?id ` set ?rest = {}" by (rule disjoint_by_fst)
  moreover have "distinct (map ?id ?rest)" using Cons by simp
  ultimately show ?case
    using e entry_steps_distinct [OF e(2), of b] by (simp add: distinct_append image_image [symmetric])
qed simp


section \<open>Printing\<close>

definition print_binding :: "Binding \<Rightarrow> string" where
  "print_binding b = bind_key b @ ''='' @ bind_namespace b @ ''/'' @ bind_name b"

definition clean :: "char list \<Rightarrow> string \<Rightarrow> bool" where
  "clean bad s \<longleftrightarrow> s \<noteq> [] \<and> list_all (\<lambda>c. \<not> is_space c \<and> c \<notin> set bad) s"

definition binding_clean :: "Binding \<Rightarrow> bool" where
  "binding_clean b \<longleftrightarrow> clean '',='' (bind_key b) \<and> clean '',/'' (bind_namespace b) \<and> clean '',/'' (bind_name b)"

lemma clean_facts:
  assumes "clean bad s"
  shows "s \<noteq> []" and "\<forall>c \<in> set s. \<not> is_space c" and "\<forall>c \<in> set bad. c \<notin> set s"
  using assms by (auto simp: clean_def list_all_iff)

lemma separators_not_space [simp]: "\<not> is_space (CHR ''='')" "\<not> is_space (CHR ''/'')"
  by (simp_all add: is_space_def)

lemma print_binding_token:
  assumes "binding_clean b"
  shows "TrimSpace (print_binding b) = print_binding b" and "CHR '','' \<notin> set (print_binding b)"
    and "splitBinding (print_binding b) ns n = Inr (bind_key b, bind_namespace b, bind_name b)"
proof -
  let ?rest = "bind_namespace b @ CHR ''/'' # bind_name b"
  have chars: "list_all (\<lambda>c. \<not> is_space c) (print_binding b)" "list_all (\<lambda>c. \<not> is_space c) ?rest"
      "list_all (\<lambda>c. \<not> is_space c) (bind_key b)"
    and sep: "CHR ''='' \<notin> set (bind_key b)" "CHR ''/'' \<notin> set (bind_namespace b)" "CHR ''/'' \<notin> set (bind_name b)"
    and ne: "bind_key b \<noteq> []" "bind_namespace b \<noteq> []" "bind_name b \<noteq> []"
    using clean_facts [of "'',=''" "bind_key b"] clean_facts [of "'',/''" "bind_namespace b"]
      clean_facts [of "'',/''" "bind_name b"] assms
    by (auto simp: binding_clean_def print_binding_def list_all_iff)
  show "TrimSpace (print_binding b) = print_binding b" by (rule TrimSpace_no_space [OF chars(1)])
  show "CHR '','' \<notin> set (print_binding b)"
    using clean_facts(3) [of "'',=''" "bind_key b"] clean_facts(3) [of "'',/''" "bind_namespace b"]
      clean_facts(3) [of "'',/''" "bind_name b"] assms
    by (auto simp: binding_clean_def print_binding_def)
  have cut: "CutCh (CHR ''='') (print_binding b) = (bind_key b, ?rest, True)"
    using CutCh_found [OF sep(1), of ?rest] by (simp add: print_binding_def)
  have split: "SplitCh (CHR ''/'') ?rest = [bind_namespace b, bind_name b]"
    using sep by (simp add: SplitCh_append_sep SplitCh_no_sep)
  show "splitBinding (print_binding b) ns n = Inr (bind_key b, bind_namespace b, bind_name b)"
    using ne by (simp add: splitBinding_def cut TrimSpace_no_space [OF chars(2)] TrimSpace_no_space [OF chars(3)]
        Contains_single split)
qed

lemma ParseBindings_loop_print:
  assumes "list_all binding_clean bs" and "distinct (map bind_key bs)" and "set seen \<inter> bind_key ` set bs = {}"
  shows "ParseBindings_loop (map print_binding bs) ns n seen out = Inr (out @ bs)"
  using assms
proof (induction bs arbitrary: seen out)
  case (Cons b bs)
  have "print_binding b \<noteq> []" by (simp add: print_binding_def)
  with Cons show ?case by (simp add: print_binding_token Let_def)
qed simp


section \<open>Properties\<close>

text \<open>
  Round trip: printing bindings as \<open>key=namespace/name\<close>, separated by commas, and
  parsing the annotation gives the bindings back, in order, whatever the defaults.
\<close>

lemma ParseBindings_print:
  assumes "bs \<noteq> []" and "list_all binding_clean bs" and "distinct (map bind_key bs)"
  shows "ParseBindings (JoinStr '','' (map print_binding bs)) ns n = Inr bs"
proof -
  have "\<forall>t \<in> set (map print_binding bs). CHR '','' \<notin> set t"
    using assms(2) print_binding_token(2) by (auto simp: list_all_iff)
  then have "SplitCh (CHR '','') (JoinStr [CHR '',''] (map print_binding bs)) = map print_binding bs"
    using assms(1) by (intro SplitCh_Join) simp_all
  with assms show ?thesis by (simp add: ParseBindings_def ParseBindings_loop_print)
qed

text \<open>
  C37. From the bindings of one annotation to the steps: resolution succeeds exactly when
  every bound key is in the catalog with well-formed patches; then the steps are those of
  the entries in binding order (external entries contribute none) and no two steps patch
  the same path of the same catalog key.
\<close>

theorem ResolveCatalog_steps:
  assumes "ParseBindings raw ns n = Inr bs" and "mlen (spec_backends (pol_spec p)) \<noteq> 0"
  shows "(if list_all (\<lambda>b. case map_of (spec_backends (pol_spec p)) (bind_key b) of
             None \<Rightarrow> False | Some entry \<Rightarrow> patches_ok (be_patches entry)) bs
     then \<exists>steps. ResolveCatalog dep (Some p) bs = Inr steps \<and>
       steps = concat (map (\<lambda>b. entry_steps b (the (map_of (spec_backends (pol_spec p)) (bind_key b)))) bs) \<and>
       distinct (map (\<lambda>s. (rstep_key s, tgt_fieldPath (rstep_target s))) steps)
     else isl (ResolveCatalog dep (Some p) bs))"
proof -
  let ?cat = "spec_backends (pol_spec p)"
  have dist: "distinct (map bind_key bs)" using ParseBindings_wf [OF assms(1)] by simp
  have ok: "list_all (\<lambda>b. case map_of ?cat (bind_key b) of None \<Rightarrow> False | Some entry \<Rightarrow> patches_ok (be_patches entry)) bs
      \<longleftrightarrow> (\<forall>b \<in> set bs. \<exists>entry. map_of ?cat (bind_key b) = Some entry \<and> patches_ok (be_patches entry))"
    by (auto simp: list_all_iff split: option.splits)
  have rc: "ResolveCatalog dep (Some p) bs = ResolveCatalog_loop ?cat bs []"
    using assms(2) by (simp add: ResolveCatalog_def)
  show ?thesis
    unfolding ok rc using ResolveCatalog_loop_spec [of ?cat bs "[]"] concat_steps_distinct [OF dist, of ?cat]
    by (cases "ResolveCatalog_loop ?cat bs []") auto
qed

definition catalog_policy :: EvictionGuardPolicy where
  "catalog_policy = (plain_policy ''p'')\<lparr>pol_spec := (pol_spec (plain_policy ''p''))\<lparr>spec_backends :=
     [(''hpa'', \<lparr>be_apiVersion = ''autoscaling/v2'', be_kind = ''HorizontalPodAutoscaler'',
        be_patches = [\<lparr>bp_path = ''spec.minReplicas'', bp_annotation = []\<rparr>, \<lparr>bp_path = ''spec.maxReplicas'', bp_annotation = []\<rparr>],
        be_skipDownscaling = False, be_defaultWhenUnset = None\<rparr>)]\<rparr>\<rparr>"

theorem ResolveCatalog_steps_witness:
  "\<exists>bs steps. ParseBindings ''hpa'' ''shop'' ''web'' = Inr bs \<and> ResolveCatalog None (Some catalog_policy) bs = Inr steps \<and>
     map (\<lambda>s. tgt_fieldPath (rstep_target s)) steps = [''spec.minReplicas'', ''spec.maxReplicas'']"
proof -
  have parse: "ParseBindings ''hpa'' ''shop'' ''web'' =
      Inr [\<lparr>bind_key = ''hpa'', bind_namespace = ''shop'', bind_name = ''web''\<rparr>]"
    by (simp add: ParseBindings_def splitBinding_def TrimSpace_no_space is_space_def)
  have len: "mlen (spec_backends (pol_spec catalog_policy)) \<noteq> 0"
    by (simp add: catalog_policy_def mlen_def mkeys_def)
  show ?thesis
    using ResolveCatalog_steps [OF parse len, of None] parse
    by (simp add: catalog_policy_def patches_ok_def entry_steps_def binding_step_def)
qed

end
