(* ===== verification/Field_Backend.thy ===== *)
theory Field_Backend
  imports Json_Patch "HOL-Library.Sublist"
begin

text \<open>
  \<open>pkg/backends\<close>: reading and writing the integer capacity field of an arbitrary object
  (\<open>crd.go\<close>, with the package-level helpers of \<open>backend.go\<close>) and its annotations
  (\<open>stamp.go\<close>). Reads are functions of the cluster; writes are handlers. A Go
  \<open>map[string]interface{}\<close> patch is the field list of a \<open>JObject\<close>, filled with
  \<open>AList.update\<close>; \<open>json.Marshal\<close> of such a map does not fail.

  \<open>patch_documented\<close> is what the API server promises about a merge patch, as far as
  the program reads it back; \<open>field_store\<close> is the contract that the planner relies on
  (a patched field reads as written, other fields keep their value).
\<close>


section \<open>Definitions\<close>

definition parseAPIVersionKind :: "env \<Rightarrow> string \<Rightarrow> string \<Rightarrow> goerror + gvk" where
  "parseAPIVersionKind E apiVersion kind =
     (if apiVersion = [] \<or> kind = [] then Inl (ErrorString ''scale target requires apiVersion and kind'')
      else sum_bind (ParseGroupVersion E apiVersion) (\<lambda>(group, version). Inr (group, version, kind)))"

definition splitFieldPath :: "string \<Rightarrow> string list" where
  "splitFieldPath p0 =
     (let p = (if p0 = [] then ''spec.replicas'' else p0) in SplitCh (CHR ''.'') (TrimPrefix p ''.''))"

fun setNested :: "(string \<times> json) list \<Rightarrow> json \<Rightarrow> string list \<Rightarrow> goerror + (string \<times> json) list" where
  "setNested obj value [] = Inl (ErrorString ''empty field path'')"
| "setNested obj value [k] = Inr (AList.update k value obj)"
| "setNested obj value (k # ks) =
     (let next0 = (case map_of obj k of Some (JObject fs) \<Rightarrow> fs | _ \<Rightarrow> [])
      in sum_bind (setNested next0 value ks) (\<lambda>next. Inr (AList.update k (JObject next) obj)))"

text \<open>\<open>fieldBackend.get\<close>, with the group-version-kind that the object carries.\<close>

definition fb_get :: "env \<Rightarrow> 'w client \<Rightarrow> 'w \<Rightarrow> Target \<Rightarrow> goerror + gvk \<times> json \<times> string list" where
  "fb_get E c w t =
     sum_bind (parseAPIVersionKind E (tgt_apiVersion t) (tgt_kind t)) (\<lambda>gvk.
       case Get_Unstructured c w gvk (tgt_namespace t) (tgt_name t) of
         Inl e \<Rightarrow> Inl (WrapError (''get '' @ gvk_String E gvk @ '' '' @ ObjectKey t @ '': '') e [])
       | Inr obj \<Rightarrow> Inr (gvk, obj, splitFieldPath (tgt_fieldPath t)))"

definition knownDefaultOne :: "string \<Rightarrow> string \<Rightarrow> bool" where
  "knownDefaultOne apiVersion kind =
     (if kind = ''Deployment'' then apiVersion = ''apps/v1''
      else if kind = ''HorizontalPodAutoscaler'' then apiVersion = ''autoscaling/v1'' \<or> apiVersion = ''autoscaling/v2''
      else False)"

definition defaultWhenPathUnset :: "Target \<Rightarrow> goerror + int" where
  "defaultWhenPathUnset t =
     (case tgt_defaultWhenUnset t of
        Some d \<Rightarrow> Inr d
      | None \<Rightarrow>
          if knownDefaultOne (tgt_apiVersion t) (tgt_kind t) then Inr 1
          else Inl (ErrorString (tgt_kind t @ '' '' @ ObjectKey t @ '' path '' @ quote (tgt_fieldPath t) @
            '' unset: set backends[].defaultWhenUnset (known Deployment/HPA default to 1)'')))"

definition int64ToInt32 :: "int \<Rightarrow> Target \<Rightarrow> goerror + int" where
  "int64ToInt32 v t =
     (if v < - (2 ^ 31) \<or> v > 2 ^ 31 - 1
      then Inl (ErrorString (tgt_kind t @ '' '' @ ObjectKey t @ '' path '' @ quote (tgt_fieldPath t) @
        '' value '' @ FormatInt v @ '' out of int32 range''))
      else Inr (int32 v))"

definition Current :: "env \<Rightarrow> 'w client \<Rightarrow> 'w \<Rightarrow> Target \<Rightarrow> goerror + int" where
  "Current E c w t =
     sum_bind (fb_get E c w t) (\<lambda>(gvk, obj, path).
     sum_bind (NestedInt64 E obj path) (\<lambda>v.
       case v of None \<Rightarrow> defaultWhenPathUnset t | Some i \<Rightarrow> int64ToInt32 i t))"

text \<open>The test \<open>cur, has, _ := NestedInt64(...); has \<and> int32(cur) == desired\<close>.\<close>

definition already :: "env \<Rightarrow> json \<Rightarrow> string list \<Rightarrow> int \<Rightarrow> bool" where
  "already E obj parts desired =
     (case NestedInt64 E obj parts of Inr (Some cur) \<Rightarrow> int32 cur = desired | _ \<Rightarrow> False)"

definition raw_patch ::
  "env \<Rightarrow> 'w client \<Rightarrow> string \<Rightarrow> gvk \<Rightarrow> Target \<Rightarrow> (string \<times> json) list \<Rightarrow> ('w, unit) fallible" where
  "raw_patch E c verb gvk t patch =
     State_Monad.bind (mutate (Patch_Unstructured c gvk (tgt_namespace t) (tgt_name t) (JObject patch))) (\<lambda>r.
       case r of
         Inl e \<Rightarrow> fail (WrapError (verb @ '' '' @ gvk_String E gvk @ '' '' @ ObjectKey t @ '': '') e [])
       | Inr _ \<Rightarrow> ok ())"

definition fb_patch :: "env \<Rightarrow> 'w client \<Rightarrow> Target \<Rightarrow> int \<Rightarrow> ('w, unit) fallible" where
  "fb_patch E c t desired =
     and_then (query (\<lambda>w. fb_get E c w t)) (\<lambda>(gvk, obj, path).
       if already E obj path desired then ok ()
       else case setNested [] (JInt desired) path of
         Inl e \<Rightarrow> fail e
       | Inr patch \<Rightarrow> raw_patch E c ''patch'' gvk t patch)"

definition ScaleUp :: "env \<Rightarrow> 'w client \<Rightarrow> Target \<Rightarrow> int \<Rightarrow> ('w, unit) fallible" where
  "ScaleUp E c t desired = fb_patch E c t desired"

definition ScaleDown :: "env \<Rightarrow> 'w client \<Rightarrow> Target \<Rightarrow> int \<Rightarrow> ('w, unit) fallible" where
  "ScaleDown E c t baseline = fb_patch E c t baseline"

fun PatchIntegers_loop ::
  "env \<Rightarrow> json \<Rightarrow> (string, int) gomap \<Rightarrow> string list \<Rightarrow> bool \<Rightarrow> (string \<times> json) list \<Rightarrow>
   goerror + bool \<times> (string \<times> json) list" where
  "PatchIntegers_loop E obj values [] need patch = Inr (need, patch)"
| "PatchIntegers_loop E obj values (path # paths) need patch =
     (case map_of values path of
        None \<Rightarrow> PatchIntegers_loop E obj values paths need patch
      | Some desired \<Rightarrow>
          if already E obj (splitFieldPath path) desired then PatchIntegers_loop E obj values paths need patch
          else sum_bind (setNested patch (JInt desired) (splitFieldPath path)) (\<lambda>patch'.
            PatchIntegers_loop E obj values paths True patch'))"

definition PatchIntegers ::
  "env \<Rightarrow> 'w client \<Rightarrow> Target \<Rightarrow> string list \<Rightarrow> (string, int) gomap \<Rightarrow> ('w, unit) fallible" where
  "PatchIntegers E c base paths values =
     (if length paths = 0 then ok ()
      else and_then (query (\<lambda>w. fb_get E c w base)) (\<lambda>(gvk, obj, _).
        case PatchIntegers_loop E obj values paths False [] of
          Inl e \<Rightarrow> fail e
        | Inr (need, patch) \<Rightarrow>
            if \<not> need then ok () else raw_patch E c ''patch'' gvk base patch))"

fun annotationPatch_loop :: "strmap \<Rightarrow> strmap \<Rightarrow> (string \<times> json) list \<Rightarrow> (string \<times> json) list" where
  "annotationPatch_loop existing [] out = out"
| "annotationPatch_loop existing ((k, v) # want) out =
     (if v = [] then
        (if mhas existing k then annotationPatch_loop existing want (AList.update k JNull out)
         else annotationPatch_loop existing want out)
      else if mget existing k \<noteq> v then annotationPatch_loop existing want (AList.update k (JString v) out)
      else annotationPatch_loop existing want out)"

definition annotationPatch :: "env \<Rightarrow> json \<Rightarrow> strmap \<Rightarrow> (string \<times> json) list" where
  "annotationPatch E obj want =
     (if length want = 0 then []
      else annotationPatch_loop (NestedStringMap E obj [''metadata'', ''annotations'']) want [])"

definition PatchAnnotations :: "env \<Rightarrow> 'w client \<Rightarrow> Target \<Rightarrow> strmap \<Rightarrow> ('w, unit) fallible" where
  "PatchAnnotations E c t anns =
     (if length anns = 0 then ok ()
      else case parseAPIVersionKind E (tgt_apiVersion t) (tgt_kind t) of
        Inl e \<Rightarrow> fail e
      | Inr gvk \<Rightarrow>
          State_Monad.bind (query (\<lambda>w. Get_Unstructured c w gvk (tgt_namespace t) (tgt_name t))) (\<lambda>r.
            case r of
              Inl e \<Rightarrow> fail (WrapError (''get '' @ gvk_String E gvk @ '' '' @ ObjectKey t @ '': '') e [])
            | Inr obj \<Rightarrow>
                (let patchAnns = annotationPatch E obj anns in
                 if length patchAnns = 0 then ok ()
                 else raw_patch E c ''stamp'' gvk t [(''metadata'', JObject [(''annotations'', JObject patchAnns)])])))"

definition StampDeletes :: "string list \<Rightarrow> strmap" where
  "StampDeletes keys = (if length keys = 0 then [] else fold (\<lambda>k out. AList.update k [] out) keys [])"


section \<open>Documented behaviour of the API server\<close>

text \<open>
  A successful merge patch is read back: integers below \<open>spec\<close> and annotations of the
  merged document are found in the stored object (the server may add defaults and its own
  metadata), and no object of another group, kind or name changes (the versions of one
  group are views of the same object).
\<close>

definition patch_documented :: "'w client \<Rightarrow> bool" where
  "patch_documented c \<longleftrightarrow>
     (\<forall>g ns n patch w obj w'. Patch_Unstructured c g ns n patch w = (Inr (), w') \<longrightarrow>
        Get_Unstructured c w g ns n = Inr obj \<longrightarrow>
        (\<exists>obj'. Get_Unstructured c w' g ns n = Inr obj' \<and>
           (\<forall>ks i. json_at (merge_patch obj patch) (''spec'' # ks) = Some (JInt i) \<longrightarrow>
              json_at obj' (''spec'' # ks) = Some (JInt i)) \<and>
           (\<forall>k. json_at obj' [''metadata'', ''annotations'', k] =
              json_at (merge_patch obj patch) [''metadata'', ''annotations'', k])) \<and>
        (\<forall>g' ns' n'. (fst g', snd (snd g'), ns', n') \<noteq> (fst g, snd (snd g), ns, n) \<longrightarrow>
           Get_Unstructured c w' g' ns' n' = Get_Unstructured c w g' ns' n'))"


lemma patch_documented_other:
  assumes "patch_documented c" and "Patch_Unstructured c g ns n patch w = (Inr (), w')"
    and "Get_Unstructured c w g ns n = Inr obj" and "(fst g', snd (snd g'), ns', n') \<noteq> (fst g, snd (snd g), ns, n)"
  shows "Get_Unstructured c w' g' ns' n' = Get_Unstructured c w g' ns' n'"
  using assms(1) [unfolded patch_documented_def, rule_format, OF assms(2,3)] assms(4)
  by (simp del: split_paired_All)


section \<open>Lemmas on patches\<close>

lemma splitFieldPath_not_Nil [simp]: "splitFieldPath p \<noteq> []"
  by (simp add: splitFieldPath_def Let_def)

lemma setNested_total: "ks \<noteq> [] \<Longrightarrow> \<exists>p. setNested obj v ks = Inr p"
  by (induction obj v ks rule: setNested.induct) (auto simp: Let_def)

definition nested_fields :: "(string \<times> json) list \<Rightarrow> string \<Rightarrow> (string \<times> json) list" where
  "nested_fields obj k = (case map_of obj k of Some (JObject fs) \<Rightarrow> fs | _ \<Rightarrow> [])"

lemma setNested_Cons:
  assumes "ks \<noteq> []"
  shows "setNested obj v (k # ks) =
     sum_bind (setNested (nested_fields obj k) v ks) (\<lambda>next. Inr (AList.update k (JObject next) obj))"
  using assms by (cases ks) (simp_all add: nested_fields_def Let_def)

lemma setNested_induct [consumes 1, case_names single nested]:
  assumes "setNested obj v ks = Inr p"
    and "\<And>obj k. P obj [k] (AList.update k v obj)"
    and "\<And>obj k ks fs. ks \<noteq> [] \<Longrightarrow> P (nested_fields obj k) ks fs \<Longrightarrow> P obj (k # ks) (AList.update k (JObject fs) obj)"
  shows "P obj ks p"
  using assms(1)
proof (induction ks arbitrary: obj p)
  case (Cons k ks)
  show ?case
  proof (cases "ks = []")
    case True
    with Cons.prems assms(2) show ?thesis by auto
  next
    case False
    with Cons.prems obtain fs where "setNested (nested_fields obj k) v ks = Inr fs"
      and "p = AList.update k (JObject fs) obj"
      by (auto simp: setNested_Cons sum_bind_eq_Inr_iff)
    with False Cons.IH assms(3) show ?thesis by blast
  qed
qed simp

lemma nested_fields_wf:
  assumes "json_wf (JObject obj)"
  shows "json_wf (JObject (nested_fields obj k))"
proof (cases "map_of obj k")
  case (Some x)
  from map_of_SomeD [OF Some] assms have "json_wf x" by (auto simp: list_all_iff)
  with Some show ?thesis by (cases x) (simp_all add: nested_fields_def)
qed (simp add: nested_fields_def)

lemma set_update_subset: "set (AList.update k v obj) \<subseteq> insert (k, v) (set obj)"
  by (induction obj) auto

lemma json_wf_update: "json_wf (JObject obj) \<Longrightarrow> json_wf v \<Longrightarrow> json_wf (JObject (AList.update k v obj))"
  using set_update_subset [of k v obj] by (auto simp: list_all_iff distinct_update)

text \<open>After \<open>setNested\<close> the path reads as written and incomparable paths are not touched.\<close>

lemma setNested_at: "setNested obj v ks = Inr p \<Longrightarrow> json_at (JObject p) ks = Some v"
  by (induction rule: setNested_induct) (simp_all add: update_conv)

lemma setNested_wf:
  assumes "setNested obj v ks = Inr p"
  shows "json_wf (JObject obj) \<Longrightarrow> json_wf v \<Longrightarrow> json_wf (JObject p)"
  using assms
  by (induction rule: setNested_induct) (auto intro!: json_wf_update nested_fields_wf simp del: json_wf.simps(1))

lemma parallel_Cons_iff:
  "parallel (k # ks) (l # ls) \<longleftrightarrow> k \<noteq> l \<or> parallel ks ls"
  by (auto simp: parallel_def)

lemma parallel_Nil [simp]: "\<not> parallel [] ls" "\<not> parallel ls []"
  by (auto simp: parallel_def)

lemma patch_misses_nested:
  assumes "patch_misses (JObject obj) (k # ls)" and "ls \<noteq> []"
  shows "patch_misses (JObject (nested_fields obj k)) ls"
proof (cases "map_of obj k")
  case None
  with assms show ?thesis by (cases ls) (simp_all add: nested_fields_def)
next
  case (Some x)
  with assms show ?thesis by (cases x; cases ls) (auto simp: nested_fields_def)
qed

lemma setNested_misses:
  assumes "setNested obj v ks = Inr p"
  shows "parallel ks ls \<Longrightarrow> patch_misses (JObject obj) ls \<Longrightarrow> patch_misses (JObject p) ls"
  using assms
proof (induction arbitrary: ls rule: setNested_induct)
  case (single obj k)
  then show ?case by (cases ls) (auto simp: parallel_Cons_iff update_conv)
next
  case (nested obj k ks fs)
  then obtain l ls' where ls: "ls = l # ls'" by (cases ls) auto
  show ?case
  proof (cases "l = k")
    case True
    with nested.prems ls have par: "parallel ks ls'" by (simp add: parallel_Cons_iff)
    then have "ls' \<noteq> []" by auto
    with True nested ls par have "patch_misses (JObject fs) ls'"
      using patch_misses_nested by blast
    with True ls show ?thesis by (simp add: update_conv)
  next
    case False
    with nested.prems ls show ?thesis by (simp add: update_conv)
  qed
qed

lemma setNested_other:
  assumes "setNested obj v ks = Inr p"
  shows "parallel ks ls \<Longrightarrow> json_at (JObject obj) ls = Some (JInt i) \<Longrightarrow> json_at (JObject p) ls = Some (JInt i)"
  using assms
proof (induction arbitrary: ls rule: setNested_induct)
  case (single obj k)
  then show ?case by (cases ls) (auto simp: parallel_Cons_iff update_conv)
next
  case (nested obj k ks fs)
  then obtain l ls' where ls: "ls = l # ls'" by (cases ls) auto
  show ?case
  proof (cases "l = k")
    case True
    with nested.prems ls have par: "parallel ks ls'" by (simp add: parallel_Cons_iff)
    then have "ls' \<noteq> []" by auto
    with nested.prems ls True have "json_at (JObject (nested_fields obj k)) ls' = Some (JInt i)"
      by (cases ls') (auto simp: nested_fields_def split: option.splits json.splits elim!: json_at.elims)
    with nested.IH [OF par] True ls show ?thesis by (simp add: update_conv)
  next
    case False
    with nested.prems ls show ?thesis by (simp add: update_conv)
  qed
qed


text \<open>The value that \<open>PatchIntegers\<close> writes at a path, if it writes it.\<close>

definition to_write :: "env \<Rightarrow> json \<Rightarrow> (string, int) gomap \<Rightarrow> string \<Rightarrow> int option" where
  "to_write E obj values path =
     (case map_of values path of
        None \<Rightarrow> None
      | Some d \<Rightarrow> if already E obj (splitFieldPath path) d then None else Some d)"

definition paths_apart :: "string set \<Rightarrow> bool" where
  "paths_apart P \<longleftrightarrow> (\<forall>p \<in> P. \<forall>q \<in> P. p \<noteq> q \<longrightarrow> parallel (splitFieldPath p) (splitFieldPath q))"

definition patch_inv :: "env \<Rightarrow> json \<Rightarrow> (string, int) gomap \<Rightarrow> string set \<Rightarrow> (string \<times> json) list \<Rightarrow> bool" where
  "patch_inv E obj values done patch \<longleftrightarrow>
     json_wf (JObject patch) \<and>
     (\<forall>p \<in> done. \<forall>d. to_write E obj values p = Some d \<longrightarrow> json_at (JObject patch) (splitFieldPath p) = Some (JInt d)) \<and>
     (\<forall>ls. ls \<noteq> [] \<longrightarrow> (\<forall>p \<in> done. to_write E obj values p \<noteq> None \<longrightarrow> parallel (splitFieldPath p) ls) \<longrightarrow>
        patch_misses (JObject patch) ls)"

lemma patch_inv_empty: "patch_inv E obj values {} []"
  unfolding patch_inv_def by (auto simp: neq_Nil_conv)

lemma patch_inv_misses:
  assumes "patch_inv E obj values done patch" and "ls \<noteq> []"
    and "\<And>p. p \<in> done \<Longrightarrow> to_write E obj values p \<noteq> None \<Longrightarrow> parallel (splitFieldPath p) ls"
  shows "patch_misses (JObject patch) ls"
  using assms unfolding patch_inv_def by blast

lemma patch_inv_skip:
  assumes "patch_inv E obj values done patch" and "to_write E obj values p = None"
  shows "patch_inv E obj values (insert p done) patch"
  using assms unfolding patch_inv_def by auto

lemma patch_inv_set:
  assumes inv: "patch_inv E obj values done patch" and d: "to_write E obj values p = Some d"
    and set: "setNested patch (JInt d) (splitFieldPath p) = Inr patch'"
    and apart: "paths_apart (insert p done)"
  shows "patch_inv E obj values (insert p done) patch'"
  unfolding patch_inv_def
proof (intro conjI ballI allI impI)
  show "json_wf (JObject patch')" using setNested_wf [OF set] inv by (simp add: patch_inv_def)
next
  fix q e
  assume q: "q \<in> insert p done" and e: "to_write E obj values q = Some e"
  show "json_at (JObject patch') (splitFieldPath q) = Some (JInt e)"
  proof (cases "q = p")
    case True
    with d e setNested_at [OF set] show ?thesis by simp
  next
    case False
    with q apart have "parallel (splitFieldPath p) (splitFieldPath q)" by (auto simp: paths_apart_def)
    moreover have "json_at (JObject patch) (splitFieldPath q) = Some (JInt e)"
      using inv False q e by (auto simp: patch_inv_def)
    ultimately show ?thesis by (rule setNested_other [OF set])
  qed
next
  fix ls
  assume "ls \<noteq> []" and par: "\<forall>q \<in> insert p done. to_write E obj values q \<noteq> None \<longrightarrow> parallel (splitFieldPath q) ls"
  then have "patch_misses (JObject patch) ls" using inv by (auto simp: patch_inv_def)
  with par d show "patch_misses (JObject patch') ls" by (intro setNested_misses [OF set]) auto
qed

lemma PatchIntegers_loop_spec:
  assumes "patch_inv E obj values done patch" and "paths_apart (done \<union> set paths)"
  shows "\<exists>patch'. PatchIntegers_loop E obj values paths need patch =
       Inr (need \<or> (\<exists>p \<in> set paths. to_write E obj values p \<noteq> None), patch')
     \<and> patch_inv E obj values (done \<union> set paths) patch'"
  using assms
proof (induction paths arbitrary: "done" need patch)
  case (Cons p paths)
  have apart: "paths_apart (insert p done \<union> set paths)" using Cons.prems(2) by simp
  show ?case
  proof (cases "to_write E obj values p")
    case None
    then have "PatchIntegers_loop E obj values (p # paths) need patch = PatchIntegers_loop E obj values paths need patch"
      by (auto simp: to_write_def split: option.splits if_splits)
    with Cons.IH [OF patch_inv_skip [OF Cons.prems(1) None] apart, of need] None show ?thesis by simp
  next
    case (Some d)
    obtain patch1 where set: "setNested patch (JInt d) (splitFieldPath p) = Inr patch1"
      using setNested_total [of "splitFieldPath p"] by fastforce
    have "paths_apart (insert p done)" using Cons.prems(2) by (auto simp: paths_apart_def)
    then have inv: "patch_inv E obj values (insert p done) patch1"
      using patch_inv_set [OF Cons.prems(1) Some set] by simp
    have "PatchIntegers_loop E obj values (p # paths) need patch = PatchIntegers_loop E obj values paths True patch1"
      using Some set by (auto simp: to_write_def split: option.splits if_splits)
    with Cons.IH [OF inv apart, of True] Some show ?thesis by simp
  qed
qed simp


section \<open>Reading back\<close>

text \<open>The integer stored at the field of a target, when there is one that fits an int32.\<close>

definition field_value :: "env \<Rightarrow> 'w client \<Rightarrow> 'w \<Rightarrow> Target \<Rightarrow> int option" where
  "field_value E c w t =
     (case fb_get E c w t of
        Inl _ \<Rightarrow> None
      | Inr (gvk, obj, path) \<Rightarrow>
          (case NestedInt64 E obj path of Inr (Some i) \<Rightarrow> if in_int32 i then Some i else None | _ \<Rightarrow> None))"

lemma fb_get_iff:
  "fb_get E c w t = Inr (gvk, obj, path) \<longleftrightarrow>
     parseAPIVersionKind E (tgt_apiVersion t) (tgt_kind t) = Inr gvk \<and>
     Get_Unstructured c w gvk (tgt_namespace t) (tgt_name t) = Inr obj \<and> path = splitFieldPath (tgt_fieldPath t)"
proof (cases "parseAPIVersionKind E (tgt_apiVersion t) (tgt_kind t)")
  case (Inr g)
  then show ?thesis
    by (cases "Get_Unstructured c w g (tgt_namespace t) (tgt_name t)") (auto simp: fb_get_def)
qed (simp add: fb_get_def)

lemma parse_kind: "parseAPIVersionKind E av k = Inr gvk \<Longrightarrow> snd (snd gvk) = k"
  by (auto simp: parseAPIVersionKind_def sum_bind_eq_Inr_iff split: if_splits)

lemma int64ToInt32_ok: "int64ToInt32 i t = Inr v \<longleftrightarrow> in_int32 i \<and> v = i"
  by (auto simp: int64ToInt32_def in_int32_def int32_id)

lemma Current_field_value: "field_value E c w t = Some i \<Longrightarrow> Current E c w t = Inr i"
  by (auto simp: field_value_def Current_def int64ToInt32_ok split: sum.splits option.splits if_splits)

lemma nested_int_iff: "nested_documented E \<Longrightarrow> NestedInt64 E j path = Inr (Some i) \<longleftrightarrow> json_at j path = Some (JInt i)"
  by (simp add: nested_documented_def)

lemma field_value_iff:
  assumes "nested_documented E"
  shows "field_value E c w t = Some i \<longleftrightarrow>
     (\<exists>gvk obj path. fb_get E c w t = Inr (gvk, obj, path) \<and> json_at obj path = Some (JInt i) \<and> in_int32 i)"
  unfolding nested_int_iff [OF assms, symmetric]
  by (auto simp: field_value_def split: sum.splits option.splits if_splits prod.splits)

lemma field_valueI:
  "nested_documented E \<Longrightarrow> fb_get E c w t = Inr (gvk, obj, path) \<Longrightarrow> json_at obj path = Some (JInt i) \<Longrightarrow>
     in_int32 i \<Longrightarrow> field_value E c w t = Some i"
  using field_value_iff [of E c w t i] by blast

text \<open>\<open>Current\<close> never reads a value outside int32, and fails on a stored one.\<close>

lemma Current_in_range:
  assumes "Current E c w t = Inr i" and "\<And>d. tgt_defaultWhenUnset t = Some d \<Longrightarrow> in_int32 d"
  shows "in_int32 i"
proof -
  have "in_int32 d" if "defaultWhenPathUnset t = Inr d" for d
    using that assms(2) by (auto simp: defaultWhenPathUnset_def in_int32_def split: option.splits if_splits)
  with assms(1) show ?thesis
    by (auto simp: Current_def sum_bind_eq_Inr_iff int64ToInt32_ok split: option.splits)
qed

text \<open>Two targets on the same object and two targets on different objects.\<close>

definition same_object :: "Target \<Rightarrow> Target \<Rightarrow> bool" where
  "same_object t u \<longleftrightarrow> tgt_apiVersion t = tgt_apiVersion u \<and> tgt_kind t = tgt_kind u \<and>
     tgt_namespace t = tgt_namespace u \<and> tgt_name t = tgt_name u"

definition other_object :: "Target \<Rightarrow> Target \<Rightarrow> bool" where
  "other_object t u \<longleftrightarrow> tgt_kind t \<noteq> tgt_kind u \<or> tgt_namespace t \<noteq> tgt_namespace u \<or> tgt_name t \<noteq> tgt_name u"

definition under_spec :: "string \<Rightarrow> bool" where
  "under_spec path \<longleftrightarrow> hd (splitFieldPath path) = ''spec''"

lemma fb_get_same_object:
  assumes "same_object t u" and "fb_get E c w t = Inr (gvk, obj, path)"
  shows "fb_get E c w u = Inr (gvk, obj, splitFieldPath (tgt_fieldPath u))"
  using assms by (simp add: fb_get_iff same_object_def)

lemma raw_patch_ok:
  assumes "run_state (raw_patch E c verb gvk t patch) s = (Inr (), s')"
  shows "Patch_Unstructured c gvk (tgt_namespace t) (tgt_name t) (JObject patch) (cluster s) = (Inr (), cluster s')"
  using assms
  by (cases "Patch_Unstructured c gvk (tgt_namespace t) (tgt_name t) (JObject patch) (cluster s)")
    (auto simp: raw_patch_def split: sum.splits)

lemma patch_other_object:
  assumes doc: "patch_documented c" and other: "other_object t u"
    and get: "fb_get E c w t = Inr (gvk, obj, path)"
    and patch: "Patch_Unstructured c gvk (tgt_namespace t) (tgt_name t) p w = (Inr (), w')"
  shows "field_value E c w' u = field_value E c w u"
proof -
  have g: "Get_Unstructured c w gvk (tgt_namespace t) (tgt_name t) = Inr obj" and k: "snd (snd gvk) = tgt_kind t"
    using get by (auto simp: fb_get_iff dest: parse_kind)
  have "Get_Unstructured c w' g' (tgt_namespace u) (tgt_name u) = Get_Unstructured c w g' (tgt_namespace u) (tgt_name u)"
    if "snd (snd g') = tgt_kind u" for g'
    using patch_documented_other [OF doc patch g, of g' "tgt_namespace u" "tgt_name u"] that other k
    by (auto simp: other_object_def)
  then have "fb_get E c w' u = fb_get E c w u"
    by (cases "parseAPIVersionKind E (tgt_apiVersion u) (tgt_kind u)") (simp_all add: fb_get_def parse_kind)
  then show ?thesis by (simp add: field_value_def)
qed

lemma patch_same_object:
  assumes E: "nested_documented E" and doc: "patch_documented c" and same: "same_object t u"
    and get: "fb_get E c w t = Inr (gvk, obj, path)"
    and patch: "Patch_Unstructured c gvk (tgt_namespace t) (tgt_name t) p w = (Inr (), w')"
    and spec: "under_spec (tgt_fieldPath u)"
    and at: "json_at (merge_patch obj p) (splitFieldPath (tgt_fieldPath u)) = Some (JInt i)" and "in_int32 i"
  shows "field_value E c w' u = Some i"
proof -
  have g: "Get_Unstructured c w gvk (tgt_namespace t) (tgt_name t) = Inr obj"
    and pk: "parseAPIVersionKind E (tgt_apiVersion u) (tgt_kind u) = Inr gvk"
    using get same by (simp_all add: fb_get_iff same_object_def)
  obtain ks where ks: "splitFieldPath (tgt_fieldPath u) = ''spec'' # ks"
    using spec by (cases "splitFieldPath (tgt_fieldPath u)") (auto simp: under_spec_def)
  obtain obj' where "Get_Unstructured c w' gvk (tgt_namespace t) (tgt_name t) = Inr obj'"
    and "json_at obj' (''spec'' # ks) = Some (JInt i)"
    using doc patch g at unfolding patch_documented_def ks by blast
  with pk same ks \<open>in_int32 i\<close> show ?thesis
    by (auto simp: field_value_iff [OF E] fb_get_iff same_object_def)
qed

text \<open>What a patch that writes only the paths \<open>P\<close> leaves alone.\<close>

lemma patch_keeps:
  assumes E: "nested_documented E" and doc: "patch_documented c" and wf: "json_wf (JObject p)"
    and get: "fb_get E c w t = Inr (gvk, obj, path)"
    and patch: "Patch_Unstructured c gvk (tgt_namespace t) (tgt_name t) (JObject p) w = (Inr (), w')"
    and spec: "under_spec (tgt_fieldPath u)"
    and apart: "other_object t u \<or> same_object t u \<and> patch_misses (JObject p) (splitFieldPath (tgt_fieldPath u))"
    and val: "field_value E c w u = Some i"
  shows "field_value E c w' u = Some i"
proof (cases "other_object t u")
  case True
  with val patch_other_object [OF doc _ get patch] show ?thesis by simp
next
  case False
  with apart have same: "same_object t u" and miss: "patch_misses (JObject p) (splitFieldPath (tgt_fieldPath u))"
    by auto
  have "json_at obj (splitFieldPath (tgt_fieldPath u)) = Some (JInt i)" and i: "in_int32 i"
    using val fb_get_same_object [OF same get] by (auto simp: field_value_iff [OF E])
  then have "json_at (merge_patch obj (JObject p)) (splitFieldPath (tgt_fieldPath u)) = Some (JInt i)"
    using merge_patch_frame [OF wf miss, of obj] by simp
  then show ?thesis using patch_same_object [OF E doc same get patch spec _ i] by simp
qed

text \<open>\<open>PatchIntegers\<close> writes what it is asked to write and nothing else.\<close>

lemma PatchIntegers_cases:
  assumes run: "run_state (PatchIntegers E c base paths values) s = (Inr (), s')"
    and apart: "paths_apart (set paths)" and ne: "paths \<noteq> []"
  obtains gvk obj path patch where "fb_get E c (cluster s) base = Inr (gvk, obj, path)"
    and "patch_inv E obj values (set paths) patch"
    and "if \<exists>p \<in> set paths. to_write E obj values p \<noteq> None
         then Patch_Unstructured c gvk (tgt_namespace base) (tgt_name base) (JObject patch) (cluster s) = (Inr (), cluster s')
         else s' = s"
proof -
  obtain gvk obj path where get: "fb_get E c (cluster s) base = Inr (gvk, obj, path)"
    using run ne by (cases "fb_get E c (cluster s) base") (auto simp: PatchIntegers_def run_and_then)
  obtain patch where loop: "PatchIntegers_loop E obj values paths False [] =
      Inr (\<exists>p \<in> set paths. to_write E obj values p \<noteq> None, patch)"
    and inv: "patch_inv E obj values (set paths) patch"
    using PatchIntegers_loop_spec [OF patch_inv_empty, of paths E obj "values" False] apart by auto
  have "run_state (PatchIntegers E c base paths values) s =
      (if \<exists>p \<in> set paths. to_write E obj values p \<noteq> None then run_state (raw_patch E c ''patch'' gvk base patch) s
       else (Inr (), s))"
    using get loop ne by (simp add: PatchIntegers_def run_and_then)
  with run raw_patch_ok [of E c] have "if \<exists>p \<in> set paths. to_write E obj values p \<noteq> None
      then Patch_Unstructured c gvk (tgt_namespace base) (tgt_name base) (JObject patch) (cluster s) = (Inr (), cluster s')
      else s' = s"
    by (auto split: if_splits)
  with get inv that show ?thesis by blast
qed

lemma PatchIntegers_writes:
  assumes E: "nested_documented E" and doc: "patch_documented c"
    and run: "run_state (PatchIntegers E c base paths values) s = (Inr (), s')"
    and apart: "paths_apart (set paths)" and spec: "under_spec path"
    and path: "path \<in> set paths" and d: "map_of values path = Some d" "in_int32 d"
    and u: "same_object base u" "tgt_fieldPath u = path"
    and cur: "Current E c (cluster s) u = Inr v"
  shows "field_value E c (cluster s') u = Some d"
proof -
  have "paths \<noteq> []" using path by auto
  then obtain gvk obj path0 patch where get: "fb_get E c (cluster s) base = Inr (gvk, obj, path0)"
    and inv: "patch_inv E obj values (set paths) patch"
    and eff: "if \<exists>p \<in> set paths. to_write E obj values p \<noteq> None
         then Patch_Unstructured c gvk (tgt_namespace base) (tgt_name base) (JObject patch) (cluster s) = (Inr (), cluster s')
         else s' = s"
    using PatchIntegers_cases [OF run apart] by metis
  have getu: "fb_get E c (cluster s) u = Inr (gvk, obj, splitFieldPath path)"
    using fb_get_same_object [OF u(1) get] u(2) by simp
  show ?thesis
  proof (cases "to_write E obj values path")
    case None
    with d have "already E obj (splitFieldPath path) d" by (auto simp: to_write_def split: if_splits)
    then obtain i where i: "NestedInt64 E obj (splitFieldPath path) = Inr (Some i)" "int32 i = d"
      by (auto simp: already_def split: sum.splits option.splits)
    with cur getu have "in_int32 i" by (auto simp: Current_def int64ToInt32_ok)
    with i have at: "json_at obj (splitFieldPath path) = Some (JInt d)" by (simp add: nested_int_iff [OF E] int32_id)
    have val: "field_value E c (cluster s) u = Some d" by (rule field_valueI [OF E getu at d(2)])
    show ?thesis
    proof (cases "\<exists>p \<in> set paths. to_write E obj values p \<noteq> None")
      case True
      have "patch_misses (JObject patch) (splitFieldPath path)"
        using apart path None by (intro patch_inv_misses [OF inv]) (simp, metis paths_apart_def)
      moreover have "json_wf (JObject patch)" using inv by (simp add: patch_inv_def)
      ultimately show ?thesis
        using patch_keeps [OF E doc _ get _ _ _ val, of patch "cluster s'"] True eff u spec by auto
    next
      case False
      with eff val show ?thesis by simp
    qed
  next
    case (Some e)
    then have "e = d" using d by (auto simp: to_write_def split: if_splits)
    with Some inv path have "json_at (JObject patch) (splitFieldPath path) = Some (JInt d)" and "json_wf (JObject patch)"
      by (auto simp: patch_inv_def)
    then have "json_at (merge_patch obj (JObject patch)) (splitFieldPath path) = Some (JInt d)"
      by (intro merge_patch_at_leaf) auto
    moreover have "\<exists>p \<in> set paths. to_write E obj values p \<noteq> None" using Some path by auto
    ultimately show ?thesis
      using patch_same_object [OF E doc u(1) get] eff spec d(2) u(2) by auto
  qed
qed

lemma PatchIntegers_keeps:
  assumes E: "nested_documented E" and doc: "patch_documented c"
    and run: "run_state (PatchIntegers E c base paths values) s = (Inr (), s')"
    and apart: "paths_apart (set paths)" and spec: "under_spec (tgt_fieldPath u)"
    and other: "other_object base u \<or> same_object base u \<and>
       (\<forall>p \<in> set paths. map_of values p \<noteq> None \<longrightarrow> parallel (splitFieldPath p) (splitFieldPath (tgt_fieldPath u)))"
    and val: "field_value E c (cluster s) u = Some i"
  shows "field_value E c (cluster s') u = Some i"
proof (cases "paths = []")
  case True
  with run val show ?thesis by (simp add: PatchIntegers_def)
next
  case False
  then obtain gvk obj path patch where get: "fb_get E c (cluster s) base = Inr (gvk, obj, path)"
    and inv: "patch_inv E obj values (set paths) patch"
    and eff: "if \<exists>p \<in> set paths. to_write E obj values p \<noteq> None
         then Patch_Unstructured c gvk (tgt_namespace base) (tgt_name base) (JObject patch) (cluster s) = (Inr (), cluster s')
         else s' = s"
    using PatchIntegers_cases [OF run apart] by metis
  have "patch_misses (JObject patch) (splitFieldPath (tgt_fieldPath u))"
    if "\<forall>p \<in> set paths. map_of values p \<noteq> None \<longrightarrow> parallel (splitFieldPath p) (splitFieldPath (tgt_fieldPath u))"
    using inv that by (auto simp: patch_inv_def to_write_def split: option.splits)
  then have "other_object base u \<or> same_object base u \<and> patch_misses (JObject patch) (splitFieldPath (tgt_fieldPath u))"
    using other by auto
  moreover have "json_wf (JObject patch)" using inv by (simp add: patch_inv_def)
  ultimately show ?thesis
    using patch_keeps [OF E doc _ get _ spec _ val, of patch "cluster s'"] eff val by (auto split: if_splits)
qed

text \<open>The one-field write is the one-path case of \<open>PatchIntegers\<close>.\<close>

lemma fb_patch_PatchIntegers:
  "run_state (fb_patch E c t d) s = run_state (PatchIntegers E c t [tgt_fieldPath t] [(tgt_fieldPath t, d)]) s"
proof (cases "fb_get E c (cluster s) t")
  case (Inl e)
  then show ?thesis by (simp add: fb_patch_def PatchIntegers_def run_and_then)
next
  case (Inr x)
  obtain gvk obj path where x: "x = (gvk, obj, path)" by (cases x)
  with Inr have path: "path = splitFieldPath (tgt_fieldPath t)" by (simp add: fb_get_iff)
  show ?thesis
    using Inr x path setNested_total [of path "[]" "JInt d"]
    by (auto simp: fb_patch_def PatchIntegers_def run_and_then)
qed


section \<open>Lemmas on annotations\<close>

lemma annotationPatch_loop_spec:
  assumes "distinct (map fst want)"
  shows "map_of (annotationPatch_loop ex want out) k =
     (case map_of want k of
        None \<Rightarrow> map_of out k
      | Some v \<Rightarrow> if v = [] then (if mhas ex k then Some JNull else map_of out k)
                 else if mget ex k \<noteq> v then Some (JString v) else map_of out k)"
  using assms
proof (induction want arbitrary: out)
  case (Cons kv want)
  obtain k' v where kv: "kv = (k', v)" by fastforce
  show ?case
  proof (cases "k = k'")
    case True
    with Cons.prems kv have "map_of want k = None" by (simp add: map_of_eq_None_iff)
    with True kv Cons show ?thesis by (simp add: update_conv)
  next
    case False
    with kv Cons show ?thesis by (simp add: update_conv split: option.split)
  qed
qed simp

lemma annotationPatch_loop_wf:
  "json_wf (JObject out) \<Longrightarrow> json_wf (JObject (annotationPatch_loop ex want out))"
  by (induction ex want out rule: annotationPatch_loop.induct) (simp_all add: json_wf_update del: json_wf.simps(1))

lemma merge_patch_nested:
  "json_at (merge_patch j (JObject [(a, JObject ps)])) (a # ks) =
     json_at (merge_patch (JObject (nested_fields (json_fields j) a)) (JObject ps)) ks"
  by (simp add: update_conv nested_fields_def json_fields_def split: option.split json.split)

lemma annotations_of_merge:
  "json_at (merge_patch j (JObject [(''metadata'', JObject [(''annotations'', JObject pa)])])) [''metadata'', ''annotations'', k] =
     map_of (merge_fields (case json_at j [''metadata'', ''annotations''] of Some (JObject fs) \<Rightarrow> fs | _ \<Rightarrow> []) pa) k"
  unfolding merge_patch_nested
  by (simp add: update_conv nested_fields_def map_of_json_fields_at split: option.split json.split)

definition string_annotations :: "json \<Rightarrow> bool" where
  "string_annotations obj \<longleftrightarrow> list_all (\<lambda>(_, v). case v of JString _ \<Rightarrow> True | _ \<Rightarrow> False)
     (case json_at obj [''metadata'', ''annotations''] of Some (JObject fs) \<Rightarrow> fs | _ \<Rightarrow> [])"

definition annotation :: "json \<Rightarrow> string \<Rightarrow> json option" where
  "annotation obj k = json_at obj [''metadata'', ''annotations'', k]"

lemma existing_annotations:
  assumes "nested_documented E" and "string_annotations obj"
  shows "annotation obj k = map_option JString (map_of (NestedStringMap E obj [''metadata'', ''annotations'']) k)"
proof -
  have "\<forall>j path k. if list_all (\<lambda>(_, v). case v of JString _ \<Rightarrow> True | _ \<Rightarrow> False)
        (case json_at j path of Some (JObject fs) \<Rightarrow> fs | _ \<Rightarrow> [])
      then json_at j (path @ [k]) = map_option JString (map_of (NestedStringMap E j path) k)
      else map_of (NestedStringMap E j path) k = None"
    using assms(1) unfolding nested_documented_def by (rule conjunct2)
  from this [rule_format, of obj "[''metadata'', ''annotations'']" k] assms(2) show ?thesis
    by (simp add: string_annotations_def annotation_def)
qed

lemma annotation_fields:
  "annotation obj k = map_of (case json_at obj [''metadata'', ''annotations''] of Some (JObject fs) \<Rightarrow> fs | _ \<Rightarrow> []) k"
  using json_at_last [of obj "[''metadata'', ''annotations'']" k] by (simp add: annotation_def)

text \<open>The patch of \<open>annotationPatch\<close> turns the annotations into the wanted ones.\<close>

definition wanted :: "strmap \<Rightarrow> string \<Rightarrow> json option \<Rightarrow> json option" where
  "wanted anns k old = (case map_of anns k of None \<Rightarrow> old | Some v \<Rightarrow> if v = [] then None else Some (JString v))"

lemma annotationPatch_merge:
  assumes E: "nested_documented E" and str: "string_annotations obj" and dist: "distinct (map fst anns)" and "anns \<noteq> []"
  defines "pa \<equiv> annotationPatch E obj anns"
  shows "map_of (merge_fields (case json_at obj [''metadata'', ''annotations''] of Some (JObject fs) \<Rightarrow> fs | _ \<Rightarrow> []) pa) k =
     wanted anns k (annotation obj k)"
proof -
  let ?ex = "NestedStringMap E obj [''metadata'', ''annotations'']"
  let ?fs = "case json_at obj [''metadata'', ''annotations''] of Some (JObject fs) \<Rightarrow> fs | _ \<Rightarrow> []"
  have pa: "pa = annotationPatch_loop ?ex anns []" using \<open>anns \<noteq> []\<close> by (simp add: pa_def annotationPatch_def)
  have wf: "distinct (map fst pa)" using annotationPatch_loop_wf [of "[]" ?ex anns] by (simp add: pa)
  have look: "map_of pa k = (case map_of anns k of None \<Rightarrow> None
      | Some v \<Rightarrow> if v = [] then (if mhas ?ex k then Some JNull else None)
                 else if mget ?ex k \<noteq> v then Some (JString v) else None)"
    unfolding pa annotationPatch_loop_spec [OF dist] by (simp split: option.split)
  have ex: "annotation obj k = map_option JString (map_of ?ex k)" by (rule existing_annotations [OF E str])
  show ?thesis
  proof (cases "map_of pa k")
    case None
    then have "map_of (merge_fields ?fs pa) k = annotation obj k"
      by (simp add: merge_fields_other map_of_eq_None_iff annotation_fields)
    with None look ex show ?thesis
      by (auto simp: wanted_def mhas_def mget_def split: option.splits if_splits)
  next
    case (Some v)
    show ?thesis
    proof (cases "v = JNull")
      case True
      with Some look have "map_of anns k = Some []" by (auto split: option.splits if_splits)
      with True merge_fields_deleted [OF wf] Some show ?thesis by (simp add: wanted_def)
    next
      case False
      with Some look obtain x where x: "map_of anns k = Some x" "x \<noteq> []" "v = JString x"
        by (auto split: option.splits if_splits)
      with False merge_fields_set [OF wf Some False] show ?thesis by (simp add: wanted_def)
    qed
  qed
qed

lemma PatchAnnotations_cases:
  assumes "run_state (PatchAnnotations E c t anns) s = (Inr (), s')" and "anns \<noteq> []"
  obtains gvk obj where "fb_get E c (cluster s) t = Inr (gvk, obj, splitFieldPath (tgt_fieldPath t))"
    and "if annotationPatch E obj anns = [] then s' = s
      else Patch_Unstructured c gvk (tgt_namespace t) (tgt_name t)
        (JObject [(''metadata'', JObject [(''annotations'', JObject (annotationPatch E obj anns))])]) (cluster s) = (Inr (), cluster s')"
proof -
  obtain gvk where pk: "parseAPIVersionKind E (tgt_apiVersion t) (tgt_kind t) = Inr gvk"
    using assms by (cases "parseAPIVersionKind E (tgt_apiVersion t) (tgt_kind t)") (auto simp: PatchAnnotations_def)
  obtain obj where g: "Get_Unstructured c (cluster s) gvk (tgt_namespace t) (tgt_name t) = Inr obj"
    using assms pk
    by (cases "Get_Unstructured c (cluster s) gvk (tgt_namespace t) (tgt_name t)") (auto simp: PatchAnnotations_def)
  have "fb_get E c (cluster s) t = Inr (gvk, obj, splitFieldPath (tgt_fieldPath t))" using pk g by (simp add: fb_get_iff)
  moreover have "if annotationPatch E obj anns = [] then s' = s
      else Patch_Unstructured c gvk (tgt_namespace t) (tgt_name t)
        (JObject [(''metadata'', JObject [(''annotations'', JObject (annotationPatch E obj anns))])]) (cluster s) = (Inr (), cluster s')"
    using assms pk g raw_patch_ok by (fastforce simp: PatchAnnotations_def Let_def split: if_splits)
  ultimately show ?thesis by (rule that)
qed

lemma annotationPatch_wf: "json_wf (JObject (annotationPatch E obj anns))"
  using annotationPatch_loop_wf [of "[]"] by (simp add: annotationPatch_def del: json_wf.simps(1)) simp

text \<open>Stamping annotations leaves the capacity fields alone, and does what it says to the annotations.\<close>

lemma PatchAnnotations_keeps:
  assumes E: "nested_documented E" and doc: "patch_documented c"
    and run: "run_state (PatchAnnotations E c t anns) s = (Inr (), s')"
    and spec: "under_spec (tgt_fieldPath u)" and obj: "other_object t u \<or> same_object t u"
    and val: "field_value E c (cluster s) u = Some i"
  shows "field_value E c (cluster s') u = Some i"
proof (cases "anns = []")
  case True
  with run val show ?thesis by (simp add: PatchAnnotations_def)
next
  case False
  then obtain gvk obj where get: "fb_get E c (cluster s) t = Inr (gvk, obj, splitFieldPath (tgt_fieldPath t))"
    and eff: "if annotationPatch E obj anns = [] then s' = s
      else Patch_Unstructured c gvk (tgt_namespace t) (tgt_name t)
        (JObject [(''metadata'', JObject [(''annotations'', JObject (annotationPatch E obj anns))])]) (cluster s) = (Inr (), cluster s')"
    by (rule PatchAnnotations_cases [OF run])
  let ?p = "[(''metadata'', JObject [(''annotations'', JObject (annotationPatch E obj anns))])]"
  have "patch_misses (JObject ?p) (splitFieldPath (tgt_fieldPath u))"
    using spec by (cases "splitFieldPath (tgt_fieldPath u)") (simp_all add: under_spec_def)
  moreover have "json_wf (JObject ?p)" using annotationPatch_wf [of E obj anns] by simp
  ultimately show ?thesis
    using patch_keeps [OF E doc _ get _ spec _ val, of ?p "cluster s'"] eff val obj by (auto split: if_splits)
qed

lemma PatchAnnotations_effect:
  assumes E: "nested_documented E" and doc: "patch_documented c"
    and run: "run_state (PatchAnnotations E c t anns) s = (Inr (), s')"
    and get: "fb_get E c (cluster s) t = Inr (gvk, obj, path)"
    and str: "string_annotations obj" and dist: "distinct (map fst anns)"
  shows "\<exists>obj'. fb_get E c (cluster s') t = Inr (gvk, obj', path) \<and> annotation obj' k = wanted anns k (annotation obj k)"
proof (cases "anns = []")
  case True
  with run get show ?thesis by (auto simp: PatchAnnotations_def wanted_def)
next
  case False
  let ?p = "JObject [(''metadata'', JObject [(''annotations'', JObject (annotationPatch E obj anns))])]"
  have merge: "annotation (merge_patch obj ?p) k = wanted anns k (annotation obj k)"
    unfolding annotation_def annotations_of_merge annotationPatch_merge [OF E str dist False]
    by (simp add: annotation_def)
  obtain gvk0 obj0 where get0: "fb_get E c (cluster s) t = Inr (gvk0, obj0, splitFieldPath (tgt_fieldPath t))"
    and eff0: "if annotationPatch E obj0 anns = [] then s' = s
      else Patch_Unstructured c gvk0 (tgt_namespace t) (tgt_name t)
        (JObject [(''metadata'', JObject [(''annotations'', JObject (annotationPatch E obj0 anns))])]) (cluster s) = (Inr (), cluster s')"
    by (rule PatchAnnotations_cases [OF run False])
  from get0 get have eqs: "gvk0 = gvk" "obj0 = obj" by simp_all
  from eff0 have eff: "if annotationPatch E obj anns = [] then s' = s
      else Patch_Unstructured c gvk (tgt_namespace t) (tgt_name t) ?p (cluster s) = (Inr (), cluster s')"
    unfolding eqs .
  show ?thesis
  proof (cases "annotationPatch E obj anns = []")
    case True
    have "wanted anns k (annotation obj k) = annotation obj k"
      unfolding annotationPatch_merge [OF E str dist False, of k, symmetric] True by (simp add: annotation_fields)
    with True eff get show ?thesis by auto
  next
    case False
    with eff have "Patch_Unstructured c gvk (tgt_namespace t) (tgt_name t) ?p (cluster s) = (Inr (), cluster s')" by simp
    moreover have "Get_Unstructured c (cluster s) gvk (tgt_namespace t) (tgt_name t) = Inr obj"
      using get by (simp add: fb_get_iff)
    ultimately obtain obj' where "Get_Unstructured c (cluster s') gvk (tgt_namespace t) (tgt_name t) = Inr obj'"
      and "annotation obj' k = annotation (merge_patch obj ?p) k"
      using doc unfolding patch_documented_def annotation_def by blast
    with merge get show ?thesis by (auto simp: fb_get_iff)
  qed
qed

end
