(* ===== verification/Field_Store.thy ===== *)
theory Field_Store
  imports Field_Backend Mem_Cluster
begin

text \<open>
  The capacity fields as a store. \<open>field_store\<close> is the contract between the field
  backend and the planner: a store of integer fields whose writes change exactly the
  fields they name. It is interpreted on \<open>PatchIntegers\<close> and \<open>PatchAnnotations\<close> for
  every client that keeps its documented promises and every set of targets whose fields
  do not overlap; its lemmas on sequences of writes are what the planner's theorems use.
\<close>


section \<open>The contract\<close>

locale field_store =
  fixes tracked :: "'t set"
    and read :: "'w \<Rightarrow> 't \<Rightarrow> int option"
    and writes :: "'w \<Rightarrow> ('t \<Rightarrow> int option) \<Rightarrow> 'w \<Rightarrow> bool"
  assumes read_written: "writes w f w' \<Longrightarrow> t \<in> tracked \<Longrightarrow> f t = Some d \<Longrightarrow> read w t \<noteq> None \<Longrightarrow> read w' t = Some d"
    and read_kept: "writes w f w' \<Longrightarrow> t \<in> tracked \<Longrightarrow> f t = None \<Longrightarrow> read w t = Some i \<Longrightarrow> read w' t = Some i"
begin

text \<open>\<open>updates f\<close>: every tracked field that is set holds the value that \<open>f\<close> makes of its old one.\<close>

definition updates :: "('t \<Rightarrow> int \<Rightarrow> int) \<Rightarrow> 'w \<Rightarrow> 'w \<Rightarrow> bool" where
  "updates f w w' \<longleftrightarrow> (\<forall>t \<in> tracked. \<forall>i. read w t = Some i \<longrightarrow> read w' t = Some (f t i))"

lemma updates_refl: "updates (\<lambda>_ i. i) w w"
  by (simp add: updates_def)

lemma updates_trans: "updates f u v \<Longrightarrow> updates g v w \<Longrightarrow> updates (\<lambda>t i. g t (f t i)) u w"
  by (simp add: updates_def)

lemma updates_cong:
  "updates f w w' \<Longrightarrow> (\<And>t i. t \<in> tracked \<Longrightarrow> read w t = Some i \<Longrightarrow> f t i = g t i) \<Longrightarrow> updates g w w'"
  by (simp add: updates_def)

lemma write_updates: "writes w f w' \<Longrightarrow> updates (\<lambda>t i. case f t of None \<Rightarrow> i | Some d \<Rightarrow> d) w w'"
  by (auto simp: updates_def intro: read_written read_kept split: option.split)

lemma updatesD: "updates f w w' \<Longrightarrow> t \<in> tracked \<Longrightarrow> read w t = Some i \<Longrightarrow> read w' t = Some (f t i)"
  by (simp add: updates_def)

end


section \<open>The field backend provides it\<close>

text \<open>Targets whose fields are below \<open>spec\<close> and do not overlap.\<close>

definition separated :: "Target set \<Rightarrow> bool" where
  "separated T \<longleftrightarrow>
     (\<forall>t \<in> T. under_spec (tgt_fieldPath t)) \<and>
     (\<forall>t \<in> T. \<forall>u \<in> T. other_object t u \<or> same_object t u \<and>
        (tgt_fieldPath t = tgt_fieldPath u \<or> parallel (splitFieldPath (tgt_fieldPath t)) (splitFieldPath (tgt_fieldPath u))))"

definition store_targets :: "env \<Rightarrow> 'w client \<Rightarrow> Target set \<Rightarrow> Target set" where
  "store_targets E c T = (if nested_documented E \<and> patch_documented c \<and> separated T then T else {})"

text \<open>
  One write: \<open>PatchIntegers\<close> on paths of tracked targets of one object, or
  \<open>PatchAnnotations\<close> on the object of a tracked target, which writes no field.
\<close>

definition patched :: "Target \<Rightarrow> string list \<Rightarrow> (string, int) gomap \<Rightarrow> Target \<Rightarrow> int option" where
  "patched base paths values t =
     (if same_object base t \<and> tgt_fieldPath t \<in> set paths then map_of values (tgt_fieldPath t) else None)"

definition store_writes :: "env \<Rightarrow> 'w client \<Rightarrow> Target set \<Rightarrow> 'w \<Rightarrow> (Target \<Rightarrow> int option) \<Rightarrow> 'w \<Rightarrow> bool" where
  "store_writes E c T w f w' \<longleftrightarrow>
     (\<exists>base paths values s s'. cluster s = w \<and> cluster s' = w' \<and> f = patched base paths values \<and>
        run_state (PatchIntegers E c base paths values) s = (Inr (), s') \<and>
        (\<exists>t \<in> T. same_object base t) \<and>
        set paths \<subseteq> tgt_fieldPath ` {t \<in> T. same_object base t} \<and> (\<forall>p d. map_of values p = Some d \<longrightarrow> in_int32 d)) \<or>
     (\<exists>t anns s s'. cluster s = w \<and> cluster s' = w' \<and> f = (\<lambda>_. None) \<and>
        run_state (PatchAnnotations E c t anns) s = (Inr (), s') \<and> (\<exists>u \<in> T. same_object t u))"


section \<open>Lemmas\<close>

lemma same_object_refl [simp]: "same_object t t"
  by (simp add: same_object_def)

lemma same_object_sym: "same_object t u \<Longrightarrow> same_object u t"
  by (simp add: same_object_def)

lemma same_object_trans: "same_object t u \<Longrightarrow> same_object u v \<Longrightarrow> same_object t v"
  by (simp add: same_object_def)

lemma same_object_other: "same_object t u \<Longrightarrow> other_object t v \<longleftrightarrow> other_object u v"
  by (auto simp: same_object_def other_object_def)

lemma not_same_and_other: "\<not> (same_object t u \<and> other_object t u)"
  by (auto simp: same_object_def other_object_def)

lemma separated_object:
  assumes "separated T" and "t \<in> T" and "u \<in> T" and "same_object base t"
  shows "other_object base u \<or> same_object base u"
  using assms by (metis same_object_other same_object_trans separated_def)

lemma separated_paths:
  assumes "separated T" and "set paths \<subseteq> tgt_fieldPath ` {t \<in> T. same_object base t}"
  shows "paths_apart (set paths)"
  unfolding paths_apart_def
proof (intro ballI impI)
  fix p q
  assume "p \<in> set paths" "q \<in> set paths" and ne: "p \<noteq> q"
  with assms(2) obtain t u where t: "t \<in> T" "same_object base t" "p = tgt_fieldPath t"
    and u: "u \<in> T" "same_object base u" "q = tgt_fieldPath u" by blast
  then have "same_object t u" using same_object_sym same_object_trans by blast
  with assms(1) t u ne not_same_and_other show "parallel (splitFieldPath p) (splitFieldPath q)"
    unfolding separated_def by blast
qed

lemma store_read_written:
  assumes "store_writes E c T w f w'" and "t \<in> store_targets E c T" and "f t = Some d" and "field_value E c w t \<noteq> None"
  shows "field_value E c w' t = Some d"
proof -
  have ok: "nested_documented E" "patch_documented c" "separated T" "t \<in> T"
    using assms(2) by (auto simp: store_targets_def split: if_splits)
  obtain base paths "values" s s' where b: "cluster s = w" "cluster s' = w'" "f = patched base paths values"
      "run_state (PatchIntegers E c base paths values) s = (Inr (), s')"
      "set paths \<subseteq> tgt_fieldPath ` {t \<in> T. same_object base t}" "\<forall>p d. map_of values p = Some d \<longrightarrow> in_int32 d"
    using assms(1,3) unfolding store_writes_def by auto
  have same: "same_object base t" "tgt_fieldPath t \<in> set paths" "map_of values (tgt_fieldPath t) = Some d"
    using assms(3) b(3) by (auto simp: patched_def split: if_splits)
  obtain v where v: "Current E c (cluster s) t = Inr v"
    using assms(4) b(1) Current_field_value by (metis not_None_eq)
  have "under_spec (tgt_fieldPath t)" using ok by (simp add: separated_def)
  then show ?thesis
    using PatchIntegers_writes [OF ok(1,2) b(4) separated_paths [OF ok(3) b(5)] _ same(2,3) _ same(1) refl v] b(2,6) same(3)
    by auto
qed

lemma store_read_kept:
  assumes "store_writes E c T w f w'" and "t \<in> store_targets E c T" and "f t = None" and "field_value E c w t = Some i"
  shows "field_value E c w' t = Some i"
proof -
  have ok: "nested_documented E" "patch_documented c" "separated T" "t \<in> T"
    using assms(2) by (auto simp: store_targets_def split: if_splits)
  have spec: "under_spec (tgt_fieldPath t)" using ok by (simp add: separated_def)
  from assms(1) consider
    (ints) base paths "values" s s' u where "cluster s = w" "cluster s' = w'" "f = patched base paths values"
      "run_state (PatchIntegers E c base paths values) s = (Inr (), s')" "u \<in> T" "same_object base u"
      "set paths \<subseteq> tgt_fieldPath ` {t \<in> T. same_object base t}"
    | (anns) base anns s s' u where "cluster s = w" "cluster s' = w'"
      "run_state (PatchAnnotations E c base anns) s = (Inr (), s')" "u \<in> T" "same_object base u"
    unfolding store_writes_def by blast
  then show ?thesis
  proof cases
    case ints
    have "other_object base t \<or> same_object base t \<and>
       (\<forall>p \<in> set paths. map_of values p \<noteq> None \<longrightarrow> parallel (splitFieldPath p) (splitFieldPath (tgt_fieldPath t)))"
    proof (cases "other_object base t")
      case False
      then have same: "same_object base t" using separated_object [OF ok(3) ints(5) ok(4) ints(6)] by simp
      have "parallel (splitFieldPath p) (splitFieldPath (tgt_fieldPath t))"
        if p: "p \<in> set paths" "map_of values p \<noteq> None" for p
      proof -
        obtain v where v: "v \<in> T" "same_object base v" "p = tgt_fieldPath v" using ints(7) p(1) by blast
        have ne: "p \<noteq> tgt_fieldPath t" using assms(3) ints(3) p same by (auto simp: patched_def)
        have "same_object v t" using v(2) same same_object_sym same_object_trans by blast
        with ok(3,4) v ne not_same_and_other show ?thesis unfolding separated_def by blast
      qed
      with same show ?thesis by simp
    qed simp
    with PatchIntegers_keeps [OF ok(1,2) ints(4) separated_paths [OF ok(3) ints(7)] spec] ints(1,2) assms(4)
    show ?thesis by simp
  next
    case anns
    with PatchAnnotations_keeps [OF ok(1,2) anns(3) spec] separated_object [OF ok(3) anns(4) ok(4) anns(5)] assms(4)
    show ?thesis by simp
  qed
qed

interpretation fs: field_store "store_targets E c T" "field_value E c" "store_writes E c T" for E c T
  by unfold_locales (auto intro: store_read_written store_read_kept)

abbreviation field_updates :: "env \<Rightarrow> 'w client \<Rightarrow> Target set \<Rightarrow> (Target \<Rightarrow> int \<Rightarrow> int) \<Rightarrow> 'w \<Rightarrow> 'w \<Rightarrow> bool" where
  "field_updates E c T \<equiv> field_store.updates (store_targets E c T) (field_value E c)"

text \<open>The two kinds of writes as updates of the fields.\<close>

lemma PatchIntegers_updates:
  assumes "run_state (PatchIntegers E c base paths values) s = (Inr (), s')"
    and "\<exists>t \<in> T. same_object base t" and "set paths \<subseteq> tgt_fieldPath ` {t \<in> T. same_object base t}"
    and "\<forall>p d. map_of values p = Some d \<longrightarrow> in_int32 d"
  shows "field_updates E c T (\<lambda>t i. case patched base paths values t of None \<Rightarrow> i | Some d \<Rightarrow> d) (cluster s) (cluster s')"
proof -
  have "store_writes E c T (cluster s) (patched base paths values) (cluster s')"
    unfolding store_writes_def using assms by blast
  then show ?thesis by (rule fs.write_updates)
qed

lemma PatchAnnotations_updates:
  assumes "run_state (PatchAnnotations E c t anns) s = (Inr (), s')" and "\<exists>u \<in> T. same_object t u"
  shows "field_updates E c T (\<lambda>_ i. i) (cluster s) (cluster s')"
proof -
  have "store_writes E c T (cluster s) (\<lambda>_. None) (cluster s')"
    unfolding store_writes_def using assms by blast
  from fs.write_updates [OF this] show ?thesis by simp
qed


section \<open>The in-memory cluster keeps the promises\<close>

lemma mem_patch_documented: "patch_documented mem_client"
  unfolding patch_documented_def
  by (auto simp: mem_client_def or_not_found_def update_conv split: option.splits if_splits)


section \<open>Example\<close>

definition hpa_target :: "string \<Rightarrow> Target" where
  "hpa_target path =
     \<lparr>tgt_namespace = ''shop'', tgt_name = ''web'', tgt_apiVersion = ''autoscaling/v2'', tgt_kind = ''HorizontalPodAutoscaler'',
      tgt_fieldPath = path, tgt_defaultWhenUnset = None\<rparr>"

definition hpa_object :: "int \<Rightarrow> int \<Rightarrow> json" where
  "hpa_object lo hi =
     JObject [(''metadata'', JObject [(''annotations'', JObject [(''team'', JString ''shop'')])]),
       (''spec'', JObject [(''minReplicas'', JInt lo), (''maxReplicas'', JInt hi)])]"

definition hpa_store :: "EvictionGuardWindow list \<Rightarrow> int \<Rightarrow> int \<Rightarrow> memory" where
  "hpa_store ws lo hi =
     \<lparr>mc_pods = [], mc_nodes = [], mc_namespaces = [], mc_replicaSets = [], mc_deployments = [], mc_policies = [],
      mc_windows = ws, mc_objects = [(((''autoscaling'', ''v2'', ''HorizontalPodAutoscaler''), ''shop'', ''web''), hpa_object lo hi)],
      mc_now = hour\<rparr>"

abbreviation hpa_memory :: "int \<Rightarrow> int \<Rightarrow> memory" where
  "hpa_memory \<equiv> hpa_store []"

definition hpa_targets :: "Target set" where
  "hpa_targets = {hpa_target ''spec.minReplicas'', hpa_target ''spec.maxReplicas''}"

definition hpa_state :: "int \<Rightarrow> int \<Rightarrow> (memory, effect) sys" where
  "hpa_state lo hi = \<lparr>cluster = hpa_memory lo hi, log = []\<rparr>"

lemma hpa_paths [simp]:
  "splitFieldPath ''spec.minReplicas'' = [''spec'', ''minReplicas'']"
  "splitFieldPath ''spec.maxReplicas'' = [''spec'', ''maxReplicas'']"
  by (simp_all add: splitFieldPath_def TrimPrefix_def HasPrefix_def)

lemma hpa_target_simps [simp]:
  "tgt_fieldPath (hpa_target p) = p" "same_object (hpa_target p) (hpa_target q)"
  by (simp_all add: hpa_target_def same_object_def)

lemma hpa_all_same [simp]: "{t \<in> hpa_targets. same_object (hpa_target p) t} = hpa_targets"
  by (auto simp: hpa_targets_def)

lemma hpa_separated: "separated hpa_targets"
  by (auto simp: separated_def hpa_targets_def hpa_target_def under_spec_def same_object_def parallel_def)

lemma hpa_gvk: "parseAPIVersionKind std_env ''autoscaling/v2'' ''HorizontalPodAutoscaler'' =
    Inr (''autoscaling'', ''v2'', ''HorizontalPodAutoscaler'')"
  by (simp add: parseAPIVersionKind_def std_env_def)

lemma hpa_get: "fb_get std_env mem_client (hpa_store ws lo hi) (hpa_target p) =
    Inr ((''autoscaling'', ''v2'', ''HorizontalPodAutoscaler''), hpa_object lo hi, splitFieldPath p)"
  by (simp add: fb_get_def hpa_target_def hpa_gvk mem_client_def hpa_store_def)

lemma hpa_values:
  "in_int32 lo \<Longrightarrow> field_value std_env mem_client (hpa_store ws lo hi) (hpa_target ''spec.minReplicas'') = Some lo"
  "in_int32 hi \<Longrightarrow> field_value std_env mem_client (hpa_store ws lo hi) (hpa_target ''spec.maxReplicas'') = Some hi"
  by (simp_all add: field_value_def hpa_get std_nested_int_def hpa_object_def)

lemma hpa_patch:
  assumes "in_int32 lo" and "lo \<noteq> d"
  shows "run_state (PatchIntegers std_env mem_client (hpa_target ''spec.minReplicas'')
      [''spec.minReplicas'', ''spec.maxReplicas''] [(''spec.minReplicas'', d)]) \<lparr>cluster = hpa_store ws lo hi, log = l\<rparr>
   = (Inr (), \<lparr>cluster = hpa_store ws d hi, log = l\<rparr>)"
proof -
  have "already std_env (hpa_object lo hi) [''spec'', ''minReplicas''] d = False"
    using assms by (simp add: already_def std_nested_int_def hpa_object_def int32_id)
  then show ?thesis
    by (simp add: PatchIntegers_def run_and_then hpa_get raw_patch_def)
      (simp add: mem_client_def hpa_store_def hpa_target_def hpa_object_def)
qed

definition stamped_state :: "(string \<times> json) list \<Rightarrow> (memory, effect) sys" where
  "stamped_state anns = hpa_state 3 10
     \<lparr>cluster := (hpa_memory 3 10)\<lparr>mc_objects :=
        [(((''autoscaling'', ''v2'', ''HorizontalPodAutoscaler''), ''shop'', ''web''),
          JObject [(''metadata'', JObject [(''annotations'', JObject anns)]),
            (''spec'', JObject [(''minReplicas'', JInt 3), (''maxReplicas'', JInt 10)])])]\<rparr>\<rparr>"

lemma stamped_get: "fb_get std_env mem_client (cluster (stamped_state anns)) (hpa_target p) =
    Inr ((''autoscaling'', ''v2'', ''HorizontalPodAutoscaler''),
      JObject [(''metadata'', JObject [(''annotations'', JObject anns)]),
            (''spec'', JObject [(''minReplicas'', JInt 3), (''maxReplicas'', JInt 10)])], splitFieldPath p)"
  by (simp add: fb_get_def hpa_target_def hpa_gvk mem_client_def stamped_state_def)

lemma stamp_runs:
  "run_state (PatchAnnotations std_env mem_client (hpa_target ''spec.minReplicas'') [(''active'', ''true'')])
     (stamped_state [(''team'', JString ''shop'')]) = (Inr (), stamped_state [(''team'', JString ''shop''), (''active'', JString ''true'')])"
  "run_state (PatchAnnotations std_env mem_client (hpa_target ''spec.minReplicas'') (StampDeletes (map fst [(''active'', ''true'')])))
     (stamped_state [(''team'', JString ''shop''), (''active'', JString ''true'')]) = (Inr (), stamped_state [(''team'', JString ''shop'')])"
proof -
  have strings: "NestedStringMap std_env (JObject [(''metadata'', JObject [(''annotations'', JObject anns)]),
      (''spec'', sp)]) [''metadata'', ''annotations''] =
      (if list_all (\<lambda>(k, v). case v of JString s \<Rightarrow> True | _ \<Rightarrow> False) anns
       then map (\<lambda>(k, v). (k, case v of JString s \<Rightarrow> s | _ \<Rightarrow> [])) anns else [])" for anns sp
    by (simp add: std_env_def)
  show "run_state (PatchAnnotations std_env mem_client (hpa_target ''spec.minReplicas'') [(''active'', ''true'')])
     (stamped_state [(''team'', JString ''shop'')]) = (Inr (), stamped_state [(''team'', JString ''shop''), (''active'', JString ''true'')])"
    by (simp add: PatchAnnotations_def hpa_gvk hpa_target_def raw_patch_def stamped_state_def mem_client_def annotationPatch_def strings)
  show "run_state (PatchAnnotations std_env mem_client (hpa_target ''spec.minReplicas'') (StampDeletes (map fst [(''active'', ''true'')])))
     (stamped_state [(''team'', JString ''shop''), (''active'', JString ''true'')]) = (Inr (), stamped_state [(''team'', JString ''shop'')])"
    by (simp add: PatchAnnotations_def hpa_gvk hpa_target_def raw_patch_def stamped_state_def mem_client_def annotationPatch_def strings
        StampDeletes_def AList.delete_eq)
qed


section \<open>Properties\<close>

text \<open>
  Patching several integer fields of one object writes exactly the requested ones: on
  a server that applies merge patches, among fields that do not overlap, after a
  successful call each field reads the requested value if there is one, and its old value
  otherwise, also on all other objects.
\<close>

lemma PatchIntegers_exact:
  assumes "nested_documented E" and "patch_documented c" and "separated T"
    and "run_state (PatchIntegers E c base paths values) s = (Inr (), s')"
    and "base \<in> T" and "set paths \<subseteq> tgt_fieldPath ` {t \<in> T. same_object base t}"
    and "list_all (\<lambda>(p, d). in_int32 d) values"
    and "t \<in> T" and "field_value E c (cluster s) t = Some i"
  shows "field_value E c (cluster s') t =
     Some (if same_object base t \<and> tgt_fieldPath t \<in> set paths
           then (case map_of values (tgt_fieldPath t) of None \<Rightarrow> i | Some d \<Rightarrow> d) else i)"
proof -
  have in_range: "\<forall>p d. map_of values p = Some d \<longrightarrow> in_int32 d"
    using assms(7) by (auto simp: list_all_iff dest!: map_of_SomeD)
  have w: "field_updates E c T (\<lambda>t i. case patched base paths values t of None \<Rightarrow> i | Some d \<Rightarrow> d) (cluster s) (cluster s')"
    using PatchIntegers_updates [OF assms(4) _ assms(6) in_range] assms(5) same_object_refl by blast
  have t: "t \<in> store_targets E c T" using assms by (simp add: store_targets_def)
  have eq: "(if same_object base t \<and> tgt_fieldPath t \<in> set paths
      then (case map_of values (tgt_fieldPath t) of None \<Rightarrow> i | Some d \<Rightarrow> d) else i) =
      (case patched base paths values t of None \<Rightarrow> i | Some d \<Rightarrow> d)"
    by (simp add: patched_def)
  show ?thesis
    unfolding eq by (rule fs.updatesD [OF w t assms(9)])
qed

text \<open>
  C36. Stamps round trip: after a successful \<open>PatchAnnotations\<close> every wanted annotation
  has its value, every one with an empty value is gone and all others are unchanged; so
  stamping followed by \<open>StampDeletes\<close> of the same keys leaves none of them behind.
\<close>

theorem stamp_roundtrip:
  assumes "nested_documented E" and "patch_documented c"
    and "fb_get E c (cluster s) t = Inr (gvk, obj, path)" and "string_annotations obj"
    and "run_state (PatchAnnotations E c t anns) s = (Inr (), s')" and "distinct (map fst anns)"
    and "fb_get E c (cluster s') t = Inr (gvk', obj', path')" and "string_annotations obj'"
    and "run_state (PatchAnnotations E c t (StampDeletes (map fst anns))) s' = (Inr (), s'')"
  shows "annotation obj' k = wanted anns k (annotation obj k) \<and>
     (\<exists>obj''. fb_get E c (cluster s'') t = Inr (gvk', obj'', path') \<and>
        annotation obj'' k = (if mhas anns k then None else annotation obj k))"
proof -
  have first: "annotation obj' k = wanted anns k (annotation obj k)"
    using PatchAnnotations_effect [OF assms(1,2,5,3,4,6), of k] assms(7) by auto
  have fold: "fold (\<lambda>k out. AList.update k [] out) ks m = m @ map (\<lambda>k. (k, [])) ks"
    if "distinct ks" and "fst ` set m \<inter> set ks = {}" for ks and m :: strmap
    using that
  proof (induction ks arbitrary: m)
    case (Cons a ks)
    then have "a \<notin> fst ` set m" by auto
    then have "AList.update a [] m = m @ [(a, [])]" by (induction m) auto
    with Cons show ?case by (auto simp: image_Un)
  qed simp
  have del: "StampDeletes (map fst anns) = map (\<lambda>k. (k, [])) (map fst anns)"
    using fold [of "map fst anns" "[]"] assms(6) by (simp add: StampDeletes_def)
  have dist: "distinct (map fst (StampDeletes (map fst anns)))" using assms(6) by (simp add: del comp_def)
  have look: "map_of (StampDeletes (map fst anns)) k = (if mhas anns k then Some [] else None)"
    unfolding del by (induction anns) (auto simp: mhas_def)
  obtain obj'' where "fb_get E c (cluster s'') t = Inr (gvk', obj'', path')"
    and "annotation obj'' k = wanted (StampDeletes (map fst anns)) k (annotation obj' k)"
    using PatchAnnotations_effect [OF assms(1,2,9,7,8) dist, of k] by auto
  with first show ?thesis by (auto simp: wanted_def look mhas_def split: option.splits if_splits)
qed

theorem stamp_roundtrip_witness:
  "\<exists>obj''. fb_get std_env mem_client (cluster (stamped_state [(''team'', JString ''shop'')])) (hpa_target ''spec.minReplicas'') =
       Inr ((''autoscaling'', ''v2'', ''HorizontalPodAutoscaler''), obj'', [''spec'', ''minReplicas'']) \<and>
     annotation obj'' ''active'' = None"
proof -
  have str: "string_annotations (JObject [(''metadata'', JObject [(''annotations'', JObject anns)]), (''spec'', sp)]) \<longleftrightarrow>
      list_all (\<lambda>(_, v). case v of JString _ \<Rightarrow> True | _ \<Rightarrow> False) anns" for anns sp
    by (simp add: string_annotations_def)
  show ?thesis
    using stamp_roundtrip [OF std_env_nested mem_patch_documented stamped_get _ stamp_runs(1) _ stamped_get _ stamp_runs(2), of "''active''"]
    by (auto simp: str)
qed

text \<open>
  Reading a capacity field yields an int32 or an error, never a truncated number:
  what \<open>Current\<close> returns is the stored integer, and a stored integer outside the range
  is an error.
\<close>

lemma Current_bounds:
  assumes "nested_documented E" and "fb_get E c w t = Inr (gvk, obj, path)" and "json_at obj path = Some (JInt i)"
  shows "(if in_int32 i then Current E c w t = Inr i else isl (Current E c w t))"
  using assms int64ToInt32_ok [of i t]
  by (cases "int64ToInt32 i t") (auto simp: Current_def nested_int_iff [OF assms(1), symmetric])

end
