(* ===== verification/Window_Phase.thy ===== *)
theory Window_Phase
  imports Api_Types "HOL-Library.Product_Lexorder"
begin

text \<open>
  The life of a window. \<open>window_phase.go\<close>: the pure decision \<open>decideWindowStep\<close> of the
  window controller; \<open>maxwindow.go\<close>: the clock that bounds how long a window may stay
  open. \<open>WindowPhase\<close> is ordered by its place in the life cycle, so that progress is a
  statement about that order.

  \<open>tick\<close> is one reconcile of an armed window as the controller performs it on the fields
  that the decision reads: it latches \<open>forcedCool\<close>, arms or clears the cooldown clock
  and records the phase. \<open>reach\<close> are the runs of such ticks over arbitrary observations.
\<close>


section \<open>Definitions\<close>

subsection \<open>\<open>maxwindow.go\<close>\<close>

definition windowOpenedAt :: "EvictionGuardWindow \<Rightarrow> time" where
  "windowOpenedAt win =
     (if \<not> time_is_zero (wst_lastScaleTime (win_status win)) then the (wst_lastScaleTime (win_status win))
      else if win_creationTimestamp win \<noteq> 0 then win_creationTimestamp win
      else 0)"

definition maxWindowExceeded :: "EvictionGuardPolicy option \<Rightarrow> EvictionGuardWindow option \<Rightarrow> time \<Rightarrow> bool" where
  "maxWindowExceeded policy win now =
     (case (policy, win) of
        (Some p, Some w) \<Rightarrow>
          (let d = MaxWindowOrDefault p in
           if d \<le> 0 then False
           else let opened = windowOpenedAt w in
             if opened = 0 then False else \<not> now < opened + d)
      | _ \<Rightarrow> False)"

definition maxWindowRequeue :: "EvictionGuardPolicy option \<Rightarrow> EvictionGuardWindow option \<Rightarrow> time \<Rightarrow> duration" where
  "maxWindowRequeue policy win now =
     (case (policy, win) of
        (Some p, Some w) \<Rightarrow>
          (let d = MaxWindowOrDefault p in
           if d \<le> 0 then 0
           else let opened = windowOpenedAt w in
             if opened = 0 then 0
             else let left = time_sub (opened + d) now in if left \<le> 0 then second else left)
      | _ \<Rightarrow> 0)"

definition holdMaxWindow :: "EvictionGuardPolicy option \<Rightarrow> EvictionGuardWindow option \<Rightarrow> time \<Rightarrow> bool" where
  "holdMaxWindow policy win now =
     (case win of
        None \<Rightarrow> False
      | Some w \<Rightarrow>
          if wst_forcedCool (win_status w) \<or> wst_phase (win_status w) = WindowPhaseClosed then True
          else maxWindowExceeded policy win now)"

subsection \<open>\<open>window_phase.go\<close>\<close>

definition reasonCooling :: string where [go_simps]: "reasonCooling = ''CoolingDown''"
definition msgNodesVulnerable :: string where [go_simps]: "msgNodesVulnerable = ''at-risk pods still on vulnerable nodes''"
definition msgWaitingSpare :: string where [go_simps]: "msgWaitingSpare = ''waiting for Ready pods off vulnerable nodes''"
definition msgMaxWindow :: string where [go_simps]: "msgMaxWindow = ''maxWindow exceeded; forcing cooldown''"

datatype windowStep =
    stepStayOpenVulnerable
  | stepStayOpenWaitingSpare
  | stepBeginScaleBack
  | stepStayCooling
  | stepClose

record windowPhaseInput =
  LiveAtRisk :: int
  ForceCool :: bool
  ForcedCool :: bool
  SafeReady :: int
  Baseline :: int
  WindowUntil :: time
  InputNow :: time

record windowPhaseDecision =
  Step :: windowStep
  Phase :: WindowPhase
  Message :: string
  AbortCooldown :: bool
  RetainClosed :: bool

definition coolingMessage :: "bool \<Rightarrow> bool \<Rightarrow> string" where
  "coolingMessage forceCool forcedCool = (if forceCool \<or> forcedCool then msgMaxWindow else reasonCooling)"

definition decideWindowStep :: "windowPhaseInput \<Rightarrow> windowPhaseDecision" where
  "decideWindowStep i =
     (if LiveAtRisk i > 0 \<and> \<not> ForceCool i then
        \<lparr>Step = stepStayOpenVulnerable, Phase = WindowPhaseOpen, Message = msgNodesVulnerable,
         AbortCooldown = True, RetainClosed = False\<rparr>
      else if \<not> ForceCool i \<and> SafeReady i < Baseline i then
        \<lparr>Step = stepStayOpenWaitingSpare, Phase = WindowPhaseOpen, Message = msgWaitingSpare,
         AbortCooldown = True, RetainClosed = False\<rparr>
      else if WindowUntil i = 0 then
        \<lparr>Step = stepBeginScaleBack, Phase = WindowPhaseUnset, Message = [], AbortCooldown = False, RetainClosed = False\<rparr>
      else if InputNow i < WindowUntil i then
        \<lparr>Step = stepStayCooling, Phase = WindowPhaseCooling, Message = coolingMessage (ForceCool i) (ForcedCool i),
         AbortCooldown = False, RetainClosed = False\<rparr>
      else
        (let retain = ForcedCool i;
             msg = (if retain then ''scaled back after maxWindow; holding until nodes clear'' else ''scaled back to baseline'')
         in \<lparr>Step = stepClose, Phase = WindowPhaseClosed, Message = msg, AbortCooldown = False, RetainClosed = retain\<rparr>))"


section \<open>The life-cycle order\<close>

fun phase_rank :: "WindowPhase \<Rightarrow> nat \<times> string" where
  "phase_rank WindowPhaseUnset = (0, [])"
| "phase_rank WindowPhaseOpen = (1, [])"
| "phase_rank WindowPhaseCooling = (2, [])"
| "phase_rank WindowPhaseHeld = (3, [])"
| "phase_rank WindowPhaseClosed = (4, [])"
| "phase_rank (WindowPhaseOther s) = (5, s)"

lemma phase_rank_inj: "phase_rank p = phase_rank q \<Longrightarrow> p = q"
  by (cases p; cases q) auto

instantiation WindowPhase :: linorder
begin

definition less_eq_WindowPhase :: "WindowPhase \<Rightarrow> WindowPhase \<Rightarrow> bool" where
  "p \<le> q \<longleftrightarrow> phase_rank p \<le> phase_rank q"

definition less_WindowPhase :: "WindowPhase \<Rightarrow> WindowPhase \<Rightarrow> bool" where
  "p < q \<longleftrightarrow> phase_rank p < phase_rank q"

instance
  by standard (auto simp: less_eq_WindowPhase_def less_WindowPhase_def dest: phase_rank_inj)

end

lemma phase_order [simp]:
  "WindowPhaseOpen \<le> WindowPhaseCooling" "WindowPhaseCooling \<le> WindowPhaseClosed" "WindowPhaseOpen \<le> WindowPhaseClosed"
  "WindowPhaseUnset \<le> p" "\<not> WindowPhaseClosed \<le> WindowPhaseCooling" "\<not> WindowPhaseCooling \<le> WindowPhaseOpen"
  "\<not> WindowPhaseClosed \<le> WindowPhaseOpen"
  by (cases p; simp add: less_eq_WindowPhase_def less_eq_prod_def)+


section \<open>The controller's clock machine\<close>

text \<open>
  The part of a window that the decision reads and the reconcile writes, and what one
  reconcile observes: the time, the pods at risk, the ready pods off vulnerable nodes and
  the cooldown of the policy.
\<close>

record machine =
  mach_phase :: WindowPhase
  mach_until :: time
  mach_forced :: bool

record observation =
  obs_now :: time
  obs_atRisk :: nat
  obs_safeReady :: int
  obs_exceeded :: bool
  obs_cooldown :: duration

definition machine_input :: "int \<Rightarrow> machine \<Rightarrow> observation \<Rightarrow> windowPhaseInput" where
  "machine_input baseline m ob =
     \<lparr>LiveAtRisk = int (obs_atRisk ob), ForceCool = obs_exceeded ob, ForcedCool = mach_forced m \<or> obs_exceeded ob,
      SafeReady = (if \<not> obs_exceeded ob \<and> obs_atRisk ob = 0 then obs_safeReady ob else baseline),
      Baseline = baseline, WindowUntil = mach_until m, InputNow = obs_now ob\<rparr>"

definition tick :: "int \<Rightarrow> observation \<Rightarrow> machine \<Rightarrow> machine" where
  "tick baseline ob m =
     (let dec = decideWindowStep (machine_input baseline m ob); m' = m\<lparr>mach_forced := mach_forced m \<or> obs_exceeded ob\<rparr>
      in case Step dec of
           stepBeginScaleBack \<Rightarrow> m'\<lparr>mach_phase := WindowPhaseCooling, mach_until := obs_now ob + obs_cooldown ob\<rparr>
         | stepStayCooling \<Rightarrow> m'\<lparr>mach_phase := Phase dec\<rparr>
         | stepClose \<Rightarrow> m'\<lparr>mach_phase := Phase dec\<rparr>
         | _ \<Rightarrow> m'\<lparr>mach_phase := Phase dec, mach_until := 0\<rparr>)"

inductive reach :: "int \<Rightarrow> machine \<Rightarrow> observation list \<Rightarrow> machine \<Rightarrow> bool" for baseline where
  start: "reach baseline m [] m"
| tick: "reach baseline m obs m' \<Longrightarrow> reach baseline m (obs @ [ob]) (tick baseline ob m')"

inductive_cases reach_NilE: "reach b m [] m'"
inductive_cases reach_snocE: "reach b m (obs @ [ob]) m'"

text \<open>An observation with nothing at risk and enough safe pods.\<close>

definition calm :: "int \<Rightarrow> observation \<Rightarrow> bool" where
  "calm baseline ob \<longleftrightarrow> obs_exceeded ob \<or> obs_atRisk ob = 0 \<and> baseline \<le> obs_safeReady ob"


section \<open>Lemmas\<close>

lemma decide_step_iff:
  "Step (decideWindowStep i) \<in> {stepStayOpenVulnerable, stepStayOpenWaitingSpare} \<longleftrightarrow>
     \<not> ForceCool i \<and> (LiveAtRisk i > 0 \<or> SafeReady i < Baseline i)"
  "Step (decideWindowStep i) = stepBeginScaleBack \<longleftrightarrow>
     (ForceCool i \<or> LiveAtRisk i \<le> 0 \<and> Baseline i \<le> SafeReady i) \<and> WindowUntil i = 0"
  "Step (decideWindowStep i) = stepStayCooling \<longleftrightarrow>
     (ForceCool i \<or> LiveAtRisk i \<le> 0 \<and> Baseline i \<le> SafeReady i) \<and> WindowUntil i \<noteq> 0 \<and> InputNow i < WindowUntil i"
  "Step (decideWindowStep i) = stepClose \<longleftrightarrow>
     (ForceCool i \<or> LiveAtRisk i \<le> 0 \<and> Baseline i \<le> SafeReady i) \<and> WindowUntil i \<noteq> 0 \<and> WindowUntil i \<le> InputNow i"
  by (auto simp: decideWindowStep_def Let_def)

lemma maxWindowExceeded_mono:
  "maxWindowExceeded p w now \<Longrightarrow> now \<le> later \<Longrightarrow> maxWindowExceeded p w later"
  by (auto simp: maxWindowExceeded_def Let_def split: option.splits if_splits)

lemma maxWindowExceeded_iff:
  "maxWindowExceeded (Some p) (Some w) now \<longleftrightarrow>
     0 < MaxWindowOrDefault p \<and> windowOpenedAt w \<noteq> 0 \<and> windowOpenedAt w + MaxWindowOrDefault p \<le> now"
  by (auto simp: maxWindowExceeded_def Let_def)

lemma tick_forced [simp]: "mach_forced (tick b ob m) \<longleftrightarrow> mach_forced m \<or> obs_exceeded ob"
  by (simp add: tick_def Let_def split: windowStep.split)

lemma tick_phase:
  "mach_phase (tick b ob m) \<in> {WindowPhaseOpen, WindowPhaseCooling, WindowPhaseClosed}"
  by (auto simp: tick_def Let_def decideWindowStep_def split: windowStep.split)

lemma machine_input_calm:
  "ForceCool (machine_input b m ob) \<or> LiveAtRisk (machine_input b m ob) \<le> 0 \<and>
     Baseline (machine_input b m ob) \<le> SafeReady (machine_input b m ob) \<longleftrightarrow> calm b ob"
  by (auto simp: machine_input_def calm_def)

text \<open>The tick, in terms of calm observations and the cooldown clock.\<close>

lemma tick_cases:
  "tick b ob m =
     (let m' = m\<lparr>mach_forced := mach_forced m \<or> obs_exceeded ob\<rparr> in
      if \<not> calm b ob then m'\<lparr>mach_phase := WindowPhaseOpen, mach_until := 0\<rparr>
      else if mach_until m = 0 then m'\<lparr>mach_phase := WindowPhaseCooling, mach_until := obs_now ob + obs_cooldown ob\<rparr>
      else if obs_now ob < mach_until m then m'\<lparr>mach_phase := WindowPhaseCooling\<rparr>
      else m'\<lparr>mach_phase := WindowPhaseClosed\<rparr>)"
proof -
  let ?i = "machine_input b m ob"
  have u: "WindowUntil ?i = mach_until m" "InputNow ?i = obs_now ob" by (simp_all add: machine_input_def)
  show ?thesis
  proof (cases "calm b ob")
    case True
    then have "ForceCool ?i \<or> LiveAtRisk ?i \<le> 0 \<and> Baseline ?i \<le> SafeReady ?i" by (simp add: machine_input_calm)
    with True u show ?thesis by (auto simp: tick_def Let_def decideWindowStep_def)
  next
    case False
    then have "\<not> (ForceCool ?i \<or> LiveAtRisk ?i \<le> 0 \<and> Baseline ?i \<le> SafeReady ?i)" by (simp add: machine_input_calm)
    with False u show ?thesis by (auto simp: tick_def Let_def decideWindowStep_def)
  qed
qed

lemma calm_exceeded [simp]: "obs_exceeded ob \<Longrightarrow> calm b ob"
  by (simp add: calm_def)

text \<open>An armed clock was armed by a calm observation, and only calm ones came after it.\<close>

lemma reach_armed:
  assumes "reach b m obs m'" and "mach_until m = 0" and "mach_until m' \<noteq> 0"
  shows "\<exists>before ob after. obs = before @ ob # after \<and> list_all (calm b) (ob # after) \<and>
     mach_until m' = obs_now ob + obs_cooldown ob"
  using assms
proof (induction rule: reach.induct)
  case (tick m obs m' ob)
  have calm: "calm b ob" using tick.prems(2) by (auto simp: tick_cases Let_def split: if_splits)
  show ?case
  proof (cases "mach_until m' = 0")
    case True
    with calm have "mach_until (Window_Phase.tick b ob m') = obs_now ob + obs_cooldown ob" by (simp add: tick_cases Let_def)
    with calm show ?thesis by (intro exI [of _ obs] exI [of _ ob] exI [of _ "[]"]) simp
  next
    case False
    with tick obtain xs o1 ys where o1: "obs = xs @ o1 # ys" "list_all (calm b) (o1 # ys)"
        "mach_until m' = obs_now o1 + obs_cooldown o1"
      by blast
    with calm False have "mach_until (Window_Phase.tick b ob m') = obs_now o1 + obs_cooldown o1"
      by (simp add: tick_cases Let_def)
    with o1 calm show ?thesis by (intro exI [of _ xs] exI [of _ o1] exI [of _ "ys @ [ob]"]) simp
  qed
qed simp

lemma reach_calm_until:
  assumes "reach b m obs m'" and "list_all (calm b) obs" and "mach_until m \<noteq> 0"
  shows "mach_until m' = mach_until m"
  using assms by (induction rule: reach.induct) (auto simp: tick_cases Let_def)


lemma reach_append: "reach b m' obs' m'' \<Longrightarrow> reach b m obs m' \<Longrightarrow> reach b m (obs @ obs') m''"
proof (induction rule: reach.induct)
  case (tick m' obs' m'' ob)
  then show ?case using reach.tick [of b m "obs @ obs'" m'' ob] by simp
qed simp

lemma reach_det: "reach b m obs m' \<Longrightarrow> m' = fold (tick b) obs m"
  by (induction rule: reach.induct) simp_all

lemma reach_total: "reach b m obs (fold (tick b) obs m)"
proof (induction obs rule: rev_induct)
  case (snoc ob obs)
  then show ?case using reach.tick by fastforce
qed (simp add: reach.start)


section \<open>Properties\<close>

text \<open>
  C26. A window closes only after a full cooldown without trouble: in every run from an
  unarmed window, when the last reconcile closes it, some reconcile armed the clock, from
  then on every observation was calm (nothing at risk and enough safe pods, or the maximum
  window exceeded), and the closing time is at least the cooldown later.
\<close>

theorem closes_only_after_calm_cooldown:
  assumes "reach b m (obs @ [ob]) m'" and "mach_until m = 0" and "mach_phase m' = WindowPhaseClosed"
  shows "\<exists>before first after. obs = before @ first # after \<and> list_all (calm b) (first # after @ [ob]) \<and>
     obs_now first + obs_cooldown first \<le> obs_now ob"
proof -
  obtain m1 where r: "reach b m obs m1" and m': "m' = tick b ob m1"
    using assms(1) by (elim reach_snocE) auto
  have calm: "calm b ob" and armed: "mach_until m1 \<noteq> 0" and due: "mach_until m1 \<le> obs_now ob"
    using assms(3) by (auto simp: m' tick_cases Let_def split: if_splits)
  obtain xs o1 ys where "obs = xs @ o1 # ys" "list_all (calm b) (o1 # ys)" "mach_until m1 = obs_now o1 + obs_cooldown o1"
    using reach_armed [OF r assms(2) armed] by blast
  with calm due show ?thesis by (intro exI [of _ xs] exI [of _ o1] exI [of _ ys]) simp
qed

theorem closes_only_after_calm_cooldown_witness:
  "\<exists>before first after. [\<lparr>obs_now = 100, obs_atRisk = 0, obs_safeReady = 3, obs_exceeded = False, obs_cooldown = 60\<rparr>] =
       before @ first # after \<and>
     list_all (calm 3) (first # after @ [\<lparr>obs_now = 170, obs_atRisk = 0, obs_safeReady = 3, obs_exceeded = False, obs_cooldown = 60\<rparr>]) \<and>
     obs_now first + obs_cooldown first \<le> 170"
proof -
  let ?a = "\<lparr>obs_now = 100, obs_atRisk = 0, obs_safeReady = 3, obs_exceeded = False, obs_cooldown = 60\<rparr>"
  let ?b = "\<lparr>obs_now = 170, obs_atRisk = 0, obs_safeReady = 3, obs_exceeded = False, obs_cooldown = 60\<rparr>"
  let ?m = "\<lparr>mach_phase = WindowPhaseOpen, mach_until = 0, mach_forced = False\<rparr>"
  have "reach 3 ?m ([?a] @ [?b]) (fold (tick 3) ([?a] @ [?b]) ?m)" by (rule reach_total)
  moreover have "mach_phase (fold (tick 3) ([?a] @ [?b]) ?m) = WindowPhaseClosed"
    by (simp add: tick_cases calm_def)
  ultimately show ?thesis
    using closes_only_after_calm_cooldown [of 3 ?m "[?a]" ?b] by (metis (no_types, lifting) observation.select_convs(1) machine.select_convs(2))
qed

text \<open>
  C27. A calm window does close: from an unarmed window, if all observations are calm and
  the last one is at least the cooldown after the first, the run ends closed.
\<close>

theorem calm_window_closes:
  assumes "mach_until m = 0" and "list_all (calm b) (first # rest @ [ob])"
    and "0 < obs_now first" and "0 \<le> obs_cooldown first" and "obs_now first + obs_cooldown first \<le> obs_now ob"
  shows "mach_phase (fold (tick b) (first # rest @ [ob]) m) = WindowPhaseClosed"
proof -
  let ?m1 = "tick b first m"
  have armed: "mach_until ?m1 = obs_now first + obs_cooldown first" using assms by (simp add: tick_cases Let_def)
  then have "mach_until ?m1 \<noteq> 0" using assms by simp
  with reach_calm_until [OF reach_total] assms(2) have "mach_until (fold (tick b) rest ?m1) = mach_until ?m1" by simp
  with armed assms show ?thesis by (simp add: tick_cases [of b ob] Let_def)
qed

theorem calm_window_closes_witness:
  "mach_phase (fold (tick 3)
     [\<lparr>obs_now = 100, obs_atRisk = 0, obs_safeReady = 3, obs_exceeded = False, obs_cooldown = 60\<rparr>,
      \<lparr>obs_now = 170, obs_atRisk = 0, obs_safeReady = 4, obs_exceeded = False, obs_cooldown = 60\<rparr>]
     \<lparr>mach_phase = WindowPhaseOpen, mach_until = 0, mach_forced = False\<rparr>) = WindowPhaseClosed"
  using calm_window_closes [of "\<lparr>mach_phase = WindowPhaseOpen, mach_until = 0, mach_forced = False\<rparr>" 3
      "\<lparr>obs_now = 100, obs_atRisk = 0, obs_safeReady = 3, obs_exceeded = False, obs_cooldown = 60\<rparr>" "[]"
      "\<lparr>obs_now = 170, obs_atRisk = 0, obs_safeReady = 4, obs_exceeded = False, obs_cooldown = 60\<rparr>"]
  by (simp add: calm_def)

text \<open>
  C28. The maximum window is a one-way door: once exceeded it stays exceeded as time goes
  by, and while it is exceeded the window only moves forward in its life cycle, with the
  forced flag set, whatever else is observed.
\<close>

theorem max_window_is_one_way:
  assumes "list_all obs_exceeded (obs @ [ob])" and "obs \<noteq> []" and "sorted (map obs_now (obs @ [ob]))"
  shows "(if maxWindowExceeded p w now \<and> now \<le> later then maxWindowExceeded p w later else True) \<and>
     (let m' = fold (tick b) obs m in
        mach_forced m' \<and> mach_phase m' \<in> {WindowPhaseCooling, WindowPhaseClosed} \<and> mach_phase m' \<le> mach_phase (tick b ob m'))"
proof -
  obtain xs o1 where obs: "obs = xs @ [o1]" using assms(2) by (cases obs rule: rev_cases) auto
  define m1 where "m1 = fold (tick b) xs m"
  have m': "fold (tick b) obs m = tick b o1 m1" by (simp add: obs m1_def)
  have e: "obs_exceeded o1" "obs_exceeded ob" "obs_now o1 \<le> obs_now ob"
    using assms(1,3) by (simp_all add: obs sorted_append)
  show ?thesis
    unfolding m' using e by (auto simp: tick_cases Let_def intro: maxWindowExceeded_mono)
qed

theorem max_window_is_one_way_witness:
  "let m' = tick 3 \<lparr>obs_now = 100, obs_atRisk = 2, obs_safeReady = 0, obs_exceeded = True, obs_cooldown = 60\<rparr>
       \<lparr>mach_phase = WindowPhaseOpen, mach_until = 0, mach_forced = False\<rparr> in
     mach_forced m' \<and> mach_phase m' \<in> {WindowPhaseCooling, WindowPhaseClosed} \<and>
     mach_phase m' \<le> mach_phase (tick 3 \<lparr>obs_now = 200, obs_atRisk = 2, obs_safeReady = 0, obs_exceeded = True, obs_cooldown = 60\<rparr> m')"
  using max_window_is_one_way [of "[\<lparr>obs_now = 100, obs_atRisk = 2, obs_safeReady = 0, obs_exceeded = True, obs_cooldown = 60\<rparr>]"
      "\<lparr>obs_now = 200, obs_atRisk = 2, obs_safeReady = 0, obs_exceeded = True, obs_cooldown = 60\<rparr>" None None 0 0 3
      "\<lparr>mach_phase = WindowPhaseOpen, mach_until = 0, mach_forced = False\<rparr>"]
  by simp

end
