(* ===== verification/Go_Duration.thy ===== *)
theory Go_Duration
  imports Go_Strings "HOL-Library.Log_Nat"
begin

text \<open>
  Go's \<open>time.ParseDuration\<close>, which the program uses for the \<open>scale-back-after\<close>
  annotation. Integers are \<open>uint64\<close> (the guards keep them below \<open>2 ^ 63\<close>, the running
  sum is taken modulo \<open>2 ^ 64\<close>). The fraction of a unit is computed in \<open>float64\<close>: a
  positive double is the fraction of two naturals, and \<open>dbl\<close> rounds a positive rational
  to 53 significant bits, ties to even.
\<close>


section \<open>Doubles\<close>

definition dbl :: "nat \<Rightarrow> nat \<Rightarrow> nat \<times> nat" where
  "dbl n d =
     (if n = 0 \<or> d = 0 then (0, 1)
      else let e0 = int (floorlog 2 n) - int (floorlog 2 d) - 53;
               scaled = (\<lambda>e. if e \<ge> 0 then (n, d * 2 ^ nat e) else (n * 2 ^ nat (- e), d));
               e = (if fst (scaled e0) \<ge> 2 ^ 53 * snd (scaled e0) then e0 + 1 else e0);
               (a, b) = scaled e;
               q = a div b; r = a mod b;
               q' = (if 2 * r > b \<or> 2 * r = b \<and> odd q then q + 1 else q)
           in if e \<ge> 0 then (q' * 2 ^ nat e, 1) else (q', 2 ^ nat (- e)))"

definition dbl_mult :: "nat \<times> nat \<Rightarrow> nat \<times> nat \<Rightarrow> nat \<times> nat" where
  "dbl_mult x y = dbl (fst x * fst y) (snd x * snd y)"

definition dbl_div :: "nat \<times> nat \<Rightarrow> nat \<times> nat \<Rightarrow> nat \<times> nat" where
  "dbl_div x y = dbl (fst x * snd y) (snd x * fst y)"


section \<open>\<open>ParseDuration\<close>\<close>

definition digit_value :: "char \<Rightarrow> nat" where
  "digit_value c = of_char c - 48"

fun leadingInt :: "string \<Rightarrow> nat \<Rightarrow> (nat \<times> string) option" where
  "leadingInt [] x = Some (x, [])"
| "leadingInt (c # s) x =
     (if \<not> is_digit c then Some (x, c # s)
      else if x > 2 ^ 63 div 10 then None
      else let x' = x * 10 + digit_value c in if x' > 2 ^ 63 then None else leadingInt s x')"

fun leadingFraction :: "string \<Rightarrow> nat \<Rightarrow> nat \<times> nat \<Rightarrow> bool \<Rightarrow> nat \<times> (nat \<times> nat) \<times> string" where
  "leadingFraction [] x scale overflow = (x, scale, [])"
| "leadingFraction (c # s) x scale overflow =
     (if \<not> is_digit c then (x, scale, c # s)
      else if overflow then leadingFraction s x scale True
      else if x > (2 ^ 63 - 1) div 10 then leadingFraction s x scale True
      else let y = x * 10 + digit_value c in
        if y > 2 ^ 63 then leadingFraction s x scale True
        else leadingFraction s y (dbl_mult scale (10, 1)) False)"

definition unitMap :: "(string \<times> nat) list" where
  "unitMap =
     [(''ns'', 1), (''us'', 1000), ([CHR 0xC2, CHR 0xB5, CHR ''s''], 1000), ([CHR 0xCE, CHR 0xBC, CHR ''s''], 1000),
      (''ms'', 1000000), (''s'', 1000000000), (''m'', 60000000000), (''h'', 3600000000000)]"

definition unit_char :: "char \<Rightarrow> bool" where
  "unit_char c \<longleftrightarrow> \<not> (c = CHR ''.'' \<or> is_digit c)"

text \<open>One component of a duration, e.g. \<open>1.5h\<close>: its nanoseconds and the rest of the text.\<close>

definition component :: "string \<Rightarrow> string \<Rightarrow> string + nat \<times> string" where
  "component orig s =
     (let invalid = ''time: invalid duration '' @ quote orig in
      if s = [] \<or> unit_char (hd s) then Inl invalid
      else case leadingInt s 0 of
        None \<Rightarrow> Inl invalid
      | Some (v, s1) \<Rightarrow>
          (let pre = (length s \<noteq> length s1);
               dot = (s1 \<noteq> [] \<and> hd s1 = CHR ''.'');
               (f, scale, s2) = (if dot then leadingFraction (tl s1) 0 (1, 1) False else (0, (1, 1), s1));
               post = (dot \<and> length (tl s1) \<noteq> length s2)
           in if \<not> pre \<and> \<not> post then Inl invalid
              else let u = takeWhile unit_char s2; s3 = dropWhile unit_char s2 in
                if u = [] then Inl (''time: missing unit in duration '' @ quote orig)
                else case map_of unitMap u of
                  None \<Rightarrow> Inl (''time: unknown unit '' @ quote u @ '' in duration '' @ quote orig)
                | Some unit \<Rightarrow>
                    if v > 2 ^ 63 div unit then Inl invalid
                    else let x = dbl_mult (dbl f 1) (dbl_div (dbl unit 1) scale);
                             v' = (if f > 0 then v * unit + fst x div snd x else v * unit)
                         in if v' > 2 ^ 63 then Inl invalid else Inr (v', s3)))"

lemma leadingInt_shorter: "leadingInt s x = Some (y, s') \<Longrightarrow> length s' \<le> length s"
  by (induction s x rule: leadingInt.induct) (auto simp: Let_def split: if_splits)

lemma leadingFraction_shorter: "leadingFraction s x sc ov = (y, sc', s') \<Longrightarrow> length s' \<le> length s"
  by (induction s x sc ov rule: leadingFraction.induct) (auto simp: Let_def split: if_splits)

lemma component_shorter:
  assumes "component orig s = Inr (v, s')"
  shows "length s' < length s"
proof -
  obtain w s1 where i: "leadingInt s 0 = Some (w, s1)"
    using assms by (auto simp: component_def Let_def split: if_splits option.splits prod.splits)
  obtain f sc s2 where f: "(if s1 \<noteq> [] \<and> hd s1 = CHR ''.'' then leadingFraction (tl s1) 0 (1, 1) False else (0, (1, 1), s1)) = (f, sc, s2)"
    by (metis prod_cases3)
  have s2: "length s2 \<le> length s1" using f leadingFraction_shorter [of "tl s1"] by (fastforce split: if_splits)
  have "takeWhile unit_char s2 \<noteq> []" and s': "s' = dropWhile unit_char s2"
    using assms i f by (auto simp: component_def Let_def split: if_splits option.splits)
  then have "length s' < length s2"
    by (metis append_eq_conv_conj drop_eq_Nil length_append length_greater_0_conv less_add_same_cancel2 takeWhile_dropWhile_id)
  with s2 leadingInt_shorter [OF i] show ?thesis by simp
qed

function ParseDuration_loop :: "string \<Rightarrow> string \<Rightarrow> nat \<Rightarrow> string + nat" where
  "ParseDuration_loop orig s d =
     (if s = [] then Inr d
      else case component orig s of
        Inl e \<Rightarrow> Inl e
      | Inr (v, s') \<Rightarrow>
          (let d' = (d + v) mod 2 ^ 64 in
           if d' > 2 ^ 63 then Inl (''time: invalid duration '' @ quote orig) else ParseDuration_loop orig s' d'))"
  by pat_completeness auto
termination
  by (relation "measure (\<lambda>(orig, s, d). length s)") (auto dest: component_shorter)

declare ParseDuration_loop.simps [simp del]

definition ParseDuration :: "string \<Rightarrow> string + duration" where
  "ParseDuration orig =
     (let signed = (orig \<noteq> [] \<and> (hd orig = CHR ''-'' \<or> hd orig = CHR ''+''));
          neg = (orig \<noteq> [] \<and> hd orig = CHR ''-'');
          s = (if signed then tl orig else orig)
      in if s = ''0'' then Inr 0
         else if s = [] then Inl (''time: invalid duration '' @ quote orig)
         else case ParseDuration_loop orig s 0 of
           Inl e \<Rightarrow> Inl e
         | Inr d \<Rightarrow>
             if neg then Inr (- int d)
             else if d > 2 ^ 63 - 1 then Inl (''time: invalid duration '' @ quote orig)
             else Inr (int d))"

text \<open>
  \<open>Duration.String\<close>: hours, minutes and seconds with the fraction of a second, or a
  smaller unit below one second. \<open>fraction prec v\<close> prints \<open>v / 10 ^ prec\<close> after the point
  without trailing zeros.
\<close>

definition fraction :: "nat \<Rightarrow> nat \<Rightarrow> string" where
  "fraction prec v =
     (let ds = digits10 v;
          padded = replicate (prec - length ds) (CHR ''0'') @ ds;
          sig = rev (dropWhile (\<lambda>c. c = CHR ''0'') (rev padded))
      in if sig = [] then [] else CHR ''.'' # sig)"

definition DurationString :: "duration \<Rightarrow> string" where
  "DurationString d =
     (let u = nat \<bar>d\<bar>; sign = (if d < 0 then ''-'' else []) in
      if u = 0 then ''0s''
      else if u < 1000 then sign @ digits10 u @ ''ns''
      else if u < 1000000 then sign @ digits10 (u div 1000) @ fraction 3 (u mod 1000) @ [CHR 0xC2, CHR 0xB5, CHR ''s'']
      else if u < 1000000000 then sign @ digits10 (u div 1000000) @ fraction 6 (u mod 1000000) @ ''ms''
      else (let secs = u div 1000000000; mins = secs div 60; hours = mins div 60 in
        sign @ (if hours > 0 then digits10 hours @ ''h'' else []) @
        (if mins > 0 then digits10 (mins mod 60) @ ''m'' else []) @
        digits10 (secs mod 60) @ fraction 9 (u mod 1000000000) @ ''s''))"


section \<open>Lemmas\<close>

text \<open>A parsed duration fits the 64-bit range of \<open>time.Duration\<close>.\<close>

lemma ParseDuration_loop_bound: "ParseDuration_loop orig s d = Inr r \<Longrightarrow> d \<le> 2 ^ 63 \<Longrightarrow> r \<le> 2 ^ 63"
proof (induction orig s d rule: ParseDuration_loop.induct)
  case (1 orig s d)
  from 1(2) show ?case
    by (subst (asm) ParseDuration_loop.simps)
      (use 1(1,3) in \<open>auto simp: Let_def split: if_splits sum.splits prod.splits\<close>)
qed

lemma ParseDuration_bounds:
  assumes "ParseDuration s = Inr d"
  shows "min_duration \<le> d \<and> d \<le> max_duration"
  using assms ParseDuration_loop_bound [of s _ 0]
  by (auto simp: ParseDuration_def Let_def min_duration_def max_duration_def split: if_splits sum.splits)

end
