(* ===== verification/Validate.thy ===== *)
theory Validate
  imports Bindings Filters Field_Backend Go_Duration
begin

text \<open>
  \<open>pkg/validate\<close>: the checks that the admission webhooks run on workload annotations and
  policies. A result is \<open>Inl\<close> of the error or \<open>Inr ()\<close>. The two regular expressions are
  bool-valued functions on strings. The catalog is visited in the order of its
  association list, one of the orders in which Go may visit a map.
\<close>


section \<open>Definitions\<close>

definition dns_alnum :: "char \<Rightarrow> bool" where
  "dns_alnum c \<longleftrightarrow> is_lower c \<or> is_digit c"

definition dns1123Label :: "string \<Rightarrow> bool" where
  "dns1123Label s \<longleftrightarrow> s \<noteq> [] \<and> dns_alnum (hd s) \<and> dns_alnum (last s) \<and> list_all (\<lambda>c. dns_alnum c \<or> c = CHR ''-'') s"

definition fieldPathSeg :: "string \<Rightarrow> bool" where
  "fieldPathSeg s \<longleftrightarrow> s \<noteq> [] \<and> (is_upper (hd s) \<or> is_lower (hd s) \<or> hd s = CHR ''_'') \<and>
     list_all (\<lambda>c. is_upper c \<or> is_lower c \<or> is_digit c \<or> c = CHR ''_'') (tl s)"

definition ScaleBackendRequired :: "strmap \<Rightarrow> goerror + unit" where
  "ScaleBackendRequired ann =
     (let raw = (if ann \<noteq> [] then mget ann ScaleBackendAnnotation else []) in
      if TrimSpace raw = []
      then Inl (ErrorString (ScaleBackendAnnotation @
        '' is required (list policy.spec.backends keys; first key is SpareReady primary)''))
      else Inr ())"

definition check_scale_backend :: "string \<Rightarrow> strmap \<Rightarrow> goerror + unit" where
  "check_scale_backend namespace ann =
     (let raw = mget ann ScaleBackendAnnotation in
      if raw \<noteq> [] then
        (case ParseBindings raw namespace ''workload'' of
           Inl e \<Rightarrow> Inl (WrapError (ScaleBackendAnnotation @ '': '') e [])
         | Inr _ \<Rightarrow> Inr ())
      else Inr ())"

definition check_scale_back_after :: "strmap \<Rightarrow> goerror + unit" where
  "check_scale_back_after ann =
     (let raw = mget ann ScaleBackAfterAnnotation in
      if raw \<noteq> [] then
        (case ParseDuration raw of
           Inl e \<Rightarrow> Inl (WrapError (ScaleBackAfterAnnotation @ '': '') (ErrorString e) '' (want a Go duration such as 1m or 1h)'')
         | Inr d \<Rightarrow> if d \<le> 0 then Inl (ErrorString (ScaleBackAfterAnnotation @ '' must be greater than 0'')) else Inr ())
      else Inr ())"

definition check_stamp :: "strmap \<Rightarrow> goerror + unit" where
  "check_stamp ann =
     (let raw = mget ann StampAnnotation in
      if raw \<noteq> [] \<and> raw \<noteq> ''true'' \<and> raw \<noteq> ''false''
      then Inl (ErrorString (StampAnnotation @ '' must be '' @ quote ''true'' @ '' or '' @ quote ''false'')) else Inr ())"

definition check_pin :: "strmap \<Rightarrow> goerror + unit" where
  "check_pin ann =
     (let raw = TrimSpace (mget ann PolicyPinAnnotation) in
      if raw \<noteq> [] \<and> (length raw > 63 \<or> \<not> dns1123Label raw)
      then Inl (ErrorString (PolicyPinAnnotation @ '' must be a DNS-1123 label (policy name)'')) else Inr ())"

definition WorkloadAnnotations :: "string \<Rightarrow> strmap \<Rightarrow> goerror + unit" where
  "WorkloadAnnotations namespace ann =
     (if ann = [] then Inr ()
      else sum_bind (check_scale_backend namespace ann) (\<lambda>_.
           sum_bind (check_scale_back_after ann) (\<lambda>_.
           sum_bind (check_stamp ann) (\<lambda>_. check_pin ann))))"

definition validateLabelSelector :: "env \<Rightarrow> string \<Rightarrow> LabelSelector option \<Rightarrow> goerror + unit" where
  "validateLabelSelector E field sel =
     (if sel = None then Inr ()
      else case LabelSelectorAsSelector E sel of
        Inl e \<Rightarrow> Inl (WrapError (field @ '': '') e [])
      | Inr _ \<Rightarrow> Inr ())"

definition validateFieldPath :: "string \<Rightarrow> goerror + unit" where
  "validateFieldPath path0 =
     (let path = TrimSpace path0 in
      if path = [] then Inl (ErrorString ''empty'')
      else if HasPrefix path ''.'' \<or> HasSuffix path ''.'' \<or> Contains path ''..''
      then Inl (ErrorString (quote path @ '' has empty segments''))
      else if \<not> list_all fieldPathSeg (SplitCh (CHR ''.'') path)
      then Inl (ErrorString (quote path @ '' is not a simple dotted path''))
      else Inr ())"

fun check_patches :: "string \<Rightarrow> nat \<Rightarrow> string list \<Rightarrow> BackendPatch list \<Rightarrow> goerror + unit" where
  "check_patches key i seenPath [] = Inr ()"
| "check_patches key i seenPath (patch # patches) =
     (let loc = ''spec.backends['' @ key @ ''].patches['' @ FormatInt (int i) @ '']'' in
      if bp_path patch = [] \<and> bp_annotation patch = [] then Inl (ErrorString (loc @ '': set path or annotation''))
      else if bp_path patch \<noteq> [] then
        (case validateFieldPath (bp_path patch) of
           Inl e \<Rightarrow> Inl (WrapError (loc @ ''.path: '') e [])
         | Inr _ \<Rightarrow>
             if bp_path patch \<in> set seenPath
             then Inl (ErrorString (''spec.backends['' @ key @ '']: duplicate path '' @ quote (bp_path patch)))
             else check_patches key (i + 1) (bp_path patch # seenPath) patches)
      else check_patches key (i + 1) seenPath patches)"

fun check_backends :: "(string, BackendCatalogEntry) gomap \<Rightarrow> goerror + unit" where
  "check_backends [] = Inr ()"
| "check_backends ((key, entry) # rest) =
     (if TrimSpace key = [] then Inl (ErrorString ''spec.backends: empty key'')
      else if length key > 63 \<or> \<not> dns1123Label key
      then Inl (ErrorString (''spec.backends['' @ key @ '']: key must be a DNS-1123 label''))
      else if be_apiVersion entry = [] \<or> be_kind entry = []
      then Inl (ErrorString (''spec.backends['' @ key @ '']: apiVersion and kind are required''))
      else if length (be_patches entry) = 0 then check_backends rest
      else sum_bind (check_patches key 0 [] (be_patches entry)) (\<lambda>_. check_backends rest))"

definition Policy :: "env \<Rightarrow> EvictionGuardPolicy option \<Rightarrow> goerror + unit" where
  "Policy E p0 =
     (case p0 of None \<Rightarrow> Inr ()
      | Some p \<Rightarrow>
        let spec = pol_spec p; nf = spec_nodeFilter spec in
        sum_bind (validateLabelSelector E ''spec.nodeFilter.labelSelector'' (nf_labelSelector nf)) (\<lambda>_.
        sum_bind (validateLabelSelector E ''spec.nodeFilter.excludeLabelSelector'' (nf_excludeLabelSelector nf)) (\<lambda>_.
        sum_bind (validateLabelSelector E ''spec.workloadSelector'' (spec_workloadSelector spec)) (\<lambda>_.
        sum_bind (validateLabelSelector E ''spec.namespaceSelector'' (spec_namespaceSelector spec)) (\<lambda>_.
        sum_bind (if nf_namePattern nf \<noteq> [] then
                    (case Match (nf_namePattern nf) [] of
                       Inl e \<Rightarrow> Inl (WrapError ''spec.nodeFilter.namePattern: '' e [])
                     | Inr _ \<Rightarrow> Inr ())
                  else Inr ()) (\<lambda>_.
        if (case spec_scaleBackAfter spec of None \<Rightarrow> False | Some d \<Rightarrow> d < 0)
        then Inl (ErrorString ''spec.scaleBackAfter must not be negative'')
        else if (case spec_maxWindow spec of None \<Rightarrow> False | Some d \<Rightarrow> d < 0)
        then Inl (ErrorString ''spec.maxWindow must not be negative (0 means unlimited)'')
        else if mlen (spec_backends spec) = 0 then Inl (ErrorString ''spec.backends is required'')
        else check_backends (spec_backends spec)))))))"


section \<open>Lemmas\<close>

lemma validateLabelSelector_ok: "validateLabelSelector E f s = Inr () \<longleftrightarrow> selector_compiles E s"
  by (cases "LabelSelectorAsSelector E s") (auto simp: validateLabelSelector_def selector_compiles_def)

lemma check_patches_ok:
  "check_patches key i seen ps = Inr () \<longleftrightarrow>
     list_all (\<lambda>p. \<not> (bp_path p = [] \<and> bp_annotation p = [])) ps \<and>
     list_all (\<lambda>p. bp_path p \<noteq> [] \<longrightarrow> validateFieldPath (bp_path p) = Inr ()) ps \<and>
     distinct (filter (\<lambda>x. x \<noteq> []) (map bp_path ps)) \<and> set (filter (\<lambda>x. x \<noteq> []) (map bp_path ps)) \<inter> set seen = {}"
  by (induction ps arbitrary: i seen) (auto simp: Let_def split: sum.splits)

lemma check_backends_ok:
  assumes "check_backends cat = Inr ()" and "(key, entry) \<in> set cat"
  shows "dns1123Label key \<and> length key \<le> 63 \<and> be_apiVersion entry \<noteq> [] \<and> be_kind entry \<noteq> [] \<and>
     patches_ok (be_patches entry) \<and>
     list_all (\<lambda>p. bp_path p \<noteq> [] \<longrightarrow> validateFieldPath (bp_path p) = Inr ()) (be_patches entry)"
  using assms
proof (induction cat rule: check_backends.induct)
  case (2 k e rest)
  note ok = 2(3) and mem = 2(4)
  show ?case
  proof (cases "(key, entry) = (k, e)")
    case True
    with ok have "check_patches k 0 [] (be_patches e) = Inr () \<or> be_patches e = []"
      by (auto simp: sum_bind_eq_Inr_iff split: if_splits)
    then have "patches_ok (be_patches e) \<and>
        list_all (\<lambda>p. bp_path p \<noteq> [] \<longrightarrow> validateFieldPath (bp_path p) = Inr ()) (be_patches e)"
      by (auto simp: check_patches_ok patches_ok_def)
    moreover have "dns1123Label k \<and> length k \<le> 63 \<and> be_apiVersion e \<noteq> [] \<and> be_kind e \<noteq> []"
      using ok by (auto split: if_splits)
    ultimately show ?thesis using True by simp
  next
    case False
    then have "(key, entry) \<in> set rest" using mem by auto
    moreover have "check_backends rest = Inr ()" using ok by (auto simp: sum_bind_eq_Inr_iff split: if_splits)
    ultimately show ?thesis using 2 by (cases "be_patches e = []") (auto simp: sum_bind_eq_Inr_iff split: if_splits)
  qed
qed simp

lemma Policy_ok:
  assumes "Policy E (Some p) = Inr ()"
  shows "selector_compiles E (nf_labelSelector (spec_nodeFilter (pol_spec p)))"
    and "selector_compiles E (nf_excludeLabelSelector (spec_nodeFilter (pol_spec p)))"
    and "selector_compiles E (spec_workloadSelector (pol_spec p))"
    and "selector_compiles E (spec_namespaceSelector (pol_spec p))"
    and "nf_namePattern (spec_nodeFilter (pol_spec p)) = [] \<or> \<not> isl (Match (nf_namePattern (spec_nodeFilter (pol_spec p))) [])"
    and "0 \<le> MaxWindowOrDefault p" and "0 \<le> ScaleBackAfterOrDefault p"
    and "mlen (spec_backends (pol_spec p)) \<noteq> 0" and "check_backends (spec_backends (pol_spec p)) = Inr ()"
  using assms
  by (auto simp: Policy_def Let_def sum_bind_eq_Inr_iff validateLabelSelector_ok MaxWindowOrDefault_def
      ScaleBackAfterOrDefault_def go_simps hour_def minute_def second_def split: if_splits option.splits sum.splits)

lemma WorkloadAnnotations_ok:
  assumes "WorkloadAnnotations ns ann = Inr ()" and "ann \<noteq> []"
  shows "check_scale_backend ns ann = Inr ()" and "check_scale_back_after ann = Inr ()"
    and "check_stamp ann = Inr ()" and "check_pin ann = Inr ()"
  using assms by (auto simp: WorkloadAnnotations_def sum_bind_eq_Inr_iff)

text \<open>An admitted path, without surrounding blanks, is split into identifiers by the field backend.\<close>

lemma validateFieldPath_ok:
  assumes "validateFieldPath path = Inr ()"
  shows "TrimSpace path \<noteq> [] \<and> \<not> HasPrefix (TrimSpace path) ''.'' \<and> list_all fieldPathSeg (splitFieldPath (TrimSpace path))"
  using assms by (auto simp: validateFieldPath_def Let_def splitFieldPath_def TrimPrefix_def split: if_splits)

lemma TrimSpace_blanks: "list_all is_space b \<Longrightarrow> TrimSpace (b @ s) = TrimSpace s"
  by (simp add: TrimSpace_def trim_by_def dropWhile_append2 list_all_iff)

lemma not_dot_hd_trim:
  assumes "\<not> HasPrefix (TrimSpace path) ''.''"
  shows "\<not> HasPrefix path ''.''"
proof
  assume "HasPrefix path ''.''"
  then obtain rest where path: "path = CHR ''.'' # rest" by (cases path) (auto simp: HasPrefix_def)
  have "dropWhile is_space (rev rest @ [CHR ''.'']) = dropWhile is_space (rev rest) @ [CHR ''.'']"
    by (simp add: dropWhile_append3 dropWhile_append is_space_def)
  then have "TrimSpace path = CHR ''.'' # rev (dropWhile is_space (rev rest))"
    by (simp add: path TrimSpace_def trim_by_def) (simp add: is_space_def)
  with assms show False by (simp add: HasPrefix_def)
qed

lemma SplitCh_blanks:
  assumes "d \<notin> set b"
  shows "SplitCh d (b @ s) = (b @ hd (SplitCh d s)) # tl (SplitCh d s)"
  using assms by (induction b) (auto split: list.split)

text \<open>What surrounding blanks do to the segments that the patcher uses.\<close>

lemma splitFieldPath_blanks:
  assumes "validateFieldPath path = Inr ()" and "list_all is_space b" and "b \<noteq> []"
  shows "splitFieldPath (b @ path) = (b @ hd (splitFieldPath path)) # tl (splitFieldPath path) \<and>
     \<not> fieldPathSeg (hd (splitFieldPath (b @ path)))"
proof -
  have path: "path \<noteq> []" "\<not> HasPrefix path ''.''"
    using validateFieldPath_ok [OF assms(1)] not_dot_hd_trim by auto
  obtain c b' where b: "b = c # b'" "is_space c" using assms(2,3) by (cases b) auto
  have "\<not> is_space (CHR ''.'')" by (simp add: is_space_def)
  then have "CHR ''.'' \<notin> set b" using assms(2) unfolding list_all_iff by blast
  moreover have "\<not> HasPrefix (b @ path) ''.''" using b by (auto simp: HasPrefix_def is_space_def)
  ultimately have "splitFieldPath (b @ path) = (b @ hd (splitFieldPath path)) # tl (splitFieldPath path)"
    using path by (simp add: splitFieldPath_def TrimPrefix_def SplitCh_blanks)
  moreover have "\<not> fieldPathSeg (b @ seg)" for seg
    using b by (auto simp: fieldPathSeg_def is_space_def is_upper_def is_lower_def less_eq_char_def)
  ultimately show ?thesis by simp
qed

text \<open>A policy with a blank prefix put before every field path of its catalog, and the steps with it.\<close>

definition blank_patch :: "string \<Rightarrow> BackendPatch \<Rightarrow> BackendPatch" where
  "blank_patch b p = (if bp_path p = [] then p else p\<lparr>bp_path := b @ bp_path p\<rparr>)"

definition blank_catalog :: "string \<Rightarrow> (string, BackendCatalogEntry) gomap \<Rightarrow> (string, BackendCatalogEntry) gomap" where
  "blank_catalog b cat = map (\<lambda>(key, entry). (key, entry\<lparr>be_patches := map (blank_patch b) (be_patches entry)\<rparr>)) cat"

definition blank_policy :: "string \<Rightarrow> EvictionGuardPolicy \<Rightarrow> EvictionGuardPolicy" where
  "blank_policy b p = p\<lparr>pol_spec := (pol_spec p)\<lparr>spec_backends := blank_catalog b (spec_backends (pol_spec p))\<rparr>\<rparr>"

definition blank_step :: "string \<Rightarrow> ResolvedStep \<Rightarrow> ResolvedStep" where
  "blank_step b s = s\<lparr>rstep_target := (rstep_target s)\<lparr>tgt_fieldPath := b @ tgt_fieldPath (rstep_target s)\<rparr>\<rparr>"

lemma blank_patch_simps [simp]:
  "bp_annotation (blank_patch b p) = bp_annotation p" "bp_path (blank_patch b p) = [] \<longleftrightarrow> bp_path p = []"
  by (simp_all add: blank_patch_def)

lemma blank_paths: "filter (\<lambda>x. x \<noteq> []) (map bp_path (map (blank_patch b) ps)) = map ((@) b) (filter (\<lambda>x. x \<noteq> []) (map bp_path ps))"
  by (induction ps) (auto simp: blank_patch_def)

lemma blank_patches_ok: "patches_ok (map (blank_patch b) ps) = patches_ok ps"
  unfolding patches_ok_def blank_paths by (simp add: list.pred_map o_def distinct_map inj_on_def)

lemma blank_validate:
  assumes "list_all is_space b"
  shows "validateFieldPath (bp_path (blank_patch b p)) = validateFieldPath (bp_path p)"
  using TrimSpace_blanks [OF assms] by (simp add: blank_patch_def validateFieldPath_def)

lemma blank_check_patches:
  assumes "list_all is_space b"
  shows "check_patches key 0 [] (map (blank_patch b) ps) = Inr () \<longleftrightarrow> check_patches key 0 [] ps = Inr ()"
  unfolding check_patches_ok blank_paths
  by (simp add: list.pred_map o_def blank_validate [OF assms] distinct_map inj_on_def)

lemma blank_check_backends:
  assumes "list_all is_space b"
  shows "check_backends (blank_catalog b cat) = Inr () \<longleftrightarrow> check_backends cat = Inr ()"
  by (induction cat rule: check_backends.induct)
    (auto simp: blank_catalog_def sum_bind_eq_Inr_iff blank_check_patches [OF assms])

lemma blank_Policy:
  assumes "list_all is_space b"
  shows "Policy E (Some (blank_policy b p)) = Inr () \<longleftrightarrow> Policy E (Some p) = Inr ()"
proof -
  have "mlen (blank_catalog b cat) = mlen cat" for cat
    by (simp add: mlen_def mkeys_def blank_catalog_def case_prod_unfold o_def)
  then show ?thesis
    by (auto simp: Policy_def Let_def blank_policy_def sum_bind_eq_Inr_iff blank_check_backends [OF assms])
qed

lemma blank_map_of:
  "map_of (blank_catalog b cat) k = map_option (\<lambda>entry. entry\<lparr>be_patches := map (blank_patch b) (be_patches entry)\<rparr>) (map_of cat k)"
  by (induction cat) (auto simp: blank_catalog_def)

lemma blank_entry_steps:
  "entry_steps bd (entry\<lparr>be_patches := map (blank_patch b) (be_patches entry)\<rparr>) = map (blank_step b) (entry_steps bd entry)"
proof -
  have "binding_steps bd (entry\<lparr>be_patches := ps\<rparr>) i anns (map ((@) b) paths) = map (blank_step b) (binding_steps bd entry i anns paths)"
    for ps i anns paths
    by (induction paths arbitrary: i) (simp_all add: binding_step_def blank_step_def)
  note steps = this
  have anns: "map bp_annotation (map (blank_patch b) ps) = map bp_annotation ps" for ps by simp
  have patches: "be_patches (entry\<lparr>be_patches := ps\<rparr>) = ps" for ps by simp
  show ?thesis unfolding entry_steps_def patches anns blank_paths by (rule steps)
qed

lemma admitted_entries:
  assumes "Policy E (Some p) = Inr ()" and "set (map bind_key bs) \<subseteq> set (mkeys (spec_backends (pol_spec p)))"
  shows "\<forall>b \<in> set bs. \<exists>entry. map_of (spec_backends (pol_spec p)) (bind_key b) = Some entry \<and> patches_ok (be_patches entry)"
proof
  fix b
  assume "b \<in> set bs"
  with assms(2) have "bind_key b \<in> fst ` set (spec_backends (pol_spec p))" by auto
  then obtain entry where e: "map_of (spec_backends (pol_spec p)) (bind_key b) = Some entry"
    by (meson map_of_eq_None_iff not_None_eq)
  then show "\<exists>entry. map_of (spec_backends (pol_spec p)) (bind_key b) = Some entry \<and> patches_ok (be_patches entry)"
    using check_backends_ok [OF Policy_ok(9) [OF assms(1)] map_of_SomeD [OF e]] by blast
qed

lemma admitted_resolves:
  assumes "Policy E (Some p) = Inr ()" and "set (map bind_key bs) \<subseteq> set (mkeys (spec_backends (pol_spec p)))"
  shows "ResolveCatalog dep (Some p) bs =
     Inr (concat (map (\<lambda>b. entry_steps b (the (map_of (spec_backends (pol_spec p)) (bind_key b)))) bs))"
  using ResolveCatalog_loop_spec [of "spec_backends (pol_spec p)" bs "[]"] admitted_entries [OF assms] Policy_ok(8) [OF assms(1)]
  by (simp add: ResolveCatalog_def)

text \<open>The paths of the resolved steps are paths of the catalog, so they were checked.\<close>

lemma admitted_step_paths:
  assumes "Policy E (Some p) = Inr ()" and "set (map bind_key bs) \<subseteq> set (mkeys (spec_backends (pol_spec p)))"
    and "ResolveCatalog dep (Some p) bs = Inr steps" and "s \<in> set steps"
  shows "validateFieldPath (tgt_fieldPath (rstep_target s)) = Inr ()"
proof -
  let ?cat = "spec_backends (pol_spec p)"
  obtain b where b: "b \<in> set bs" "s \<in> set (entry_steps b (the (map_of ?cat (bind_key b))))"
    using assms(3,4) admitted_resolves [OF assms(1,2)] by auto
  obtain entry where e: "map_of ?cat (bind_key b) = Some entry" using admitted_entries [OF assms(1,2)] b(1) by blast
  have "map (\<lambda>s. (rstep_key s, tgt_fieldPath (rstep_target s))) (entry_steps b entry) =
      map (\<lambda>path. (bind_key b, path)) (filter (\<lambda>x. x \<noteq> []) (map bp_path (be_patches entry)))"
    unfolding entry_steps_def by (rule binding_steps_shape)
  then have "(rstep_key s, tgt_fieldPath (rstep_target s)) \<in>
      (\<lambda>path. (bind_key b, path)) ` set (filter (\<lambda>x. x \<noteq> []) (map bp_path (be_patches entry)))"
    using b(2) e by (metis (no_types, lifting) image_eqI list.set_map option.sel)
  with check_backends_ok [OF Policy_ok(9) [OF assms(1)] map_of_SomeD [OF e]] show ?thesis
    by (auto simp: list_all_iff)
qed



section \<open>Properties\<close>

text \<open>
  C33. What admission accepts, the controllers can use: for an admitted policy the node
  filter compiles, the workload and namespace selectors compile, the limits are not
  negative, and every binding list over its catalog keys resolves to steps. Each step names
  the kind of its object, and its field path, up to surrounding blanks, is not empty and
  consists of identifiers separated by single dots.
\<close>

theorem admitted_policy_is_usable:
  assumes "Policy E (Some p) = Inr ()" and "set (map bind_key bs) \<subseteq> set (mkeys (spec_backends (pol_spec p)))"
  shows "\<not> isl (FromSpec E (spec_nodeFilter (pol_spec p))) \<and>
     selector_compiles E (spec_workloadSelector (pol_spec p)) \<and>
     selector_compiles E (spec_namespaceSelector (pol_spec p)) \<and>
     0 \<le> MaxWindowOrDefault p \<and> 0 \<le> ScaleBackAfterOrDefault p \<and>
     (\<exists>steps. ResolveCatalog dep (Some p) bs = Inr steps \<and>
       list_all (\<lambda>s. TrimSpace (tgt_fieldPath (rstep_target s)) \<noteq> [] \<and>
         list_all fieldPathSeg (splitFieldPath (TrimSpace (tgt_fieldPath (rstep_target s))))) steps)"
proof -
  note ok = Policy_ok [OF assms(1)]
  have "\<not> isl (FromSpec E (spec_nodeFilter (pol_spec p)))"
    using ok(1,2,5)
    by (auto simp: FromSpec_def selector_compiles_def isl_def split: option.splits sum.splits)
  moreover have "\<exists>steps. ResolveCatalog dep (Some p) bs = Inr steps \<and>
       list_all (\<lambda>s. TrimSpace (tgt_fieldPath (rstep_target s)) \<noteq> [] \<and>
         list_all fieldPathSeg (splitFieldPath (TrimSpace (tgt_fieldPath (rstep_target s))))) steps"
    using admitted_resolves [OF assms, of dep] admitted_step_paths [OF assms, of dep] validateFieldPath_ok
    unfolding list_all_iff by blast
  ultimately show ?thesis using ok(3,4,6,7) by simp
qed

lemma catalog_policy_admitted: "Policy E (Some catalog_policy) = Inr ()"
proof -
  have trim: "TrimSpace s = s" if "list_all (\<lambda>c. \<not> is_space c) s" for s by (rule TrimSpace_no_space [OF that])
  have paths: "validateFieldPath ''spec.minReplicas'' = Inr ()" "validateFieldPath ''spec.maxReplicas'' = Inr ()"
    by (simp_all add: validateFieldPath_def trim is_space_def HasPrefix_def HasSuffix_def fieldPathSeg_def
        is_upper_def is_lower_def is_digit_def)
  have key: "TrimSpace ''hpa'' = ''hpa''" "dns1123Label ''hpa''"
    by (simp_all add: trim is_space_def dns1123Label_def dns_alnum_def is_lower_def)
  show ?thesis
    by (simp add: Policy_def catalog_policy_def plain_policy_def empty_node_filter_def validateLabelSelector_def
        mlen_def mkeys_def key paths)
qed

theorem admitted_policy_is_usable_witness:
  "\<not> isl (FromSpec std_env (spec_nodeFilter (pol_spec catalog_policy))) \<and>
   \<not> isl (ResolveCatalog None (Some catalog_policy) [\<lparr>bind_key = ''hpa'', bind_namespace = ''shop'', bind_name = ''web''\<rparr>])"
  using admitted_policy_is_usable [OF catalog_policy_admitted,
      of "[\<lparr>bind_key = ''hpa'', bind_namespace = ''shop'', bind_name = ''web''\<rparr>]" std_env None]
  by (auto simp: catalog_policy_def mkeys_def)

text \<open>
  C34. The field-path check trims blanks, the resolution and the patcher do not: when blanks
  are put before every path of the catalog of an admitted policy, the policy is still
  admitted and every binding list resolves to the same steps with the blanks in their
  paths; the patcher then splits each such path into the old segments except the first,
  which is the old one with the blanks and no identifier, so another field is addressed.
\<close>

theorem blank_path_is_admitted:
  assumes "Policy E (Some p) = Inr ()" and "set (map bind_key bs) \<subseteq> set (mkeys (spec_backends (pol_spec p)))"
    and "list_all is_space b" and "b \<noteq> []" and "ResolveCatalog dep (Some p) bs = Inr steps"
  shows "Policy E (Some (blank_policy b p)) = Inr () \<and>
     ResolveCatalog dep (Some (blank_policy b p)) bs = Inr (map (blank_step b) steps) \<and>
     list_all (\<lambda>s. splitFieldPath (tgt_fieldPath (rstep_target (blank_step b s))) =
         (b @ hd (splitFieldPath (tgt_fieldPath (rstep_target s)))) # tl (splitFieldPath (tgt_fieldPath (rstep_target s))) \<and>
       \<not> fieldPathSeg (hd (splitFieldPath (tgt_fieldPath (rstep_target (blank_step b s)))))) steps"
proof -
  let ?cat = "spec_backends (pol_spec p)"
  have adm: "Policy E (Some (blank_policy b p)) = Inr ()" using assms(1) blank_Policy [OF assms(3)] by simp
  have cat: "spec_backends (pol_spec (blank_policy b p)) = blank_catalog b ?cat" by (simp add: blank_policy_def)
  have "set (mkeys (blank_catalog b ?cat)) = set (mkeys ?cat)"
    by (simp add: mkeys_def blank_catalog_def image_image case_prod_unfold)
  with assms(2) cat have keys: "set (map bind_key bs) \<subseteq> set (mkeys (spec_backends (pol_spec (blank_policy b p))))" by simp
  have "entry_steps x (the (map_of (blank_catalog b ?cat) (bind_key x))) = map (blank_step b) (entry_steps x (the (map_of ?cat (bind_key x))))"
    if "x \<in> set bs" for x
    using admitted_entries [OF assms(1,2)] that by (auto simp: blank_map_of blank_entry_steps)
  then have "map (\<lambda>x. entry_steps x (the (map_of (blank_catalog b ?cat) (bind_key x)))) bs =
      map (map (blank_step b)) (map (\<lambda>x. entry_steps x (the (map_of ?cat (bind_key x)))) bs)" by simp
  moreover have "steps = concat (map (\<lambda>x. entry_steps x (the (map_of ?cat (bind_key x)))) bs)"
    using assms(5) admitted_resolves [OF assms(1,2), of dep] by simp
  ultimately have "concat (map (\<lambda>x. entry_steps x (the (map_of (blank_catalog b ?cat) (bind_key x)))) bs) = map (blank_step b) steps"
    by (simp only: map_concat)
  with admitted_resolves [OF adm keys, of dep] cat
  have "ResolveCatalog dep (Some (blank_policy b p)) bs = Inr (map (blank_step b) steps)" by simp
  moreover have "list_all (\<lambda>s. splitFieldPath (tgt_fieldPath (rstep_target (blank_step b s))) =
         (b @ hd (splitFieldPath (tgt_fieldPath (rstep_target s)))) # tl (splitFieldPath (tgt_fieldPath (rstep_target s))) \<and>
       \<not> fieldPathSeg (hd (splitFieldPath (tgt_fieldPath (rstep_target (blank_step b s)))))) steps"
    unfolding list_all_iff
  proof
    fix s
    assume "s \<in> set steps"
    have path: "tgt_fieldPath (rstep_target (blank_step b s)) = b @ tgt_fieldPath (rstep_target s)" by (simp add: blank_step_def)
    show "splitFieldPath (tgt_fieldPath (rstep_target (blank_step b s))) =
         (b @ hd (splitFieldPath (tgt_fieldPath (rstep_target s)))) # tl (splitFieldPath (tgt_fieldPath (rstep_target s))) \<and>
       \<not> fieldPathSeg (hd (splitFieldPath (tgt_fieldPath (rstep_target (blank_step b s)))))"
      unfolding path by (rule splitFieldPath_blanks [OF admitted_step_paths [OF assms(1,2,5) \<open>s \<in> set steps\<close>] assms(3,4)])
  qed
  ultimately show ?thesis using adm by blast
qed

theorem blank_path_is_admitted_witness:
  "Policy std_env (Some (blank_policy '' '' catalog_policy)) = Inr () \<and>
   (\<exists>steps. ResolveCatalog None (Some (blank_policy '' '' catalog_policy))
       [\<lparr>bind_key = ''hpa'', bind_namespace = ''shop'', bind_name = ''web''\<rparr>] = Inr steps \<and>
     map (\<lambda>s. splitFieldPath (tgt_fieldPath (rstep_target s))) steps = [['' spec'', ''minReplicas''], ['' spec'', ''maxReplicas'']])"
proof -
  let ?bs = "[\<lparr>bind_key = ''hpa'', bind_namespace = ''shop'', bind_name = ''web''\<rparr>]"
  have keys: "set (map bind_key ?bs) \<subseteq> set (mkeys (spec_backends (pol_spec catalog_policy)))"
    by (simp add: catalog_policy_def mkeys_def)
  obtain steps where steps: "ResolveCatalog None (Some catalog_policy) ?bs = Inr steps"
    and paths: "map (\<lambda>s. splitFieldPath (tgt_fieldPath (rstep_target s))) steps = [[''spec'', ''minReplicas''], [''spec'', ''maxReplicas'']]"
    by (simp add: ResolveCatalog_def catalog_policy_def mlen_def mkeys_def splitPatches_def binding_step_def splitFieldPath_def
        TrimPrefix_def HasPrefix_def)
  note blank = blank_path_is_admitted [OF catalog_policy_admitted keys _ _ steps, of "'' ''"]
  have "map (\<lambda>s. splitFieldPath (tgt_fieldPath (rstep_target s))) (map (blank_step '' '') steps) =
      map (\<lambda>q. ('' '' @ hd q) # tl q) (map (\<lambda>s. splitFieldPath (tgt_fieldPath (rstep_target s))) steps)"
    using blank by (simp add: list_all_iff is_space_def)
  with blank paths show ?thesis by (simp add: is_space_def)
qed

end
