(* ===== verification/Metrics.thy ===== *)
theory Metrics
  imports Cluster_Api
begin

text \<open>
  \<open>pkg/metrics\<close>: the names of the collectors that the handlers set, count and delete. A
  call on a collector is a \<open>GaugeSet\<close>, \<open>CounterInc\<close> or \<open>SeriesDelete\<close> effect with its name
  and its label values.
\<close>

definition metric_VulnerableNodes :: string where [go_simps]: "metric_VulnerableNodes = ''evg_vulnerable_nodes''"
definition metric_MatchedNodes :: string where [go_simps]: "metric_MatchedNodes = ''evg_matched_nodes''"
definition metric_AtRiskPods :: string where [go_simps]: "metric_AtRiskPods = ''evg_at_risk_pods''"
definition metric_DesiredReplicas :: string where [go_simps]: "metric_DesiredReplicas = ''evg_desired_replicas''"
definition metric_CurrentSpare :: string where [go_simps]: "metric_CurrentSpare = ''evg_current_spare''"
definition metric_ScaleActions :: string where [go_simps]: "metric_ScaleActions = ''evg_scale_actions_total''"
definition metric_SpareNotReady :: string where [go_simps]: "metric_SpareNotReady = ''evg_spare_not_ready''"
definition metric_CapacityApplyError :: string where [go_simps]: "metric_CapacityApplyError = ''evg_capacity_apply_error''"
definition metric_DeferredWorkloads :: string where [go_simps]: "metric_DeferredWorkloads = ''evg_deferred_workloads''"
definition metric_MaxWindowExceeded :: string where [go_simps]: "metric_MaxWindowExceeded = ''evg_max_window_exceeded_total''"
definition metric_EvictionDecisions :: string where [go_simps]: "metric_EvictionDecisions = ''evg_eviction_decisions_total''"

end
