(* ===== verification/Webhooks.thy ===== *)
theory Webhooks
  imports Validate Evict_Gate Metrics
begin

text \<open>
  \<open>internal/webhook\<close>: the three admission handlers. Decoding the request body belongs to
  controller-runtime and is a parameter; an admission response is a value. The eviction
  handler counts its decisions, so it is a handler of the state monad; the other two are
  functions of the request.
\<close>


section \<open>Definitions\<close>

datatype Response =
    Allowed string
  | Denied string
  | Errored nat goerror

record Eviction =
  ev_name :: string
  ev_namespace :: string

record Request =
  areq_name :: string
  areq_namespace :: string
  areq_rawLength :: nat

definition StatusBadRequest :: nat where [go_simps]: "StatusBadRequest = 400"
definition StatusInternalServerError :: nat where [go_simps]: "StatusInternalServerError = 500"

definition templateProtected :: "Deployment option \<Rightarrow> bool" where
  "templateProtected dep =
     (case dep of
        None \<Rightarrow> False
      | Some d \<Rightarrow> if dep_templateLabels d = [] then False else mget (dep_templateLabels d) ProtectedLabel = ''true'')"

fun hasEvictionGuardAnnotations :: "strmap \<Rightarrow> bool" where
  "hasEvictionGuardAnnotations [] = False"
| "hasEvictionGuardAnnotations ((k, v) # ann) = (HasPrefix k ''eviction-guard.io/'' \<or> hasEvictionGuardAnnotations ann)"

definition handle_deployment :: "('req \<Rightarrow> goerror + Deployment) \<Rightarrow> 'req \<Rightarrow> Response" where
  "handle_deployment decode req =
     (case decode req of
        Inl e \<Rightarrow> Errored StatusBadRequest e
      | Inr dep \<Rightarrow>
          (case (if templateProtected (Some dep) then ScaleBackendRequired (dep_annotations dep) else Inr ()) of
             Inl e \<Rightarrow> Denied (Error e)
           | Inr _ \<Rightarrow>
               if \<not> hasEvictionGuardAnnotations (dep_annotations dep) \<and> \<not> templateProtected (Some dep) then Allowed []
               else (case WorkloadAnnotations (dep_namespace dep) (dep_annotations dep) of
                   Inl e \<Rightarrow> Denied (Error e)
                 | Inr _ \<Rightarrow> Allowed [])))"

definition handle_policy :: "env \<Rightarrow> ('req \<Rightarrow> goerror + EvictionGuardPolicy) \<Rightarrow> 'req \<Rightarrow> Response" where
  "handle_policy E decode req =
     (case decode req of
        Inl e \<Rightarrow> Errored StatusBadRequest e
      | Inr p \<Rightarrow> (case Policy E (Some p) of Inl e \<Rightarrow> Denied (Error e) | Inr _ \<Rightarrow> Allowed []))"

definition handle_eviction_of :: "env \<Rightarrow> 'w client \<Rightarrow> Request \<Rightarrow> Eviction \<Rightarrow> ('w, Response) io" where
  "handle_eviction_of E c req ev =
     (let ns = (if ev_namespace ev = [] then areq_namespace req else ev_namespace ev);
          name = (if ev_name ev = [] then areq_name req else ev_name ev)
      in State_Monad.bind (query (\<lambda>w. Get_Pod c w ns name)) (\<lambda>r.
        case r of
          Inl e \<Rightarrow> State_Monad.return (if IsNotFound e then Allowed ''pod not found'' else Errored StatusInternalServerError e)
        | Inr pod \<Rightarrow>
            State_Monad.bind (query (\<lambda>w. Evaluate E c w (Some pod))) (\<lambda>res.
              case res of
                Inl e \<Rightarrow> State_Monad.return (Errored StatusInternalServerError e)
              | Inr res \<Rightarrow>
                  if res_decision res = Deny
                  then State_Monad.bind (emit (CounterInc metric_EvictionDecisions [''deny'']))
                    (\<lambda>_. State_Monad.return (Denied (res_reason res)))
                  else State_Monad.bind (emit (CounterInc metric_EvictionDecisions [''allow'']))
                    (\<lambda>_. State_Monad.return (Allowed (res_reason res))))))"

definition handle_eviction ::
  "env \<Rightarrow> 'w client \<Rightarrow> (Request \<Rightarrow> goerror + Eviction) \<Rightarrow> Request \<Rightarrow> ('w, Response) io" where
  "handle_eviction E c decode req =
     (case decode req of
        Inl e \<Rightarrow>
          if areq_rawLength req > 0 \<or> areq_name req = [] \<or> areq_namespace req = []
          then State_Monad.return (Errored StatusBadRequest e)
          else handle_eviction_of E c req \<lparr>ev_name = areq_name req, ev_namespace = areq_namespace req\<rparr>
      | Inr ev \<Rightarrow> handle_eviction_of E c req ev)"


section \<open>Lemmas\<close>

definition is_allowed :: "Response \<Rightarrow> bool" where
  "is_allowed r = (case r of Allowed _ \<Rightarrow> True | _ \<Rightarrow> False)"

text \<open>The pod that an eviction request names: the fields of the body first, then those of the request.\<close>

definition evicted_pod :: "(Request \<Rightarrow> goerror + Eviction) \<Rightarrow> Request \<Rightarrow> (string \<times> string) option" where
  "evicted_pod decode req =
     (case decode req of
        Inl _ \<Rightarrow> if areq_rawLength req > 0 \<or> areq_name req = [] \<or> areq_namespace req = [] then None
               else Some (areq_namespace req, areq_name req)
      | Inr ev \<Rightarrow> Some (if ev_namespace ev = [] then areq_namespace req else ev_namespace ev,
                     if ev_name ev = [] then areq_name req else ev_name ev))"

lemma eviction_of_response:
  "is_allowed (fst (run_state (handle_eviction_of E c req ev) s)) \<longleftrightarrow>
     (case Get_Pod c (cluster s) (if ev_namespace ev = [] then areq_namespace req else ev_namespace ev)
         (if ev_name ev = [] then areq_name req else ev_name ev) of
        Inl e \<Rightarrow> IsNotFound e
      | Inr pod \<Rightarrow> allows E c (cluster s) pod)" (is "_ \<longleftrightarrow> (case ?get of Inl e \<Rightarrow> _ e | Inr pod \<Rightarrow> _ pod)")
  and eviction_of_cluster: "cluster (snd (run_state (handle_eviction_of E c req ev) s)) = cluster s"
proof -
  have "(is_allowed (fst (run_state (handle_eviction_of E c req ev) s)) \<longleftrightarrow>
     (case ?get of Inl e \<Rightarrow> IsNotFound e | Inr pod \<Rightarrow> allows E c (cluster s) pod)) \<and>
     cluster (snd (run_state (handle_eviction_of E c req ev) s)) = cluster s"
  proof (cases ?get)
    case (Inl e)
    then show ?thesis by (simp add: handle_eviction_of_def Let_def is_allowed_def)
  next
    case (Inr pod)
    show ?thesis
    proof (cases "Evaluate E c (cluster s) (Some pod)")
      case (Inl e)
      with Inr show ?thesis by (simp add: handle_eviction_of_def Let_def is_allowed_def allows_def)
    next
      case (Inr res)
      with \<open>?get = Inr pod\<close> show ?thesis
        by (cases "res_decision res") (simp_all add: handle_eviction_of_def Let_def is_allowed_def allows_def)
    qed
  qed
  then show "is_allowed (fst (run_state (handle_eviction_of E c req ev) s)) \<longleftrightarrow>
     (case ?get of Inl e \<Rightarrow> IsNotFound e | Inr pod \<Rightarrow> allows E c (cluster s) pod)"
    and "cluster (snd (run_state (handle_eviction_of E c req ev) s)) = cluster s"
    by auto
qed

lemma not_allowed_Errored [simp]: "\<not> is_allowed (Errored n e)"
  by (simp add: is_allowed_def)

lemma protected_deployment_admitted:
  assumes "is_allowed (handle_deployment decode req)" and "decode req = Inr dep" and "templateProtected (Some dep)"
  shows "TrimSpace (mget (dep_annotations dep) ScaleBackendAnnotation) \<noteq> [] \<and>
     WorkloadAnnotations (dep_namespace dep) (dep_annotations dep) = Inr ()"
  using assms
  by (auto simp: handle_deployment_def is_allowed_def ScaleBackendRequired_def Let_def
      split: sum.splits if_splits Response.splits)


section \<open>Properties\<close>

text \<open>
  C31. The eviction webhook fails closed: it lets an eviction through exactly when the
  request names a pod, and that pod does not exist or the gate allows it; a bad request,
  a failing lookup or a failing evaluation never lets one through, and the cluster is not
  changed.
\<close>

theorem eviction_webhook_fails_closed:
  "(is_allowed (fst (run_state (handle_eviction E c decode req) s)) \<longleftrightarrow>
     (case evicted_pod decode req of
        None \<Rightarrow> False
      | Some (ns, name) \<Rightarrow>
          (case Get_Pod c (cluster s) ns name of
             Inl e \<Rightarrow> IsNotFound e
           | Inr pod \<Rightarrow> allows E c (cluster s) pod))) \<and>
   cluster (snd (run_state (handle_eviction E c decode req) s)) = cluster s"
  by (cases "decode req")
    (auto simp: handle_eviction_def evicted_pod_def eviction_of_response eviction_of_cluster)

text \<open>
  C32. An admitted protected deployment has usable bindings: whatever policy owns it, its
  \<open>scale-backend\<close> annotation parses to at least one binding with distinct keys, although
  admission checks it with other defaults than the planner, a \<open>scale-back-after\<close> annotation
  is a positive duration, a \<open>stamp\<close> annotation is \<open>true\<close> or \<open>false\<close>, and the pin that policy
  ownership reads is empty or a DNS-1123 label.
\<close>

theorem admitted_deployment_is_usable:
  assumes "is_allowed (handle_deployment decode req)" and "decode req = Inr dep" and "templateProtected (Some dep)"
  shows "\<exists>bs. BindingsForWorkload (Some dep) (Some p) = Inr bs \<and> bs \<noteq> [] \<and> distinct (map bind_key bs) \<and>
     (if mget (dep_annotations dep) ScaleBackAfterAnnotation = [] then True
      else \<exists>d. ParseDuration (mget (dep_annotations dep) ScaleBackAfterAnnotation) = Inr d \<and> 0 < d) \<and>
     mget (dep_annotations dep) StampAnnotation \<in> {[], ''true'', ''false''} \<and>
     (Pin (Some dep) = [] \<or> dns1123Label (Pin (Some dep)) \<and> length (Pin (Some dep)) \<le> 63)"
proof -
  let ?ann = "dep_annotations dep"
  have req: "TrimSpace (mget ?ann ScaleBackendAnnotation) \<noteq> []" and ok: "WorkloadAnnotations (dep_namespace dep) ?ann = Inr ()"
    using protected_deployment_admitted [OF assms] by auto
  have ne: "?ann \<noteq> []" and raw: "mget ?ann ScaleBackendAnnotation \<noteq> []" using req by auto
  have "\<not> isl (ParseBindings (mget ?ann ScaleBackendAnnotation) (dep_namespace dep) ''workload'')"
    using WorkloadAnnotations_ok(1) [OF ok ne] raw
    by (auto simp: check_scale_backend_def isl_def split: sum.splits)
  then have "\<not> isl (ParseBindings (mget ?ann ScaleBackendAnnotation) (dep_namespace dep) (dep_name dep))"
    using ParseBindings_isl by metis
  then obtain bs where bs: "ParseBindings (mget ?ann ScaleBackendAnnotation) (dep_namespace dep) (dep_name dep) = Inr bs"
    by (auto simp: isl_def split: sum.splits) (metis sum.exhaust)
  then have "BindingsForWorkload (Some dep) (Some p) = Inr bs" using ne req by (simp add: BindingsForWorkload_def)
  moreover have "if mget ?ann ScaleBackAfterAnnotation = [] then True
      else \<exists>d. ParseDuration (mget ?ann ScaleBackAfterAnnotation) = Inr d \<and> 0 < d"
    using WorkloadAnnotations_ok(2) [OF ok ne]
    by (auto simp: check_scale_back_after_def Let_def split: sum.splits if_splits)
  moreover have "mget ?ann StampAnnotation \<in> {[], ''true'', ''false''}"
    using WorkloadAnnotations_ok(3) [OF ok ne] by (auto simp: check_stamp_def Let_def split: if_splits)
  moreover have "Pin (Some dep) = [] \<or> dns1123Label (Pin (Some dep)) \<and> length (Pin (Some dep)) \<le> 63"
    using WorkloadAnnotations_ok(4) [OF ok ne] ne by (auto simp: check_pin_def Pin_def Let_def split: if_splits)
  ultimately show ?thesis using ParseBindings_wf [OF bs] by blast
qed

theorem admitted_deployment_is_usable_witness:
  "\<exists>bs. BindingsForWorkload (Some (plain_deployment\<lparr>dep_annotations := [(ScaleBackendAnnotation, ''hpa'')]\<rparr>)) (Some catalog_policy) = Inr bs \<and> bs \<noteq> []"
proof -
  let ?dep = "plain_deployment\<lparr>dep_annotations := [(ScaleBackendAnnotation, ''hpa'')]\<rparr>"
  have trim: "TrimSpace ''hpa'' = ''hpa''" by (simp add: TrimSpace_no_space is_space_def)
  have prot: "templateProtected (Some ?dep)" by (simp add: templateProtected_def plain_deployment_def ProtectedLabel_def)
  have "ParseBindings ''hpa'' ''shop'' ''workload'' =
      Inr [\<lparr>bind_key = ''hpa'', bind_namespace = ''shop'', bind_name = ''workload''\<rparr>]"
    by (simp add: ParseBindings_def splitBinding_def trim)
  then have "WorkloadAnnotations ''shop'' [(ScaleBackendAnnotation, ''hpa'')] = Inr ()"
    by (simp add: WorkloadAnnotations_def check_scale_backend_def check_scale_back_after_def check_stamp_def check_pin_def
        go_simps)
  with prot trim have "is_allowed (handle_deployment (\<lambda>_ :: unit. Inr ?dep) ())"
    by (simp add: handle_deployment_def is_allowed_def ScaleBackendRequired_def plain_deployment_def)
  then show ?thesis
    using admitted_deployment_is_usable [where decode = "\<lambda>_ :: unit. Inr ?dep" and req = "()" and dep = ?dep and p = catalog_policy] prot
    by blast
qed

end
