(* ===== verification/Scale_Actions.thy ===== *)
theory Scale_Actions
  imports Api_Types Go_Duration
begin

text \<open>
  \<open>internal/controller/scale_actions.go\<close>: the record of a capacity patch on a window, its
  identity and how records of successive reconciles are merged; the cooldown of a
  workload; the stamp annotations of a workload. \<open>action_log\<close> is the contract of the
  recorded actions: a finite map from identities to actions, whose interpretation on
  \<open>findAction\<close> and \<open>mergeActions\<close> says that merging overrides.
\<close>


section \<open>Definitions\<close>

definition scaleAction :: "string \<Rightarrow> Target \<Rightarrow> int \<Rightarrow> int \<Rightarrow> string list \<Rightarrow> bool \<Rightarrow> ScaleAction" where
  "scaleAction key t baseline scaledTo stampKeys skipDownscaling =
     \<lparr>sa_key = key, sa_apiVersion = tgt_apiVersion t, sa_kind = tgt_kind t, sa_namespace = tgt_namespace t,
      sa_name = tgt_name t, sa_fieldPath = tgt_fieldPath t, sa_baseline = baseline, sa_scaledTo = scaledTo,
      sa_skipDownscaling = skipDownscaling, sa_stampKeys = stampKeys\<rparr>"

definition actionTarget :: "ScaleAction \<Rightarrow> Target" where
  "actionTarget a =
     \<lparr>tgt_namespace = sa_namespace a, tgt_name = sa_name a, tgt_apiVersion = sa_apiVersion a, tgt_kind = sa_kind a,
      tgt_fieldPath = sa_fieldPath a, tgt_defaultWhenUnset = None\<rparr>"

definition actionKey :: "ScaleAction \<Rightarrow> string" where
  "actionKey a =
     (if sa_key a \<noteq> [] then sa_key a @ ''/'' @ sa_namespace a @ ''/'' @ sa_name a @ ''/'' @ sa_fieldPath a
      else sa_apiVersion a @ ''/'' @ sa_kind a @ ''/'' @ sa_namespace a @ ''/'' @ sa_name a @ ''/'' @ sa_fieldPath a)"

fun findAction_loop :: "string \<Rightarrow> ScaleAction list \<Rightarrow> ScaleAction option" where
  "findAction_loop want [] = None"
| "findAction_loop want (a # actions) = (if actionKey a = want then Some a else findAction_loop want actions)"

definition findAction :: "ScaleAction list \<Rightarrow> string \<Rightarrow> Target \<Rightarrow> ScaleAction option" where
  "findAction actions key t = findAction_loop (actionKey (scaleAction key t 0 0 [] False)) actions"

fun mergeActions_old :: "string list \<Rightarrow> ScaleAction list \<Rightarrow> ScaleAction list" where
  "mergeActions_old seen [] = []"
| "mergeActions_old seen (a # existing) =
     (if actionKey a \<notin> set seen then a # mergeActions_old seen existing else mergeActions_old seen existing)"

definition mergeActions :: "ScaleAction list \<Rightarrow> ScaleAction list \<Rightarrow> ScaleAction list" where
  "mergeActions existing nxt = nxt @ mergeActions_old (map actionKey nxt) existing"

definition scaleBackAfter :: "EvictionGuardPolicy \<Rightarrow> Deployment option \<Rightarrow> duration" where
  "scaleBackAfter policy dep =
     (case dep of
        None \<Rightarrow> ScaleBackAfterOrDefault policy
      | Some d \<Rightarrow>
          (let raw = mget (dep_annotations d) ScaleBackAfterAnnotation in
           if dep_annotations d \<noteq> [] \<and> raw \<noteq> [] then
             (case ParseDuration raw of
                Inr v \<Rightarrow> if v > 0 then v else ScaleBackAfterOrDefault policy
              | Inl _ \<Rightarrow> ScaleBackAfterOrDefault policy)
           else ScaleBackAfterOrDefault policy))"

record resourceStamp =
  rs_enabled :: bool
  rs_scaledTo :: string
  rs_baseline :: string
  rs_active :: string
  rs_windowUntil :: string

definition pickKey :: "string \<Rightarrow> string \<Rightarrow> string" where
  "pickKey configured fallback = (if configured \<noteq> [] then configured else fallback)"

definition resolveStamp :: "EvictionGuardPolicy \<Rightarrow> Deployment option \<Rightarrow> resourceStamp" where
  "resolveStamp policy dep =
     (let s = spec_stamp (pol_spec policy);
          out = \<lparr>rs_enabled = stamp_enabled s,
            rs_scaledTo = pickKey (stamp_scaledToKey s) StampScaledToKey,
            rs_baseline = pickKey (stamp_baselineKey s) StampBaselineKey,
            rs_active = pickKey (stamp_activeKey s) StampActiveKey,
            rs_windowUntil = pickKey (stamp_windowUntilKey s) StampWindowUntilKey\<rparr>
      in case dep of
           None \<Rightarrow> out
         | Some d \<Rightarrow>
             if dep_annotations d = [] then out
             else let ann = mget (dep_annotations d) in
               \<lparr>rs_enabled = (if ann StampAnnotation = ''true'' then True
                             else if ann StampAnnotation = ''false'' then False else rs_enabled out),
                rs_scaledTo = (if ann StampScaledToKeyAnnotation \<noteq> [] then ann StampScaledToKeyAnnotation else rs_scaledTo out),
                rs_baseline = (if ann StampBaselineKeyAnnotation \<noteq> [] then ann StampBaselineKeyAnnotation else rs_baseline out),
                rs_active = (if ann StampActiveKeyAnnotation \<noteq> [] then ann StampActiveKeyAnnotation else rs_active out),
                rs_windowUntil = (if ann StampWindowUntilKeyAnnotation \<noteq> [] then ann StampWindowUntilKeyAnnotation
                                 else rs_windowUntil out)\<rparr>)"

definition stamp_keys :: "resourceStamp \<Rightarrow> string list" where
  "stamp_keys s =
     (if \<not> rs_enabled s then [] else sort [rs_scaledTo s, rs_baseline s, rs_active s, rs_windowUntil s])"

definition stamp_values :: "resourceStamp \<Rightarrow> int \<Rightarrow> int \<Rightarrow> strmap" where
  "stamp_values s baseline desired =
     (if \<not> rs_enabled s then []
      else AList.update (rs_windowUntil s) []
        (AList.update (rs_active s) ''true''
        (AList.update (rs_baseline s) (FormatInt baseline)
        (AList.update (rs_scaledTo s) (FormatInt desired) []))))"


section \<open>The log of recorded actions\<close>

locale action_log =
  fixes ident :: "'a \<Rightarrow> 'i"
    and lookup :: "'l \<Rightarrow> 'i \<Rightarrow> 'a option"
    and merge :: "'l \<Rightarrow> 'l \<Rightarrow> 'l"
  assumes lookup_ident: "lookup l i = Some a \<Longrightarrow> ident a = i"
    and lookup_merge: "lookup (merge old new) i = (case lookup new i of Some a \<Rightarrow> Some a | None \<Rightarrow> lookup old i)"
begin

lemma merge_keeps: "lookup old i \<noteq> None \<Longrightarrow> lookup (merge old new) i \<noteq> None"
  by (simp add: lookup_merge split: option.split)

lemma merge_assoc: "lookup (merge (merge l1 l2) l3) i = lookup (merge l1 (merge l2 l3)) i"
  by (simp add: lookup_merge split: option.split)

lemma merge_self: "lookup (merge l l) i = lookup l i"
  by (simp add: lookup_merge split: option.split)

end


section \<open>Lemmas\<close>

lemma findAction_loop_key: "findAction_loop k as = Some a \<Longrightarrow> actionKey a = k \<and> a \<in> set as"
  by (induction as) (auto split: if_splits)

lemma findAction_loop_None: "findAction_loop k as = None \<longleftrightarrow> k \<notin> actionKey ` set as"
  by (induction as) auto

lemma findAction_loop_append:
  "findAction_loop k (as @ bs) = (case findAction_loop k as of Some a \<Rightarrow> Some a | None \<Rightarrow> findAction_loop k bs)"
  by (induction as) auto

lemma findAction_loop_old: "findAction_loop k (mergeActions_old seen as) = (if k \<in> set seen then None else findAction_loop k as)"
  by (induction as) auto

lemma findAction_loop_merge:
  "findAction_loop k (mergeActions old new) = (case findAction_loop k new of Some a \<Rightarrow> Some a | None \<Rightarrow> findAction_loop k old)"
  using findAction_loop_None [of k new]
  by (auto simp: mergeActions_def findAction_loop_append findAction_loop_old split: option.splits)

interpretation actions: action_log actionKey "\<lambda>as k. findAction_loop k as" mergeActions
  by unfold_locales (auto simp: findAction_loop_merge dest: findAction_loop_key)

lemma actionTarget_scaleAction:
  "actionTarget (scaleAction key t b d ks sk) = t\<lparr>tgt_defaultWhenUnset := None\<rparr>"
  by (simp add: actionTarget_def scaleAction_def)

lemma actionKey_scaleAction: "actionKey (scaleAction key t b d ks sk) = actionKey (scaleAction key t 0 0 [] False)"
  by (simp add: actionKey_def scaleAction_def)

lemma scaleBackAfter_positive:
  "0 < ScaleBackAfterOrDefault p \<Longrightarrow> 0 < scaleBackAfter p dep"
  by (auto simp: scaleBackAfter_def Let_def split: option.splits sum.splits)

lemma distinct_stamp_values: "distinct (map fst (stamp_values s b d))"
  by (simp add: stamp_values_def distinct_update)

lemma stamp_values_keys: "fst ` set (stamp_values s b d) = set (stamp_keys s)"
  by (auto simp: stamp_values_def stamp_keys_def dom_update)


text \<open>
  Merging the actions of a new plan into the recorded ones overrides by identity and
  loses nothing: a lookup finds the new action if the plan has one for that target and the
  recorded one otherwise; in particular no recorded action, hence no baseline to restore,
  is dropped.
\<close>

lemma mergeActions_overrides:
  "findAction (mergeActions old new) key t =
     (case findAction new key t of Some a \<Rightarrow> Some a | None \<Rightarrow> findAction old key t) \<and>
   actionKey ` set (mergeActions old new) = actionKey ` set old \<union> actionKey ` set new"
proof
  show "findAction (mergeActions old new) key t =
     (case findAction new key t of Some a \<Rightarrow> Some a | None \<Rightarrow> findAction old key t)"
    unfolding findAction_def by (rule actions.lookup_merge)
  have "k \<in> actionKey ` set (mergeActions old new) \<longleftrightarrow> k \<in> actionKey ` set old \<union> actionKey ` set new" for k
    using findAction_loop_None [of k "mergeActions old new"] findAction_loop_None [of k old] findAction_loop_None [of k new]
    by (auto simp: findAction_loop_merge split: option.splits)
  then show "actionKey ` set (mergeActions old new) = actionKey ` set old \<union> actionKey ` set new" by blast
qed

end
