(* ===== verification/Scale_Error.thy ===== *)
theory Scale_Error
  imports Metrics
begin

text \<open>
  \<open>internal/controller/scale_error.go\<close>: the classification of a failed capacity mutation
  and the \<open>CapacityApplied\<close> condition of a window. A nil error is \<open>None\<close>. The callers of
  \<open>applyCapacityApplied\<close> pass a window they hold, so its argument is the window itself; it
  returns whether the condition flipped and the updated window.
\<close>


section \<open>Definitions\<close>

datatype scaleErrorClass =
    scaleErrorNone
  | scaleErrorForbidden
  | scaleErrorRejected
  | scaleErrorConflict
  | scaleErrorNotFound
  | scaleErrorOther

definition rejected_causes :: "string list" where
  "rejected_causes =
     [''FieldValueInvalid'', ''FieldValueDuplicate'', ''FieldValueNotFound'', ''FieldValueRequired'',
      ''FieldValueNotSupported'', ''FieldValueTooLong'', ''FieldValueForbidden'', ''FieldValueTypeInvalid'']"

definition classifyScaleError :: "goerror option \<Rightarrow> scaleErrorClass" where
  "classifyScaleError err0 =
     (case err0 of
        None \<Rightarrow> scaleErrorNone
      | Some err \<Rightarrow>
          if isMissingBackendRBAC err \<or> IsForbidden err then scaleErrorForbidden
          else if IsConflict err then scaleErrorConflict
          else if IsNotFound err then scaleErrorNotFound
          else if IsInvalid err \<or> IsBadRequest err then scaleErrorRejected
          else (case as_status err of
              Some (r, Some causes) \<Rightarrow>
                if list_ex (\<lambda>c. c \<in> set rejected_causes) causes then scaleErrorRejected else scaleErrorOther
            | _ \<Rightarrow> scaleErrorOther))"

definition scaleErrorReason :: "scaleErrorClass \<Rightarrow> string" where
  "scaleErrorReason cls =
     (case cls of
        scaleErrorForbidden \<Rightarrow> ReasonScaleForbidden
      | scaleErrorRejected \<Rightarrow> ReasonScaleRejected
      | scaleErrorConflict \<Rightarrow> ReasonScaleConflict
      | scaleErrorNotFound \<Rightarrow> ReasonScaleMissing
      | scaleErrorOther \<Rightarrow> ReasonScaleFailed
      | scaleErrorNone \<Rightarrow> ReasonScaleApplied)"

definition workload_labels :: "EvictionGuardWindow \<Rightarrow> string list" where
  "workload_labels win =
     [ws_policyName (win_spec win), wr_namespace (ws_target (win_spec win)), wr_name (ws_target (win_spec win))]"

definition applyCapacityApplied ::
  "env \<Rightarrow> EvictionGuardWindow \<Rightarrow> goerror option \<Rightarrow> time \<Rightarrow> ('w, bool \<times> EvictionGuardWindow) io" where
  "applyCapacityApplied E win err now =
     (let cls = classifyScaleError err;
          wantOK = (cls = scaleErrorNone);
          prev = FindStatusCondition E (wst_conditions (win_status win)) ConditionCapacityApplied;
          reason = scaleErrorReason cls;
          transitioned = (case prev of
              None \<Rightarrow> True
            | Some p \<Rightarrow> (cond_status p = ConditionTrue) \<noteq> wantOK \<or> cond_reason p \<noteq> reason);
          cond = \<lparr>cond_type = ConditionCapacityApplied,
            cond_status = (if wantOK then ConditionTrue else ConditionFalse),
            cond_observedGeneration = win_generation win, cond_lastTransitionTime = now,
            cond_reason = (if wantOK then ReasonScaleApplied else reason),
            cond_message = (case err of
                None \<Rightarrow> ''capacity patches applied''
              | Some e \<Rightarrow> Error e @ ''; eviction fail-opens after maxWindow'')\<rparr>
      in State_Monad.bind (emit (GaugeSet metric_CapacityApplyError (workload_labels win) (if wantOK then 0 else 1)))
        (\<lambda>_. State_Monad.return (transitioned, win\<lparr>win_status := (win_status win)
           \<lparr>wst_conditions := SetStatusCondition E (wst_conditions (win_status win)) cond\<rparr>\<rparr>)))"

definition capacityAppliedBlocked :: "env \<Rightarrow> EvictionGuardWindow option \<Rightarrow> bool" where
  "capacityAppliedBlocked E win =
     (case win of
        None \<Rightarrow> False
      | Some w \<Rightarrow>
          (case FindStatusCondition E (wst_conditions (win_status w)) ConditionCapacityApplied of
             None \<Rightarrow> False
           | Some c \<Rightarrow> cond_status c = ConditionFalse))"

definition applyErrorMessage :: "env \<Rightarrow> string \<Rightarrow> EvictionGuardWindow option \<Rightarrow> string" where
  "applyErrorMessage E base win =
     (case win of
        None \<Rightarrow> base
      | Some w \<Rightarrow>
          if \<not> capacityAppliedBlocked E win then base
          else (case FindStatusCondition E (wst_conditions (win_status w)) ConditionCapacityApplied of
              None \<Rightarrow> base @ ''; capacity apply failed (fail-open after maxWindow)''
            | Some c \<Rightarrow>
                if cond_message c = [] then base @ ''; capacity apply failed (fail-open after maxWindow)''
                else base @ ''; '' @ cond_message c))"


section \<open>Lemmas\<close>

lemma classify_None [simp]: "classifyScaleError err = scaleErrorNone \<longleftrightarrow> err = None"
  by (auto simp: classifyScaleError_def split: option.splits prod.splits)

lemma classify_no_error [simp]: "classifyScaleError None = scaleErrorNone"
  by simp

lemma classify_error [simp]: "scaleErrorNone \<noteq> classifyScaleError (Some e)"
  using classify_None [of "Some e"] by force

lemma classify_wrap [simp]: "classifyScaleError (Some (WrapError pre e post)) = classifyScaleError (Some e)"
  by (simp add: classifyScaleError_def IsForbidden_def IsConflict_def IsNotFound_def IsInvalid_def IsBadRequest_def)

lemma reason_inj: "scaleErrorReason a = scaleErrorReason b \<longleftrightarrow> a = b"
  by (cases a; cases b) (simp_all add: scaleErrorReason_def go_simps)

lemma conditions_differ [simp]:
  "ConditionTrue \<noteq> ConditionFalse" "ConditionFalse \<noteq> ConditionTrue"
  "ConditionSpareReady \<noteq> ConditionCapacityApplied" "ConditionCapacityApplied \<noteq> ConditionSpareReady"
  by (simp_all add: go_simps)

lemma applyCapacityApplied_run:
  "\<exists>t win'. run_state (applyCapacityApplied E win err now) s =
     ((t, win'), s\<lparr>log := log s @ [GaugeSet metric_CapacityApplyError (workload_labels win) (if err = None then 0 else 1)]\<rparr>)"
  by (simp add: applyCapacityApplied_def Let_def)

lemma applyCapacityApplied_frame:
  assumes "run_state (applyCapacityApplied E win err now) s = ((t, win'), s')"
  shows "cluster s' = cluster s \<and> win_spec win' = win_spec win \<and> win_labels win' = win_labels win \<and>
     win_namespace win' = win_namespace win \<and> win_name win' = win_name win \<and> win_finalizers win' = win_finalizers win \<and>
     wst_phase (win_status win') = wst_phase (win_status win) \<and>
     wst_forcedCool (win_status win') = wst_forcedCool (win_status win) \<and>
     wst_spareReady (win_status win') = wst_spareReady (win_status win) \<and>
     wst_lastScaleTime (win_status win') = wst_lastScaleTime (win_status win)"
  using assms by (auto simp: applyCapacityApplied_def Let_def)

lemma applyCapacityApplied_condition:
  assumes "conditions_documented E" and "run_state (applyCapacityApplied E win err now) s = ((t, win'), s')"
  shows "\<exists>c. FindStatusCondition E (wst_conditions (win_status win')) ConditionCapacityApplied = Some c \<and>
     cond_status c = (if err = None then ConditionTrue else ConditionFalse) \<and>
     cond_reason c = scaleErrorReason (classifyScaleError err)"
proof -
  let ?cls = "classifyScaleError err"
  let ?c = "\<lparr>cond_type = ConditionCapacityApplied,
     cond_status = (if ?cls = scaleErrorNone then ConditionTrue else ConditionFalse),
     cond_observedGeneration = win_generation win, cond_lastTransitionTime = now,
     cond_reason = (if ?cls = scaleErrorNone then ReasonScaleApplied else scaleErrorReason ?cls),
     cond_message = (case err of None \<Rightarrow> ''capacity patches applied''
        | Some e \<Rightarrow> Error e @ ''; eviction fail-opens after maxWindow'')\<rparr>"
  have win': "wst_conditions (win_status win') = SetStatusCondition E (wst_conditions (win_status win)) ?c"
    using assms(2) by (auto simp: applyCapacityApplied_def Let_def)
  obtain c where "FindStatusCondition E (SetStatusCondition E (wst_conditions (win_status win)) ?c) (cond_type ?c) = Some c"
    and "cond_status c = cond_status ?c" and "cond_reason c = cond_reason ?c"
    by (rule conditions_find_set [OF assms(1)])
  then show ?thesis by (auto simp: win' scaleErrorReason_def)
qed


section \<open>The condition over two applies\<close>

text \<open>
  The \<open>CapacityApplied\<close> condition mirrors the last capacity mutation: it blocks
  exactly when that failed, its reason identifies the class of the error (also of a
  wrapped one), a second report of the same class is not a transition, and a report of
  another class is.
\<close>

lemma capacity_condition_mirrors_apply:
  assumes "conditions_documented E" and "run_state (applyCapacityApplied E win err now) s = ((t, win'), s')"
    and "run_state (applyCapacityApplied E win' err' now') s' = ((t', win''), s'')"
  shows "(capacityAppliedBlocked E (Some win') \<longleftrightarrow> err \<noteq> None) \<and>
     (t' \<longleftrightarrow> classifyScaleError err' \<noteq> classifyScaleError err) \<and>
     classifyScaleError (Some (WrapError pre e post)) = classifyScaleError (Some e)"
proof -
  obtain c where c: "FindStatusCondition E (wst_conditions (win_status win')) ConditionCapacityApplied = Some c"
    "cond_status c = (if err = None then ConditionTrue else ConditionFalse)"
    "cond_reason c = scaleErrorReason (classifyScaleError err)"
    using applyCapacityApplied_condition [OF assms(1,2)] by blast
  have "t' \<longleftrightarrow> (cond_status c = ConditionTrue) \<noteq> (classifyScaleError err' = scaleErrorNone) \<or>
      cond_reason c \<noteq> scaleErrorReason (classifyScaleError err')"
    using assms(3) c(1) by (auto simp: applyCapacityApplied_def Let_def)
  also have "\<dots> \<longleftrightarrow> classifyScaleError err' \<noteq> classifyScaleError err"
    by (cases err; cases err') (auto simp: c reason_inj)
  finally show ?thesis using c by (simp add: capacityAppliedBlocked_def)
qed

definition some_window :: EvictionGuardWindow where
  "some_window =
     \<lparr>win_name = ''w'', win_namespace = ''shop'', win_labels = [], win_finalizers = [],
      win_deletionTimestamp = None, win_creationTimestamp = hour, win_generation = 1, win_controller = None,
      win_spec = \<lparr>ws_policyName = ''p'',
        ws_target = \<lparr>wr_apiVersion = ''apps/v1'', wr_kind = ''Deployment'', wr_name = ''web'', wr_namespace = ''shop''\<rparr>,
        ws_actions = [], ws_baseline = 2, ws_scaledTo = 4, ws_vulnerableNodes = [], ws_windowUntil = None\<rparr>,
      win_status = \<lparr>wst_phase = WindowPhaseUnset, wst_lastScaleTime = None, wst_spareReady = False, wst_readyReplicas = 0,
        wst_safeReadyReplicas = 0, wst_message = [], wst_forcedCool = False, wst_conditions = []\<rparr>\<rparr>"

end
