(* ===== verification/Spare.thy ===== *)
theory Spare
  imports Evict_Gate Metrics
begin

text \<open>
  \<open>internal/controller/spare.go\<close>: counting the ready pods of a workload, those of them
  that are not on vulnerable nodes, and the pods that are at risk right now; the
  \<open>SpareReady\<close> condition; and the mapping from pod and deployment events to windows. The
  per-reconcile node cache is a map from node names to nodes, nil for a node that does not
  exist; it is interpreted as a \<open>memo_table\<close>, so that the cached count is the plain one.
\<close>


section \<open>Definitions\<close>

definition PodReady :: string where [go_simps]: "PodReady = ''Ready''"

definition listWorkloadPods :: "env \<Rightarrow> 'w client \<Rightarrow> 'w \<Rightarrow> Deployment option \<Rightarrow> goerror + Pod list" where
  "listWorkloadPods E c w dep0 =
     (case dep0 of
        None \<Rightarrow> Inr []
      | Some dep \<Rightarrow>
          sum_bind (LabelSelectorAsSelector E (dep_selector dep)) (\<lambda>sel.
            List_PodsMatching c w (dep_namespace dep) sel))"

fun ready_condition :: "PodCondition list \<Rightarrow> bool" where
  "ready_condition [] = False"
| "ready_condition (c # cs) = (if pc_type c = PodReady \<and> pc_status c = ConditionTrue then True else ready_condition cs)"

definition podReady :: "Pod \<Rightarrow> bool" where
  "podReady p = (if pod_deletionTimestamp p \<noteq> None then False else ready_condition (pod_conditions p))"

fun spareCounts_loop :: "string list \<Rightarrow> Pod list \<Rightarrow> int \<Rightarrow> int \<Rightarrow> int \<times> int" where
  "spareCounts_loop vuln [] ready safe = (ready, safe)"
| "spareCounts_loop vuln (p # pods) ready safe =
     (if \<not> podReady p then spareCounts_loop vuln pods ready safe
      else spareCounts_loop vuln pods (int32 (ready + 1))
        (if pod_nodeName p \<notin> set vuln then int32 (safe + 1) else safe))"

definition spareCounts ::
  "env \<Rightarrow> 'w client \<Rightarrow> 'w \<Rightarrow> EvictionGuardWindow \<Rightarrow> Deployment option \<Rightarrow> goerror + int \<times> int" where
  "spareCounts E c w win dep0 =
     (case dep0 of
        None \<Rightarrow> Inr (0, 0)
      | Some dep \<Rightarrow>
          sum_bind (LabelSelectorAsSelector E (dep_selector dep)) (\<lambda>sel.
          sum_bind (List_PodsMatching c w (dep_namespace dep) sel) (\<lambda>items.
            Inr (spareCounts_loop (ws_vulnerableNodes (win_spec win)) items 0 0))))"

type_synonym node_cache = "(string, Node option) gomap"

definition node_of_cache :: "'w client \<Rightarrow> 'w \<Rightarrow> node_cache \<Rightarrow> string \<Rightarrow> goerror + Node option \<times> node_cache" where
  "node_of_cache c w cache name =
     (case map_of cache name of
        Some n \<Rightarrow> Inr (n, cache)
      | None \<Rightarrow>
          (case Get_Node c w name of
             Inl e \<Rightarrow> if IgnoreNotFound e = None then Inr (None, AList.update name None cache) else Inl e
           | Inr n \<Rightarrow> Inr (Some n, AList.update name (Some n) cache)))"

definition nodeVulnerableCached ::
  "env \<Rightarrow> 'w client \<Rightarrow> 'w \<Rightarrow> specFilter \<Rightarrow> EvictionGuardPolicy \<Rightarrow> string \<Rightarrow> node_cache \<Rightarrow> goerror + bool \<times> node_cache" where
  "nodeVulnerableCached E c w fil policy name cache =
     sum_bind (node_of_cache c w cache name) (\<lambda>(n, cache').
       case n of
         None \<Rightarrow> Inr (False, cache')
       | Some node \<Rightarrow>
           sum_bind (Matches fil (Some node)) (\<lambda>ok.
             Inr (if \<not> ok then False else Vulnerable (registry E) node (Some policy), cache')))"

fun liveAtRisk_loop ::
  "env \<Rightarrow> 'w client \<Rightarrow> 'w \<Rightarrow> specFilter \<Rightarrow> EvictionGuardPolicy \<Rightarrow> Pod list \<Rightarrow> node_cache \<Rightarrow> string list \<Rightarrow> int \<Rightarrow>
   goerror + int \<times> string list" where
  "liveAtRisk_loop E c w fil policy [] cache dying atRisk = Inr (atRisk, dying)"
| "liveAtRisk_loop E c w fil policy (p # pods) cache dying atRisk =
     (if pod_deletionTimestamp p \<noteq> None \<or> pod_nodeName p = [] then liveAtRisk_loop E c w fil policy pods cache dying atRisk
      else sum_bind (nodeVulnerableCached E c w fil policy (pod_nodeName p) cache) (\<lambda>(vulnerable, cache').
        if \<not> vulnerable then liveAtRisk_loop E c w fil policy pods cache' dying atRisk
        else liveAtRisk_loop E c w fil policy pods cache'
          (if pod_nodeName p \<in> set dying then dying else dying @ [pod_nodeName p]) (atRisk + 1)))"

definition liveAtRiskPods ::
  "env \<Rightarrow> 'w client \<Rightarrow> 'w \<Rightarrow> EvictionGuardWindow option \<Rightarrow> EvictionGuardPolicy option \<Rightarrow> Deployment option \<Rightarrow>
   goerror + int \<times> string list" where
  "liveAtRiskPods E c w win policy dep =
     (case (win, policy, dep) of
        (Some _, Some p, Some d) \<Rightarrow>
          sum_bind (FromSpec E (spec_nodeFilter (pol_spec p))) (\<lambda>fil.
          sum_bind (listWorkloadPods E c w (Some d)) (\<lambda>pods.
          sum_bind (liveAtRisk_loop E c w fil p pods [] [] 0) (\<lambda>(atRisk, dying).
            Inr (atRisk, sort dying))))
      | _ \<Rightarrow> Inr (0, []))"

definition applySpareStatus ::
  "env \<Rightarrow> EvictionGuardWindow \<Rightarrow> int \<Rightarrow> int \<Rightarrow> time \<Rightarrow> ('w, bool \<times> EvictionGuardWindow) io" where
  "applySpareStatus E win ready safe now =
     (let st = win_status win; baseline = ws_baseline (win_spec win);
          want = (safe \<ge> baseline);
          prev = FindStatusCondition E (wst_conditions st) ConditionSpareReady;
          transitioned = (case prev of None \<Rightarrow> True | Some p \<Rightarrow> (cond_status p = ConditionTrue) \<noteq> want);
          cond = \<lparr>cond_type = ConditionSpareReady,
            cond_status = (if want then ConditionTrue else ConditionFalse),
            cond_observedGeneration = win_generation win, cond_lastTransitionTime = now,
            cond_reason = (if want then ReasonReplicasReady else ReasonWaitingForReady),
            cond_message =
              (if want then ''safeReady='' @ FormatInt safe @ '' baseline='' @ FormatInt baseline @ '' ready='' @ FormatInt ready
               else ''safeReady='' @ FormatInt safe @ '' < baseline='' @ FormatInt baseline @ '' (ready='' @ FormatInt ready @
                 ''); extra pods not Ready off vulnerable nodes'')\<rparr>;
          labels = [ws_policyName (win_spec win), wr_namespace (ws_target (win_spec win)), wr_name (ws_target (win_spec win))]
      in State_Monad.bind (emit (GaugeSet metric_SpareNotReady labels (if want then 0 else 1)))
        (\<lambda>_. State_Monad.return (transitioned, win\<lparr>win_status := st
           \<lparr>wst_readyReplicas := ready, wst_safeReadyReplicas := safe, wst_spareReady := want,
            wst_conditions := SetStatusCondition E (wst_conditions st) cond\<rparr>\<rparr>)))"

definition window_requests :: "goerror + EvictionGuardWindow list \<Rightarrow> (string \<times> string) list" where
  "window_requests r = (case r of Inl _ \<Rightarrow> [] | Inr items \<Rightarrow> map (\<lambda>w. (win_namespace w, win_name w)) items)"

definition workloadToWindows :: "'w client \<Rightarrow> 'w \<Rightarrow> string \<Rightarrow> string \<Rightarrow> (string \<times> string) list" where
  "workloadToWindows c w ns name = window_requests (List_WindowsByWorkload c w (workloadIndexKey ns name))"

fun controlling_deployment :: "OwnerReference list \<Rightarrow> string option" where
  "controlling_deployment [] = None"
| "controlling_deployment (oo # refs) =
     (if or_kind oo = ''Deployment'' \<and> or_controller oo = Some True then Some (or_name oo) else controlling_deployment refs)"

text \<open>The walk of \<open>podToWindows\<close>; \<open>None\<close> is its early return on a failing lookup.\<close>

fun podToWindows_loop :: "'w client \<Rightarrow> 'w \<Rightarrow> string \<Rightarrow> OwnerReference list \<Rightarrow> string \<Rightarrow> string option" where
  "podToWindows_loop c w ns [] deployName = Some deployName"
| "podToWindows_loop c w ns (r # refs) deployName =
     (if \<not> controls ''ReplicaSet'' r then podToWindows_loop c w ns refs deployName
      else case Get_ReplicaSet c w ns (or_name r) of
        Inl _ \<Rightarrow> None
      | Inr rs \<Rightarrow>
          podToWindows_loop c w ns refs
            (case controlling_deployment (rs_ownerReferences rs) of None \<Rightarrow> deployName | Some n \<Rightarrow> n))"

definition podToWindows :: "'w client \<Rightarrow> 'w \<Rightarrow> Pod \<Rightarrow> (string \<times> string) list" where
  "podToWindows c w pod =
     (case podToWindows_loop c w (pod_namespace pod) (pod_ownerReferences pod) [] of
        None \<Rightarrow> []
      | Some deployName \<Rightarrow>
          if deployName = [] then []
          else window_requests (List_WindowsByWorkload c w (workloadIndexKey (pod_namespace pod) deployName)))"


section \<open>Specification\<close>

text \<open>The node as the plain lookup sees it, and whether the policy considers it vulnerable.\<close>

definition lookup_node :: "'w client \<Rightarrow> 'w \<Rightarrow> string \<Rightarrow> goerror + Node option" where
  "lookup_node c w name =
     (case Get_Node c w name of Inl e \<Rightarrow> if IsNotFound e then Inr None else Inl e | Inr n \<Rightarrow> Inr (Some n))"

definition node_at_risk :: "env \<Rightarrow> 'w client \<Rightarrow> 'w \<Rightarrow> EvictionGuardPolicy \<Rightarrow> string \<Rightarrow> bool" where
  "node_at_risk E c w p name =
     (case lookup_node c w name of
        Inr (Some node) \<Rightarrow> filter_accepts E (spec_nodeFilter (pol_spec p)) node \<and> Vulnerable (registry E) node (Some p)
      | _ \<Rightarrow> False)"

definition live_at_risk :: "env \<Rightarrow> 'w client \<Rightarrow> 'w \<Rightarrow> EvictionGuardPolicy \<Rightarrow> Pod \<Rightarrow> bool" where
  "live_at_risk E c w p pod \<longleftrightarrow>
     pod_deletionTimestamp pod = None \<and> pod_nodeName pod \<noteq> [] \<and> node_at_risk E c w p (pod_nodeName pod)"


section \<open>Lemmas\<close>

interpretation node_memo: memo_table "\<lambda>_. True" "\<lambda>name. name" "lookup_node c w" "node_of_cache c w" for c w
  by unfold_locales
    (auto simp: node_of_cache_def lookup_node_def IgnoreNotFound_def split: sum.splits if_splits)

abbreviation coherent_nodes :: "'w client \<Rightarrow> 'w \<Rightarrow> node_cache \<Rightarrow> bool" where
  "coherent_nodes c w \<equiv> memo_table.coherent (\<lambda>_. True) (\<lambda>name. name) (lookup_node c w)"

lemma nodeVulnerableCached_spec:
  assumes "coherent_nodes c w cache" and "FromSpec E (spec_nodeFilter (pol_spec p)) = Inr f"
  shows "case lookup_node c w name of
       Inl e \<Rightarrow> nodeVulnerableCached E c w f p name cache = Inl e
     | Inr _ \<Rightarrow> \<exists>cache'. nodeVulnerableCached E c w f p name cache = Inr (node_at_risk E c w p name, cache')
         \<and> coherent_nodes c w cache'"
proof (cases "lookup_node c w name")
  case (Inl e)
  then have "node_of_cache c w cache name = Inl e" using node_memo.fetch_err_iff [OF assms(1)] by simp
  with Inl show ?thesis by (simp add: nodeVulnerableCached_def)
next
  case (Inr n)
  then obtain cache' where "node_of_cache c w cache name = Inr (n, cache')" "coherent_nodes c w cache'"
    using node_memo.fetch_of_compute [OF assms(1) _ Inr] by auto
  with Inr flt.matches_accepts [OF assms(2)] show ?thesis
    by (cases n) (auto simp: nodeVulnerableCached_def node_at_risk_def)
qed

lemma liveAtRisk_loop_spec:
  assumes "FromSpec E (spec_nodeFilter (pol_spec p)) = Inr f"
    and "\<forall>pod \<in> set pods. pod_deletionTimestamp pod = None \<longrightarrow> pod_nodeName pod \<noteq> [] \<longrightarrow> \<not> isl (lookup_node c w (pod_nodeName pod))"
    and "coherent_nodes c w cache" and "distinct dying"
  shows "\<exists>dying'. liveAtRisk_loop E c w f p pods cache dying k = Inr (k + int (length (filter (live_at_risk E c w p) pods)), dying')
     \<and> distinct dying' \<and> set dying' = set dying \<union> pod_nodeName ` {pod \<in> set pods. live_at_risk E c w p pod}"
  using assms(2-)
proof (induction pods arbitrary: cache dying k)
  case (Cons pod pods)
  show ?case
  proof (cases "pod_deletionTimestamp pod \<noteq> None \<or> pod_nodeName pod = []")
    case True
    then have "\<not> live_at_risk E c w p pod" by (auto simp: live_at_risk_def)
    with True Cons.IH [OF _ Cons.prems(2,3), of k] Cons.prems(1) show ?thesis by auto
  next
    case False
    then obtain n where "lookup_node c w (pod_nodeName pod) = Inr n"
      using Cons.prems(1) by (cases "lookup_node c w (pod_nodeName pod)") auto
    with nodeVulnerableCached_spec [OF Cons.prems(2) assms(1), of "pod_nodeName pod"]
    obtain cache' where cached: "nodeVulnerableCached E c w f p (pod_nodeName pod) cache =
        Inr (node_at_risk E c w p (pod_nodeName pod), cache')" and coh: "coherent_nodes c w cache'"
      by auto
    have risk: "live_at_risk E c w p pod \<longleftrightarrow> node_at_risk E c w p (pod_nodeName pod)" using False by (simp add: live_at_risk_def)
    let ?dying = "if pod_nodeName pod \<in> set dying then dying else dying @ [pod_nodeName pod]"
    have rest: "\<forall>pod \<in> set pods. pod_deletionTimestamp pod = None \<longrightarrow> pod_nodeName pod \<noteq> [] \<longrightarrow> \<not> isl (lookup_node c w (pod_nodeName pod))"
      using Cons.prems(1) by simp
    show ?thesis
    proof (cases "live_at_risk E c w p pod")
      case True
      have "distinct ?dying" using Cons.prems(3) by simp
      from Cons.IH [OF rest coh this, of "k + 1"] True risk False cached show ?thesis by auto
    next
      case False
      with Cons.IH [OF rest coh Cons.prems(3), of k] risk \<open>\<not> (pod_deletionTimestamp pod \<noteq> None \<or> pod_nodeName pod = [])\<close> cached
      show ?thesis by auto
    qed
  qed
qed simp

lemma int32_small: "0 \<le> x \<Longrightarrow> x < 2 ^ 31 \<Longrightarrow> int32 x = x"
  by (rule int32_id) (simp add: in_int32_def)

lemma spareCounts_loop_count:
  assumes "0 \<le> safe" and "safe \<le> ready" and "ready + int (length pods) < 2 ^ 31"
  shows "spareCounts_loop vuln pods ready safe =
     (ready + int (length (filter podReady pods)),
      safe + int (length (filter (\<lambda>p. podReady p \<and> pod_nodeName p \<notin> set vuln) pods)))"
  using assms
proof (induction pods arbitrary: ready safe)
  case (Cons p pods)
  then show ?case by (auto simp: int32_small)
qed simp

lemma applySpareStatus_frame:
  assumes "run_state (applySpareStatus E win ready safe now) s = ((t, win'), s')"
  shows "cluster s' = cluster s \<and> win_spec win' = win_spec win \<and> win_labels win' = win_labels win \<and>
     win_namespace win' = win_namespace win \<and> win_name win' = win_name win \<and> win_finalizers win' = win_finalizers win \<and>
     wst_phase (win_status win') = wst_phase (win_status win) \<and>
     wst_forcedCool (win_status win') = wst_forcedCool (win_status win) \<and>
     wst_lastScaleTime (win_status win') = wst_lastScaleTime (win_status win) \<and>
     wst_spareReady (win_status win') = (ws_baseline (win_spec win) \<le> safe) \<and>
     wst_safeReadyReplicas (win_status win') = safe \<and> wst_readyReplicas (win_status win') = ready"
  using assms by (auto simp: applySpareStatus_def Let_def)


section \<open>Properties\<close>

text \<open>
  C30. The live at-risk count is exact and independent of the node cache: when every needed
  node lookup succeeds or reports not found, it is the number of non-terminating scheduled
  pods on nodes that the policy filters and finds vulnerable, with the sorted, duplicate-free
  list of those nodes.
\<close>

theorem liveAtRiskPods_exact:
  assumes "FromSpec E (spec_nodeFilter (pol_spec p)) = Inr f" and "listWorkloadPods E c w (Some dep) = Inr pods"
    and "\<forall>pod \<in> set pods. \<not> isl (lookup_node c w (pod_nodeName pod))"
  shows "\<exists>names. liveAtRiskPods E c w (Some win) (Some p) (Some dep) = Inr (int (length (filter (live_at_risk E c w p) pods)), names)
     \<and> sorted names \<and> distinct names \<and> set names = pod_nodeName ` set (filter (live_at_risk E c w p) pods)"
proof -
  obtain dying where "liveAtRisk_loop E c w f p pods [] [] 0 = Inr (int (length (filter (live_at_risk E c w p) pods)), dying)"
    and "distinct dying" and "set dying = pod_nodeName ` {pod \<in> set pods. live_at_risk E c w p pod}"
    using liveAtRisk_loop_spec [OF assms(1) _ node_memo.coherent_Nil, of pods c w "[]" 0] assms(3) by auto
  with assms show ?thesis by (auto simp: liveAtRiskPods_def)
qed

lemma web_workload_pods:
  "listWorkloadPods std_env mem_client (web_cluster r ns) (Some plain_deployment) = Inr [web_pod ''web-1'', web_pod ''web-2'']"
  by (simp add: listWorkloadPods_def web_items)

lemma web_lookup_node: "lookup_node mem_client (web_cluster r ns) ''ip-7'' = Inr (Some spot_node)"
  by (simp add: lookup_node_def mem_client_def web_cluster_def spot_node_def)

lemma web_live_at_risk: "live_at_risk std_env mem_client (web_cluster r ns) cordon_policy (web_pod n)"
proof -
  have "filter_accepts std_env (spec_nodeFilter (pol_spec cordon_policy)) spot_node"
    by (simp add: filter_accepts_def cordon_policy_def plain_policy_def empty_node_filter_def)
  moreover have "Vulnerable (registry std_env) spot_node (Some cordon_policy)"
    by (simp add: Vulnerable_def IsVulnerable_def cordon_policy_def plain_policy_def go_simps spot_node_def)
  ultimately show ?thesis
    by (simp add: live_at_risk_def node_at_risk_def web_lookup_node) (simp add: web_pod_def)
qed

theorem liveAtRiskPods_exact_witness:
  "\<exists>names. liveAtRiskPods std_env mem_client (web_cluster True [''ip-7'']) (Some (web_window True [''ip-7''])) (Some cordon_policy)
     (Some plain_deployment) = Inr (2, names) \<and> set names = {''ip-7''}"
proof -
  obtain f where f: "FromSpec std_env (spec_nodeFilter (pol_spec cordon_policy)) = Inr f"
    by (auto simp: FromSpec_def empty_node_filter_def cordon_policy_def plain_policy_def)
  show ?thesis
    using liveAtRiskPods_exact [OF f web_workload_pods, of True "[''ip-7'']" "web_window True [''ip-7'']"]
    by (auto simp: web_lookup_node web_live_at_risk)
qed

text \<open>
  \<open>SpareReady\<close> is what it says: after \<open>spareCounts\<close> and \<open>applySpareStatus\<close> the window reports
  its spare ready exactly when the ready, non-terminating pods of the deployment off the
  recorded nodes are at least the baseline (below the int32 range of the counters).
\<close>

lemma spare_ready_means_enough_safe_pods:
  assumes "listWorkloadPods E c w (Some dep) = Inr pods" and "length pods < 2 ^ 31"
    and "spareCounts E c w win (Some dep) = Inr (ready, safe)"
    and "run_state (applySpareStatus E win ready safe now) s = ((t, win'), s')"
  shows "wst_spareReady (win_status win') \<longleftrightarrow>
     ws_baseline (win_spec win) \<le>
       int (length (filter (\<lambda>p. podReady p \<and> pod_nodeName p \<notin> set (ws_vulnerableNodes (win_spec win))) pods))"
proof -
  have "spareCounts E c w win (Some dep) = Inr (spareCounts_loop (ws_vulnerableNodes (win_spec win)) pods 0 0)"
    using assms(1) by (auto simp: spareCounts_def listWorkloadPods_def sum_bind_eq_Inr_iff)
  with assms(2,3) have "safe = int (length (filter (\<lambda>p. podReady p \<and> pod_nodeName p \<notin> set (ws_vulnerableNodes (win_spec win))) pods))"
    by (simp add: spareCounts_loop_count)
  with applySpareStatus_frame [OF assms(4)] show ?thesis by simp
qed

end
