(* ===== verification/Go_Time.thy ===== *)
theory Go_Time
  imports Go_Strings
begin

text \<open>
  \<open>Time.UTC().Format(time.RFC3339)\<close>, as the cooldown stamp uses it: a time is a number of
  nanoseconds since 1 January of year 1 in the proleptic Gregorian calendar; the text has
  whole seconds and the zone \<open>Z\<close>.
\<close>

definition pad0 :: "nat \<Rightarrow> nat \<Rightarrow> string" where
  "pad0 k n = replicate (k - length (digits10 n)) (CHR ''0'') @ digits10 n"

definition is_leap :: "nat \<Rightarrow> bool" where
  "is_leap y \<longleftrightarrow> y mod 4 = 0 \<and> (y mod 100 \<noteq> 0 \<or> y mod 400 = 0)"

definition month_days :: "nat \<Rightarrow> nat list" where
  "month_days y = [31, if is_leap y then 29 else 28, 31, 30, 31, 30, 31, 31, 30, 31, 30, 31]"

fun month_of :: "nat list \<Rightarrow> nat \<Rightarrow> nat \<Rightarrow> nat \<times> nat" where
  "month_of [] m d = (m, d + 1)"
| "month_of (n # ns) m d = (if d < n then (m, d + 1) else month_of ns (m + 1) (d - n))"

text \<open>Year, month and day of a day number (0 is 0001-01-01).\<close>

definition civil :: "nat \<Rightarrow> nat \<times> nat \<times> nat" where
  "civil days =
     (let n400 = days div 146097; d400 = days mod 146097;
          n100 = min 3 (d400 div 36524); d100 = d400 - 36524 * n100;
          n4 = d100 div 1461; d4 = d100 mod 1461;
          n1 = min 3 (d4 div 365); yday = d4 - 365 * n1;
          year = 400 * n400 + 100 * n100 + 4 * n4 + n1 + 1
      in case month_of (month_days year) 1 yday of (m, d) \<Rightarrow> (year, m, d))"

definition FormatRFC3339 :: "time \<Rightarrow> string" where
  "FormatRFC3339 t =
     (let secs = nat (t div second); days = secs div 86400; sod = secs mod 86400
      in case civil days of (y, m, d) \<Rightarrow>
           pad0 4 y @ ''-'' @ pad0 2 m @ ''-'' @ pad0 2 d @ ''T'' @
           pad0 2 (sod div 3600) @ '':'' @ pad0 2 (sod div 60 mod 60) @ '':'' @ pad0 2 (sod mod 60) @ ''Z'')"

lemma FormatRFC3339_not_empty [simp]: "FormatRFC3339 t \<noteq> []"
  by (simp add: FormatRFC3339_def Let_def split: prod.split)

end
