(* ===== verification/Plan.thy ===== *)
theory Plan
  imports Capacity Bindings Field_Store Scale_Actions Metrics Go_Time
begin

text \<open>
  \<open>internal/controller/plan.go\<close>: the fan-out of one disruption over the bound objects.
  \<open>buildPlan\<close> only reads the cluster; \<open>apply\<close>, the restore functions and \<open>stampCooldown\<close>
  are handlers. The loops walk the steps in consecutive groups of one object; a group is
  first read (\<open>group_reads\<close>, \<open>restore_reads\<close>) and then written with one merge patch. Log
  lines are not modelled. A Go result \<open>(bool, error)\<close> whose bool is meaningful beside an
  error is a pair with an optional error.
\<close>


section \<open>Definitions\<close>

record scaleStep =
  stp_key :: string
  stp_target :: Target
  stp_baseline :: int
  stp_desired :: int
  stp_stamp :: strmap
  stp_stampKeys :: "string list"
  stp_skipDownscaling :: bool

record scalePlan =
  plan_steps :: "scaleStep list"
  plan_primaryBaseline :: int
  plan_desired :: int

definition deployReplicas :: "Deployment option \<Rightarrow> int" where
  "deployReplicas dep =
     (case dep of None \<Rightarrow> 1 | Some d \<Rightarrow> (case dep_replicas d of Some n \<Rightarrow> n | None \<Rightarrow> 1))"

fun uniqueStrings_loop :: "string list \<Rightarrow> string list \<Rightarrow> string list" where
  "uniqueStrings_loop seen [] = []"
| "uniqueStrings_loop seen (s # ss) =
     (if s = [] \<or> s \<in> set seen then uniqueStrings_loop seen ss else s # uniqueStrings_loop (s # seen) ss)"

definition uniqueStrings :: "string list \<Rightarrow> string list" where
  "uniqueStrings ss = uniqueStrings_loop [] ss"

definition step_of :: "resourceStamp \<Rightarrow> ResolvedStep \<Rightarrow> int \<Rightarrow> int \<Rightarrow> scaleStep" where
  "step_of stamp r baseline desired =
     \<lparr>stp_key = rstep_key r, stp_target = rstep_target r, stp_baseline = baseline, stp_desired = desired,
      stp_stamp = fold (\<lambda>a anns. AList.update a ''true'' anns) (rstep_annotations r) (stamp_values stamp baseline desired),
      stp_stampKeys = uniqueStrings (stamp_keys stamp @ rstep_annotations r),
      stp_skipDownscaling = rstep_skipDownscaling r\<rparr>"

definition step_baseline :: "env \<Rightarrow> 'w client \<Rightarrow> 'w \<Rightarrow> ScaleAction list \<Rightarrow> ResolvedStep \<Rightarrow> goerror + int" where
  "step_baseline E c w existing r =
     (case findAction existing (rstep_key r) (rstep_target r) of
        Some old \<Rightarrow> Inr (sa_baseline old)
      | None \<Rightarrow> Current E c w (rstep_target r))"

fun buildPlan_loop ::
  "env \<Rightarrow> 'w client \<Rightarrow> 'w \<Rightarrow> EvictionGuardPolicy \<Rightarrow> int \<Rightarrow> ScaleAction list \<Rightarrow> resourceStamp \<Rightarrow> nat \<Rightarrow>
   ResolvedStep list \<Rightarrow> scalePlan \<Rightarrow> goerror + scalePlan" where
  "buildPlan_loop E c w policy atRisk existing stamp i [] plan = Inr plan"
| "buildPlan_loop E c w policy atRisk existing stamp i (r # rs) plan =
     sum_bind (step_baseline E c w existing r) (\<lambda>baseline.
       let plan' = (if i = 0
             then plan\<lparr>plan_primaryBaseline := baseline,
               plan_desired := TargetReplicas baseline atRisk (SpareReplicasOrDefault policy) (MaxBufferOrDefault policy)\<rparr>
             else plan)
       in buildPlan_loop E c w policy atRisk existing stamp (i + 1) rs
            (plan'\<lparr>plan_steps := plan_steps plan' @ [step_of stamp r baseline (plan_desired plan')]\<rparr>))"

definition empty_plan :: scalePlan where
  "empty_plan = \<lparr>plan_steps = [], plan_primaryBaseline = 0, plan_desired = 0\<rparr>"

definition buildPlan ::
  "env \<Rightarrow> 'w client \<Rightarrow> 'w \<Rightarrow> EvictionGuardPolicy option \<Rightarrow> Deployment option \<Rightarrow> int \<Rightarrow> ScaleAction list \<Rightarrow> int \<Rightarrow>
   goerror + scalePlan" where
  "buildPlan E c w policy dep atRisk existing stickyBaseline =
     (case policy of
        None \<Rightarrow> Inl (ErrorString ''policy.spec.backends is required'')
      | Some p \<Rightarrow>
          if mlen (spec_backends (pol_spec p)) = 0 then Inl (ErrorString ''policy.spec.backends is required'')
          else sum_bind (BindingsForWorkload dep policy) (\<lambda>bindings.
            sum_bind (ResolveCatalog dep policy bindings) (\<lambda>resolved.
              let stamp = resolveStamp p dep in
              if length resolved = 0 then
                (let baseline = (if stickyBaseline \<le> 0 then deployReplicas dep else stickyBaseline)
                 in Inr \<lparr>plan_steps = [], plan_primaryBaseline = baseline,
                      plan_desired = TargetReplicas baseline atRisk (SpareReplicasOrDefault p) (MaxBufferOrDefault p)\<rparr>)
              else buildPlan_loop E c w p atRisk existing stamp 0 resolved empty_plan)))"

definition sameScaleObject :: "Target \<Rightarrow> Target \<Rightarrow> bool" where
  "sameScaleObject a b \<longleftrightarrow> tgt_apiVersion a = tgt_apiVersion b \<and> tgt_kind a = tgt_kind b \<and>
     tgt_namespace a = tgt_namespace b \<and> tgt_name a = tgt_name b"

definition wrapBackendErr :: "Target \<Rightarrow> goerror \<Rightarrow> goerror" where
  "wrapBackendErr t e =
     (if IsForbidden e then BackendAccessError t e else WrapError (tgt_kind t @ '' '' @ ObjectKey t @ '': '') e [])"

definition metricBackend :: "scaleStep \<Rightarrow> string" where
  "metricBackend s = (if stp_key s \<noteq> [] then stp_key s else tgt_kind (stp_target s))"

text \<open>The inner loops of \<open>apply\<close> and the restore functions: consecutive elements of one object.\<close>

function groups_by :: "('a \<Rightarrow> 'a \<Rightarrow> bool) \<Rightarrow> 'a list \<Rightarrow> 'a list list" where
  "groups_by r [] = []"
| "groups_by r (x # xs) = (x # takeWhile (r x) xs) # groups_by r (dropWhile (r x) xs)"
  by pat_completeness auto
termination
  by (relation "measure (\<lambda>(r, xs). length xs)") (auto simp: le_imp_less_Suc length_dropWhile_le)

definition step_action :: "scaleStep \<Rightarrow> ScaleAction" where
  "step_action s =
     scaleAction (stp_key s) (stp_target s) (stp_baseline s) (stp_desired s) (stp_stampKeys s) (stp_skipDownscaling s)"

definition plan_actions :: "scalePlan \<Rightarrow> ScaleAction list \<Rightarrow> ScaleAction list" where
  "plan_actions p existing =
     (let nxt = map step_action (plan_steps p) in
      if length (plan_steps p) = 0 then nxt else mergeActions existing nxt)"

subsection \<open>Restoring\<close>

definition restoreOneAction :: "env \<Rightarrow> 'w client \<Rightarrow> ScaleAction \<Rightarrow> ('w, unit) fallible" where
  "restoreOneAction E c a =
     (let t = actionTarget a;
          stamps = State_Monad.bind (PatchAnnotations E c t (StampDeletes (sa_stampKeys a))) (\<lambda>r.
            case r of Inl e \<Rightarrow> fail (wrapBackendErr t e) | Inr _ \<Rightarrow> ok ())
      in if sa_skipDownscaling a then stamps
         else State_Monad.bind (query (\<lambda>w. Current E c w t)) (\<lambda>cur.
           case cur of
             Inl e \<Rightarrow> fail (wrapBackendErr t e)
           | Inr current \<Rightarrow>
               if current > sa_baseline a
               then State_Monad.bind (ScaleDown E c t (sa_baseline a)) (\<lambda>r.
                 case r of Inl e \<Rightarrow> fail (wrapBackendErr t e) | Inr _ \<Rightarrow> stamps)
               else stamps))"

fun restore_reads ::
  "env \<Rightarrow> 'w client \<Rightarrow> 'w \<Rightarrow> ScaleAction list \<Rightarrow> string list \<Rightarrow> (string, int) gomap \<Rightarrow> string list \<Rightarrow>
   goerror + string list \<times> (string, int) gomap \<times> string list" where
  "restore_reads E c w [] paths values stampKeys = Inr (paths, values, stampKeys)"
| "restore_reads E c w (ga # grp) paths values stampKeys =
     (let gt = actionTarget ga; stampKeys' = stampKeys @ sa_stampKeys ga in
      if sa_skipDownscaling ga then restore_reads E c w grp paths values stampKeys'
      else case Current E c w gt of
        Inl e \<Rightarrow> Inl (wrapBackendErr gt e)
      | Inr current \<Rightarrow>
          restore_reads E c w grp (paths @ [tgt_fieldPath gt])
            (if current > sa_baseline ga then AList.update (tgt_fieldPath gt) (sa_baseline ga) values else values)
            stampKeys')"

definition restoreGroupedActions :: "env \<Rightarrow> 'w client \<Rightarrow> ScaleAction list \<Rightarrow> ('w, unit) fallible" where
  "restoreGroupedActions E c grp =
     (let t = actionTarget (hd grp) in
      and_then (query (\<lambda>w. restore_reads E c w grp [] [] [])) (\<lambda>(paths, values, stampKeys).
        State_Monad.bind (if mlen values > 0 then PatchIntegers E c t paths values else ok ()) (\<lambda>r.
          case r of
            Inl e \<Rightarrow> fail (wrapBackendErr t e)
          | Inr _ \<Rightarrow>
              State_Monad.bind (PatchAnnotations E c t (StampDeletes (uniqueStrings stampKeys))) (\<lambda>r.
                case r of Inl e \<Rightarrow> fail (wrapBackendErr t e) | Inr _ \<Rightarrow> ok ()))))"

definition restore_group :: "env \<Rightarrow> 'w client \<Rightarrow> ScaleAction list \<Rightarrow> ('w, unit) fallible" where
  "restore_group E c grp =
     (if length grp = 1 then restoreOneAction E c (hd grp) else restoreGroupedActions E c grp)"

fun restore_loop :: "env \<Rightarrow> 'w client \<Rightarrow> ScaleAction list list \<Rightarrow> ('w, unit) fallible" where
  "restore_loop E c [] = ok ()"
| "restore_loop E c (grp # groups) =
     State_Monad.bind (restore_group E c grp) (\<lambda>r.
       case r of
         Inl e \<Rightarrow> if IsNotFound e then restore_loop E c groups else fail e
       | Inr _ \<Rightarrow> restore_loop E c groups)"

definition with_namespace :: "string \<Rightarrow> ScaleAction \<Rightarrow> ScaleAction" where
  "with_namespace ns a = (if sa_namespace a = [] then a\<lparr>sa_namespace := ns\<rparr> else a)"

definition same_action_object :: "ScaleAction \<Rightarrow> ScaleAction \<Rightarrow> bool" where
  "same_action_object a b \<longleftrightarrow> sameScaleObject (actionTarget a) (actionTarget b)"

definition restoreActions :: "env \<Rightarrow> 'w client \<Rightarrow> EvictionGuardWindow \<Rightarrow> ('w, unit) fallible" where
  "restoreActions E c win =
     restore_loop E c (groups_by same_action_object (map (with_namespace (win_namespace win)) (ScaleActions (Some win))))"

subsection \<open>Applying\<close>

definition restoreStepGroup :: "env \<Rightarrow> 'w client \<Rightarrow> scaleStep list \<Rightarrow> ('w, unit) fallible" where
  "restoreStepGroup E c grp = (if length grp = 0 then ok () else restore_group E c (map step_action grp))"

fun compensate_loop :: "env \<Rightarrow> 'w client \<Rightarrow> scaleStep list list \<Rightarrow> goerror option \<Rightarrow> ('w, goerror option) io" where
  "compensate_loop E c [] first = State_Monad.return first"
| "compensate_loop E c (g # gs) first =
     State_Monad.bind (restoreStepGroup E c g) (\<lambda>r.
       compensate_loop E c gs (case r of Inl e \<Rightarrow> if first = None then Some e else first | Inr _ \<Rightarrow> first))"

definition compensateApply :: "env \<Rightarrow> 'w client \<Rightarrow> scaleStep list list \<Rightarrow> ('w, goerror option) io" where
  "compensateApply E c groups = compensate_loop E c (rev groups) None"

fun group_reads ::
  "env \<Rightarrow> 'w client \<Rightarrow> 'w \<Rightarrow> scaleStep list \<Rightarrow> string list \<Rightarrow> (string, int) gomap \<Rightarrow> strmap \<Rightarrow> bool \<Rightarrow>
   goerror + string list \<times> (string, int) gomap \<times> strmap \<times> bool" where
  "group_reads E c w [] paths values stamp raised = Inr (paths, values, stamp, raised)"
| "group_reads E c w (s # grp) paths values stamp raised =
     (case Current E c w (stp_target s) of
        Inl e \<Rightarrow> Inl (wrapBackendErr (stp_target s) e)
      | Inr current \<Rightarrow>
          (let path = tgt_fieldPath (stp_target s); up = (current < stp_desired s) in
           group_reads E c w grp (paths @ [path])
             (if up then AList.update path (stp_desired s) values else values)
             (fold (\<lambda>(k, v) m. AList.update k v m) (stp_stamp s) stamp) (raised \<or> up)))"

definition apply_failed ::
  "env \<Rightarrow> 'w client \<Rightarrow> scaleStep list list \<Rightarrow> bool \<Rightarrow> goerror \<Rightarrow> ('w, bool \<times> goerror option) io" where
  "apply_failed E c applied scaled e =
     State_Monad.bind (compensateApply E c applied) (\<lambda>_. State_Monad.return (scaled, Some e))"

fun apply_loop ::
  "env \<Rightarrow> 'w client \<Rightarrow> string \<Rightarrow> scaleStep list list \<Rightarrow> scaleStep list list \<Rightarrow> bool \<Rightarrow> ('w, bool \<times> goerror option) io" where
  "apply_loop E c policyName [] applied scaled = State_Monad.return (scaled, None)"
| "apply_loop E c policyName (grp # groups) applied scaled =
     (let base = stp_target (hd grp) in
      State_Monad.bind (query (\<lambda>w. group_reads E c w grp [] [] [] False)) (\<lambda>r.
        case r of
          Inl e \<Rightarrow> apply_failed E c applied scaled e
        | Inr (paths, values, stamp, raised) \<Rightarrow>
            State_Monad.bind (if mlen values > 0 then PatchIntegers E c base paths values else ok ()) (\<lambda>r.
              case r of
                Inl e \<Rightarrow> apply_failed E c applied scaled (wrapBackendErr base e)
              | Inr _ \<Rightarrow>
                  (let mutated = (mlen values > 0); up = (mutated \<and> raised);
                       scaled' = (scaled \<or> up);
                       applied' = (if mutated then applied @ [grp] else applied)
                   in State_Monad.bind
                        (if up then emit (CounterInc metric_ScaleActions [policyName, ''up'', metricBackend (hd grp), ''ok''])
                         else State_Monad.return ()) (\<lambda>_.
                      if mlen stamp > 0
                      then State_Monad.bind (PatchAnnotations E c base stamp) (\<lambda>r.
                        case r of
                          Inl e \<Rightarrow> apply_failed E c applied' scaled' (wrapBackendErr base e)
                        | Inr _ \<Rightarrow> apply_loop E c policyName groups (applied @ [grp]) scaled')
                      else apply_loop E c policyName groups applied' scaled')))))"

definition same_step_object :: "scaleStep \<Rightarrow> scaleStep \<Rightarrow> bool" where
  "same_step_object s u \<longleftrightarrow> sameScaleObject (stp_target s) (stp_target u)"

definition plan_apply :: "env \<Rightarrow> 'w client \<Rightarrow> scalePlan \<Rightarrow> string \<Rightarrow> ('w, bool \<times> goerror option) io" where
  "plan_apply E c p policyName = apply_loop E c policyName (groups_by same_step_object (plan_steps p)) [] False"

subsection \<open>Labels and the cooldown stamp\<close>

definition backendLabel :: "Deployment option \<Rightarrow> EvictionGuardPolicy option \<Rightarrow> string" where
  "backendLabel dep policy =
     (case BindingsForWorkload dep policy of
        Inl _ \<Rightarrow> ''unknown''
      | Inr bindings \<Rightarrow> if length bindings = 0 then ''unknown'' else JoinStr '','' (map bind_key bindings))"

fun stamp_loop :: "env \<Rightarrow> 'w client \<Rightarrow> string \<Rightarrow> strmap \<Rightarrow> ScaleAction list \<Rightarrow> ('w, unit) fallible" where
  "stamp_loop E c ns anns [] = ok ()"
| "stamp_loop E c ns anns (a # actions) =
     (let t0 = actionTarget a; t = (if tgt_namespace t0 = [] then t0\<lparr>tgt_namespace := ns\<rparr> else t0) in
      and_then (PatchAnnotations E c t anns) (\<lambda>_. stamp_loop E c ns anns actions))"

definition stampCooldown ::
  "env \<Rightarrow> 'w client \<Rightarrow> EvictionGuardPolicy \<Rightarrow> Deployment option \<Rightarrow> EvictionGuardWindow \<Rightarrow> time \<Rightarrow> ('w, unit) fallible" where
  "stampCooldown E c policy dep win until =
     (let st = resolveStamp policy dep in
      if \<not> rs_enabled st then ok ()
      else stamp_loop E c (win_namespace win)
        [(rs_windowUntil st, if until \<noteq> 0 then FormatRFC3339 until else [])] (ScaleActions (Some win)))"

end
