(* ===== verification/Scale_Cycle.thy ===== *)
theory Scale_Cycle
  imports Plan
begin

text \<open>
  What a plan does to the capacity fields: \<open>apply\<close> raises every planned field to the
  desired value and changes nothing else, the restore lowers every recorded field to its
  baseline and changes nothing else, so a scale-up followed by its scale-back is the
  identity; and replanning on recorded actions keeps the baselines. The proofs follow the
  groups of the loops and rest on the \<open>field_store\<close> contract of the field backend.
\<close>


section \<open>Specification\<close>

text \<open>Two targets that name the same field of the same object.\<close>

definition same_field :: "Target \<Rightarrow> Target \<Rightarrow> bool" where
  "same_field t u \<longleftrightarrow> same_object t u \<and> tgt_fieldPath t = tgt_fieldPath u"

definition raised_to :: "int \<Rightarrow> scaleStep list \<Rightarrow> Target \<Rightarrow> int \<Rightarrow> int" where
  "raised_to d steps t i = (if \<exists>s \<in> set steps. same_field (stp_target s) t then max i d else i)"

definition lowered :: "ScaleAction list \<Rightarrow> Target \<Rightarrow> int \<Rightarrow> int" where
  "lowered acts t i =
     (case find (\<lambda>a. same_field (actionTarget a) t) acts of
        None \<Rightarrow> i
      | Some a \<Rightarrow> if sa_skipDownscaling a then i else min i (sa_baseline a))"

text \<open>Actions on one field agree on its baseline and on whether it is lowered.\<close>

definition consistent :: "ScaleAction list \<Rightarrow> bool" where
  "consistent acts \<longleftrightarrow>
     (\<forall>a \<in> set acts. \<forall>b \<in> set acts. same_field (actionTarget a) (actionTarget b) \<longrightarrow>
        sa_baseline a = sa_baseline b \<and> sa_skipDownscaling a = sa_skipDownscaling b)"

text \<open>
  A not-found answer comes from the server and means that the object is not there: the
  accessors of \<open>unstructured\<close> do not return one, and a patch returns one only on an absent
  object.
\<close>

definition not_found_documented :: "env \<Rightarrow> 'w client \<Rightarrow> bool" where
  "not_found_documented E c \<longleftrightarrow>
     (\<forall>j path e. NestedInt64 E j path = Inl e \<longrightarrow> \<not> IsNotFound e) \<and>
     (\<forall>g ns n patch w e w'. Patch_Unstructured c g ns n patch w = (Inl e, w') \<longrightarrow> IsNotFound e \<longrightarrow>
        isl (Get_Unstructured c w g ns n))"


section \<open>Lemmas on groups and fields\<close>

lemma sameScaleObject_same_object: "sameScaleObject = same_object"
  by (intro ext) (simp add: sameScaleObject_def same_object_def)

lemma concat_groups_by: "concat (groups_by r xs) = xs"
  by (induction r xs rule: groups_by.induct) simp_all

lemma groups_by_member:
  "g \<in> set (groups_by r xs) \<Longrightarrow> g \<noteq> [] \<and> (\<forall>x \<in> set (tl g). r (hd g) x)"
  by (induction r xs rule: groups_by.induct) (auto dest: set_takeWhileD)

lemma same_field_refl [simp]: "same_field t t"
  by (simp add: same_field_def)

lemma same_field_sym: "same_field t u \<Longrightarrow> same_field u t"
  by (simp add: same_field_def same_object_def)

lemma same_field_trans: "same_field t u \<Longrightarrow> same_field u v \<Longrightarrow> same_field t v"
  by (simp add: same_field_def same_object_def)

lemma field_value_same_field:
  assumes "same_field t u"
  shows "field_value E c w t = field_value E c w u"
proof -
  have "fb_get E c w t = fb_get E c w u"
    using assms by (simp add: same_field_def same_object_def fb_get_def ObjectKey_def cong: sum.case_cong)
  then show ?thesis by (simp add: field_value_def)
qed

lemma Current_same_field: "same_field t u \<Longrightarrow> field_value E c w u = Some i \<Longrightarrow> Current E c w t = Inr i"
  using Current_field_value field_value_same_field by metis

lemma fieldPath_actionTarget [simp]: "tgt_fieldPath (actionTarget a) = sa_fieldPath a"
  by (simp add: actionTarget_def)

lemma mlen_pos: "0 < mlen m \<longleftrightarrow> m \<noteq> []"
  by (cases m) (auto simp: mlen_def mkeys_def remdups_eq_nil_iff simp flip: length_greater_0_conv simp del: length_greater_0_conv remdups.simps)


section \<open>Applying\<close>

lemma group_reads_spec:
  assumes "group_reads E c w g ps vs st ra = Inr (paths, values, stamp, raised)" and "\<forall>s \<in> set g. stp_desired s = d"
  shows "paths = ps @ map (tgt_fieldPath \<circ> stp_target) g \<and>
    (\<forall>p. map_of values p =
       (if \<exists>s \<in> set g. tgt_fieldPath (stp_target s) = p \<and> (\<exists>i < d. Current E c w (stp_target s) = Inr i) then Some d
        else map_of vs p))"
  using assms
proof (induction g arbitrary: ps vs st ra)
  case (Cons s g)
  then obtain i where i: "Current E c w (stp_target s) = Inr i" by (auto split: sum.splits)
  with Cons.prems show ?case by (auto dest!: Cons.IH simp: Let_def update_conv split: if_splits)
qed simp

text \<open>One group: the fields of its steps are raised, all others stay.\<close>

lemma group_patch_raises:
  assumes reads: "group_reads E c (cluster s) g [] [] [] False = Inr (paths, values, stamp, raised)"
    and d: "\<forall>x \<in> set g. stp_desired x = d" "in_int32 d"
    and g: "g \<noteq> []" "\<forall>x \<in> set (tl g). same_step_object (hd g) x" and T: "stp_target ` set g \<subseteq> T"
    and run: "run_state (if mlen values > 0 then PatchIntegers E c (stp_target (hd g)) paths values else ok ()) s = (Inr (), s')"
  shows "field_updates E c T (raised_to d g) (cluster s) (cluster s')"
proof -
  let ?base = "stp_target (hd g)"
  have obj: "same_object ?base (stp_target x)" if "x \<in> set g" for x
    using that g by (cases g) (auto simp: same_step_object_def sameScaleObject_same_object)
  have paths: "paths = map (tgt_fieldPath \<circ> stp_target) g"
    and vals: "map_of values p = (if \<exists>s' \<in> set g. tgt_fieldPath (stp_target s') = p \<and>
        (\<exists>i < d. Current E c (cluster s) (stp_target s') = Inr i) then Some d else None)" for p
    using group_reads_spec [OF reads d(1)] by auto
  have up: "field_updates E c T (\<lambda>t i. case patched ?base paths values t of None \<Rightarrow> i | Some d \<Rightarrow> d) (cluster s) (cluster s')"
  proof (cases "mlen values > 0")
    case True
    have "hd g \<in> set g" using g(1) by simp
    then have "\<exists>t \<in> T. same_object ?base t" using T same_object_refl by blast
    moreover have "set paths \<subseteq> tgt_fieldPath ` {t \<in> T. same_object ?base t}"
      using T obj by (auto simp: paths)
    moreover have "\<forall>p e. map_of values p = Some e \<longrightarrow> in_int32 e" using d(2) by (auto simp: vals split: if_splits)
    ultimately show ?thesis using PatchIntegers_updates [of E c ?base paths "values" s s' T] run True by simp
  next
    case False
    then have "values = []" by (simp add: mlen_pos)
    then have "patched ?base paths values = (\<lambda>_. None)" by (auto simp: patched_def)
    with run False fs.updates_refl show ?thesis by simp
  qed
  show ?thesis
  proof (rule fs.updates_cong [OF up])
    fix t i
    assume val: "field_value E c (cluster s) t = Some i"
    have cur: "Current E c (cluster s) (stp_target x) = Inr i" if "x \<in> set g" "same_field (stp_target x) t" for x
      by (rule Current_same_field [OF that(2) val])
    have cov: "(\<exists>x \<in> set g. same_field (stp_target x) t) \<longleftrightarrow> same_object ?base t \<and> tgt_fieldPath t \<in> set paths"
      using obj by (auto simp: paths same_field_def image_iff) (metis same_object_sym same_object_trans)+
    show "(case patched ?base paths values t of None \<Rightarrow> i | Some d \<Rightarrow> d) = raised_to d g t i"
    proof (cases "\<exists>x \<in> set g. same_field (stp_target x) t")
      case True
      then obtain x where x: "x \<in> set g" "same_field (stp_target x) t" by blast
      have "(\<exists>s' \<in> set g. tgt_fieldPath (stp_target s') = tgt_fieldPath t \<and>
          (\<exists>i < d. Current E c (cluster s) (stp_target s') = Inr i)) \<longleftrightarrow> i < d"
      proof
        assume "\<exists>s' \<in> set g. tgt_fieldPath (stp_target s') = tgt_fieldPath t \<and>
          (\<exists>i < d. Current E c (cluster s) (stp_target s') = Inr i)"
        then obtain y j where y: "y \<in> set g" "tgt_fieldPath (stp_target y) = tgt_fieldPath t" "j < d"
            "Current E c (cluster s) (stp_target y) = Inr j"
          by blast
        have "same_field (stp_target y) t"
          using y(1,2) obj True cov by (auto simp: same_field_def) (metis same_object_sym same_object_trans)
        with cur y show "i < d" by auto
      next
        assume "i < d"
        with cur [OF x] x show "\<exists>s' \<in> set g. tgt_fieldPath (stp_target s') = tgt_fieldPath t \<and>
          (\<exists>i < d. Current E c (cluster s) (stp_target s') = Inr i)"
          by (auto simp: same_field_def)
      qed
      with True cov show ?thesis by (auto simp: patched_def vals raised_to_def)
    next
      case False
      with cov show ?thesis by (auto simp: patched_def raised_to_def)
    qed
  qed
qed

lemma raised_to_append: "raised_to d ys t (raised_to d xs t i) = raised_to d (xs @ ys) t i"
  by (auto simp: raised_to_def)

lemma apply_failed_error: "run_state (apply_failed E c applied scaled e) s = ((sc, r), s') \<Longrightarrow> r = Some e"
  by (auto simp: apply_failed_def split: prod.splits)

text \<open>One iteration of \<open>apply\<close> that does not fail.\<close>

lemma apply_loop_Cons:
  assumes "run_state (apply_loop E c pn (g # gs) applied scaled) s = ((sc, None), s')"
  obtains paths vals stamp raised s1 s2 s3 applied' scaled'
  where "group_reads E c (cluster s) g [] [] [] False = Inr (paths, vals, stamp, raised)"
    and "run_state (if mlen vals > 0 then PatchIntegers E c (stp_target (hd g)) paths vals else ok ()) s = (Inr (), s1)"
    and "cluster s2 = cluster s1"
    and "run_state (if mlen stamp > 0 then PatchAnnotations E c (stp_target (hd g)) stamp else ok ()) s2 = (Inr (), s3)"
    and "run_state (apply_loop E c pn gs applied' scaled') s3 = ((sc, None), s')"
proof -
  obtain paths vals stamp raised where reads:
    "group_reads E c (cluster s) g [] [] [] False = Inr (paths, vals, stamp, raised)"
    using assms by (cases "group_reads E c (cluster s) g [] [] [] False") (auto simp: Let_def dest: apply_failed_error)
  obtain r1 s1 where r1: "run_state (if mlen vals > 0 then PatchIntegers E c (stp_target (hd g)) paths vals else ok ()) s = (r1, s1)"
    by fastforce
  have "r1 = Inr ()"
    using assms reads r1 by (cases r1) (auto simp: Let_def dest: apply_failed_error)
  define up where "up = (mlen vals > 0 \<and> raised)"
  define s2 where "s2 = (if up
     then snd (run_state (emit (CounterInc metric_ScaleActions [pn, ''up'', metricBackend (hd g), ''ok''])) s1) else s1)"
  obtain r3 s3 where r3: "run_state (if mlen stamp > 0 then PatchAnnotations E c (stp_target (hd g)) stamp else ok ()) s2 = (r3, s3)"
    by fastforce
  have rest: "(case r3 of
        Inl e \<Rightarrow> run_state (apply_failed E c (if mlen vals > 0 then applied @ [g] else applied) (scaled \<or> up)
            (wrapBackendErr (stp_target (hd g)) e)) s3
      | Inr _ \<Rightarrow> run_state (apply_loop E c pn gs
            (if mlen stamp > 0 \<or> mlen vals > 0 then applied @ [g] else applied) (scaled \<or> up)) s3) = ((sc, None), s')"
    using assms reads r1 \<open>r1 = Inr ()\<close> r3
    by (cases "mlen stamp > 0"; cases r3) (auto simp: Let_def s2_def up_def split: if_splits)
  then have "r3 = Inr ()" by (cases r3) (auto dest: apply_failed_error)
  moreover have "cluster s2 = cluster s1" by (simp add: s2_def)
  ultimately show ?thesis using that reads r1 \<open>r1 = Inr ()\<close> r3 rest by simp
qed

lemma apply_loop_raises:
  assumes "run_state (apply_loop E c pn gs applied scaled) s = ((sc, None), s')"
    and "\<forall>g \<in> set gs. g \<noteq> [] \<and> (\<forall>x \<in> set (tl g). same_step_object (hd g) x)"
    and "\<forall>x \<in> set (concat gs). stp_desired x = d" and "in_int32 d" and "stp_target ` set (concat gs) \<subseteq> T"
  shows "field_updates E c T (raised_to d (concat gs)) (cluster s) (cluster s')"
  using assms
proof (induction gs arbitrary: applied scaled s)
  case Nil
  then show ?case using fs.updates_refl by (simp add: raised_to_def)
next
  case (Cons g gs)
  from apply_loop_Cons [OF Cons.prems(1)] obtain paths vals stamp raised s1 s2 s3 applied' scaled'
    where reads: "group_reads E c (cluster s) g [] [] [] False = Inr (paths, vals, stamp, raised)"
      and ints: "run_state (if mlen vals > 0 then PatchIntegers E c (stp_target (hd g)) paths vals else ok ()) s = (Inr (), s1)"
      and emit: "cluster s2 = cluster s1"
      and anns: "run_state (if mlen stamp > 0 then PatchAnnotations E c (stp_target (hd g)) stamp else ok ()) s2 = (Inr (), s3)"
      and rest: "run_state (apply_loop E c pn gs applied' scaled') s3 = ((sc, None), s')" .
  have g: "g \<noteq> []" "\<forall>x \<in> set (tl g). same_step_object (hd g) x" "stp_target ` set g \<subseteq> T" using Cons.prems(2,5) by auto
  then have "stp_target (hd g) \<in> T" by auto
  then have base: "\<exists>u \<in> T. same_object (stp_target (hd g)) u" using same_object_refl by blast
  have 1: "field_updates E c T (raised_to d g) (cluster s) (cluster s1)"
    using group_patch_raises [OF reads _ Cons.prems(4) g ints] Cons.prems(3) by simp
  have 2: "field_updates E c T (\<lambda>_ i. i) (cluster s1) (cluster s3)"
    using anns PatchAnnotations_updates [OF _ base, of E c _ s2 s3] fs.updates_refl
    unfolding emit [symmetric] by (auto split: if_splits)
  have 3: "field_updates E c T (raised_to d (concat gs)) (cluster s3) (cluster s')"
    using Cons.IH [OF rest] Cons.prems(2-5) by auto
  from fs.updates_trans [OF fs.updates_trans [OF 1 2] 3] show ?case
    by (simp add: raised_to_append)
qed


section \<open>Restoring\<close>

lemma IsNotFound_backend [simp]: "IsNotFound (wrapBackendErr t e) = IsNotFound e"
  by (simp add: wrapBackendErr_def IsNotFound_def)

lemma restore_reads_spec:
  assumes "restore_reads E c w g ps vs ks = Inr (paths, values, keys)"
    and "\<forall>a \<in> set g. \<not> sa_skipDownscaling a \<longrightarrow> sa_baseline a = b (sa_fieldPath a)"
  shows "paths = ps @ map sa_fieldPath (filter (\<lambda>a. \<not> sa_skipDownscaling a) g) \<and>
    (\<forall>p. map_of values p =
       (if \<exists>a \<in> set g. \<not> sa_skipDownscaling a \<and> sa_fieldPath a = p \<and> (\<exists>i > b p. Current E c w (actionTarget a) = Inr i)
        then Some (b p) else map_of vs p))"
  using assms
proof (induction g arbitrary: ps vs ks)
  case (Cons a g)
  show ?case
  proof (cases "sa_skipDownscaling a")
    case True
    with Cons.prems(1) have "restore_reads E c w g ps vs (ks @ sa_stampKeys a) = Inr (paths, values, keys)"
      by (simp add: Let_def)
    from Cons.IH [OF this] Cons.prems(2) True show ?thesis by simp
  next
    case False
    with Cons.prems obtain i where i: "Current E c w (actionTarget a) = Inr i" by (auto simp: Let_def split: sum.splits)
    have base: "sa_baseline a = b (sa_fieldPath a)" using Cons.prems(2) False by simp
    let ?vs = "if i > b (sa_fieldPath a) then AList.update (sa_fieldPath a) (b (sa_fieldPath a)) vs else vs"
    have "restore_reads E c w g (ps @ [sa_fieldPath a]) ?vs (ks @ sa_stampKeys a) = Inr (paths, values, keys)"
      using Cons.prems(1) False i base by (simp add: Let_def cong: if_cong)
    then have ih: "paths = (ps @ [sa_fieldPath a]) @ map sa_fieldPath (filter (\<lambda>a. \<not> sa_skipDownscaling a) g)"
      "map_of values p = (if \<exists>a \<in> set g. \<not> sa_skipDownscaling a \<and> sa_fieldPath a = p \<and>
         (\<exists>i > b p. Current E c w (actionTarget a) = Inr i) then Some (b p) else map_of ?vs p)" for p
      using Cons.IH [of "ps @ [sa_fieldPath a]" ?vs "ks @ sa_stampKeys a"] Cons.prems(2) by simp_all
    from False i show ?thesis by (auto simp: ih update_conv)
  qed
qed simp

text \<open>The ways a group restore can end.\<close>

lemma restore_group_cases:
  assumes "run_state (restore_group E c g) s = (r, s')" and "g \<noteq> []"
  obtains (reads) e where "restore_reads E c (cluster s) g [] [] [] = Inl e" and "r = Inl e" and "s' = s"
  | (ints) paths vals keys e where "restore_reads E c (cluster s) g [] [] [] = Inr (paths, vals, keys)" and "vals \<noteq> []"
      and "run_state (PatchIntegers E c (actionTarget (hd g)) paths vals) s = (Inl e, s')"
      and "r = Inl (wrapBackendErr (actionTarget (hd g)) e)"
  | (anns) paths vals keys s1 ks e where "restore_reads E c (cluster s) g [] [] [] = Inr (paths, vals, keys)"
      and "run_state (if mlen vals > 0 then PatchIntegers E c (actionTarget (hd g)) paths vals else ok ()) s = (Inr (), s1)"
      and "run_state (PatchAnnotations E c (actionTarget (hd g)) (StampDeletes ks)) s1 = (Inl e, s')"
      and "r = Inl (wrapBackendErr (actionTarget (hd g)) e)"
  | (ok) paths vals keys s1 ks where "restore_reads E c (cluster s) g [] [] [] = Inr (paths, vals, keys)"
      and "run_state (if mlen vals > 0 then PatchIntegers E c (actionTarget (hd g)) paths vals else ok ()) s = (Inr (), s1)"
      and "run_state (PatchAnnotations E c (actionTarget (hd g)) (StampDeletes ks)) s1 = (Inr (), s')" and "r = Inr ()"
proof -
  have "\<exists>ks. run_state (restore_group E c g) s =
     (case restore_reads E c (cluster s) g [] [] [] of
        Inl e \<Rightarrow> (Inl e, s)
      | Inr (paths, vals, keys) \<Rightarrow>
          (case run_state (if mlen vals > 0 then PatchIntegers E c (actionTarget (hd g)) paths vals else ok ()) s of
             (Inl e, s1) \<Rightarrow> (Inl (wrapBackendErr (actionTarget (hd g)) e), s1)
           | (Inr _, s1) \<Rightarrow>
               (case run_state (PatchAnnotations E c (actionTarget (hd g)) (StampDeletes ks)) s1 of
                  (Inl e, s2) \<Rightarrow> (Inl (wrapBackendErr (actionTarget (hd g)) e), s2)
                | (Inr _, s2) \<Rightarrow> (Inr (), s2))))" (is "\<exists>ks. ?run = ?cases ks")
  proof (cases "length g = 1")
    case True
    then obtain a where g: "g = [a]" by (cases g) auto
    have mlen: "mlen [] = 0" "mlen [x] = Suc 0" for x :: "string \<times> int" by (simp_all add: mlen_def mkeys_def)
    have "?run = ?cases (sa_stampKeys a)"
      by (cases "Current E c (cluster s) (actionTarget a)")
        (auto simp: g restore_group_def restoreOneAction_def Let_def ScaleDown_def fb_patch_PatchIntegers mlen
          split: prod.splits sum.splits)
    then show ?thesis by blast
  next
    case False
    obtain ks where ks: "ks = (case restore_reads E c (cluster s) g [] [] [] of Inr (_, _, keys) \<Rightarrow> uniqueStrings keys | _ \<Rightarrow> [])"
      by blast
    from False have "?run = ?cases ks"
      unfolding ks
      by (cases "restore_reads E c (cluster s) g [] [] []")
        (auto simp: restore_group_def restoreGroupedActions_def Let_def run_and_then split: prod.splits sum.splits)
    then show ?thesis by blast
  qed
  then obtain ks where run: "(r, s') = ?cases ks" using assms(1) by auto
  show ?thesis
  proof (cases "restore_reads E c (cluster s) g [] [] []")
    case (Inl e)
    with run reads show ?thesis by simp
  next
    case (Inr x)
    obtain paths vals keys where x: "x = (paths, vals, keys)" by (cases x)
    obtain r1 s1 where r1: "run_state (if mlen vals > 0 then PatchIntegers E c (actionTarget (hd g)) paths vals else ok ()) s = (r1, s1)"
      by fastforce
    show ?thesis
    proof (cases r1)
      case (Inl e)
      with r1 have "vals \<noteq> []" by (auto simp: mlen_pos split: if_splits)
      with ints [OF Inr [unfolded x]] r1 Inl Inr x run show ?thesis by (simp add: mlen_pos)
    next
      case r1_ok: (Inr u)
      obtain r2 s2 where r2: "run_state (PatchAnnotations E c (actionTarget (hd g)) (StampDeletes ks)) s1 = (r2, s2)"
        by fastforce
      from anns [OF Inr [unfolded x]] ok [OF Inr [unfolded x]] r1 r1_ok r2 Inr x run show ?thesis
        by (cases r2) simp_all
    qed
  qed
qed

lemma lowered_member:
  assumes "consistent acts" and "a \<in> set acts" and "same_field (actionTarget a) t"
  shows "lowered acts t i = (if sa_skipDownscaling a then i else min i (sa_baseline a))"
proof -
  obtain b where b: "find (\<lambda>a. same_field (actionTarget a) t) acts = Some b"
    using assms(2,3) by (cases "find (\<lambda>a. same_field (actionTarget a) t) acts") (auto simp: find_None_iff)
  then have "b \<in> set acts" "same_field (actionTarget b) t" by (auto simp: find_Some_iff)
  with assms have "sa_baseline b = sa_baseline a \<and> sa_skipDownscaling b = sa_skipDownscaling a"
    unfolding consistent_def using same_field_sym same_field_trans by blast
  with b show ?thesis by (simp add: lowered_def)
qed

lemma lowered_other: "\<forall>a \<in> set acts. \<not> same_field (actionTarget a) t \<Longrightarrow> lowered acts t i = i"
  by (auto simp: lowered_def find_Some_iff split: option.split)

lemma consistent_append: "consistent (xs @ ys) \<Longrightarrow> consistent xs \<and> consistent ys"
  by (auto simp: consistent_def)

lemma lowered_append:
  assumes "consistent (xs @ ys)"
  shows "lowered ys t (lowered xs t i) = lowered (xs @ ys) t i"
proof (cases "\<exists>a \<in> set xs. same_field (actionTarget a) t")
  case True
  then obtain a where a: "a \<in> set xs" "same_field (actionTarget a) t" by blast
  have xy: "lowered xs t i = lowered (xs @ ys) t i"
    using lowered_member [OF _ a, of i] lowered_member [OF assms, of a t i] a consistent_append [OF assms] by simp
  show ?thesis
  proof (cases "\<exists>b \<in> set ys. same_field (actionTarget b) t")
    case True
    then obtain b where b: "b \<in> set ys" "same_field (actionTarget b) t" by blast
    with assms have "lowered (xs @ ys) t i = (if sa_skipDownscaling b then i else min i (sa_baseline b))"
      by (intro lowered_member) auto
    with xy lowered_member [OF _ b] consistent_append [OF assms] show ?thesis by simp
  next
    case False
    with xy lowered_other [of ys t] show ?thesis by simp
  qed
next
  case False
  then have "lowered xs t i = i" by (simp add: lowered_other)
  moreover have "find (\<lambda>a. same_field (actionTarget a) t) xs = None" using False by (simp add: find_None_iff)
  then have "find (\<lambda>a. same_field (actionTarget a) t) (xs @ ys) = find (\<lambda>a. same_field (actionTarget a) t) ys"
    by (induction xs) (auto split: if_splits)
  ultimately show ?thesis by (simp add: lowered_def)
qed

text \<open>A group on one object whose fields are among the tracked ones.\<close>

definition tracked_group :: "Target set \<Rightarrow> ScaleAction list \<Rightarrow> bool" where
  "tracked_group T g \<longleftrightarrow>
     g \<noteq> [] \<and> (\<forall>a \<in> set (tl g). same_action_object (hd g) a) \<and>
     (\<forall>a \<in> set g. in_int32 (sa_baseline a) \<and> (\<exists>t \<in> T. same_field (actionTarget a) t))"

lemma tracked_group_object:
  "tracked_group T g \<Longrightarrow> a \<in> set g \<Longrightarrow> same_object (actionTarget (hd g)) (actionTarget a)"
  by (cases g) (auto simp: tracked_group_def same_action_object_def sameScaleObject_same_object)

lemma tracked_group_base: "tracked_group T g \<Longrightarrow> \<exists>t \<in> T. same_object (actionTarget (hd g)) t"
  by (cases g) (auto simp: tracked_group_def same_field_def)

lemma group_patch_lowers:
  assumes reads: "restore_reads E c (cluster s) g [] [] [] = Inr (paths, values, keys)"
    and con: "consistent g" and tg: "tracked_group T g"
    and run: "run_state (if mlen values > 0 then PatchIntegers E c (actionTarget (hd g)) paths values else ok ()) s = (Inr (), s')"
  shows "field_updates E c T (lowered g) (cluster s) (cluster s')"
proof -
  let ?base = "actionTarget (hd g)"
  define b where "b p = (case find (\<lambda>a. \<not> sa_skipDownscaling a \<and> sa_fieldPath a = p) g of Some a \<Rightarrow> sa_baseline a | None \<Rightarrow> 0)" for p
  have same: "same_field (actionTarget x) (actionTarget y)" if "x \<in> set g" "y \<in> set g" "sa_fieldPath x = sa_fieldPath y" for x y
    using same_object_trans [OF same_object_sym [OF tracked_group_object [OF tg that(1)]] tracked_group_object [OF tg that(2)]] that(3)
    by (simp add: same_field_def)
  have b: "sa_baseline a = b (sa_fieldPath a)" if a: "a \<in> set g" "\<not> sa_skipDownscaling a" for a
  proof -
    obtain a0 where a0: "find (\<lambda>x. \<not> sa_skipDownscaling x \<and> sa_fieldPath x = sa_fieldPath a) g = Some a0"
      using a find_None_iff [of "\<lambda>x. \<not> sa_skipDownscaling x \<and> sa_fieldPath x = sa_fieldPath a" g] by fastforce
    then have "a0 \<in> set g" "sa_fieldPath a0 = sa_fieldPath a" by (auto simp: find_Some_iff)
    then have "sa_baseline a0 = sa_baseline a" using con same a(1) unfolding consistent_def by metis
    with a0 show ?thesis by (simp add: b_def)
  qed
  have paths: "paths = map sa_fieldPath (filter (\<lambda>a. \<not> sa_skipDownscaling a) g)"
    and vals: "map_of values p = (if \<exists>a \<in> set g. \<not> sa_skipDownscaling a \<and> sa_fieldPath a = p \<and>
        (\<exists>i > b p. Current E c (cluster s) (actionTarget a) = Inr i) then Some (b p) else None)" for p
    using restore_reads_spec [OF reads, of b] b by auto
  have up: "field_updates E c T (\<lambda>t i. case patched ?base paths values t of None \<Rightarrow> i | Some d \<Rightarrow> d) (cluster s) (cluster s')"
  proof (cases "mlen values > 0")
    case True
    have "set paths \<subseteq> tgt_fieldPath ` {t \<in> T. same_object ?base t}"
    proof
      fix p assume "p \<in> set paths"
      then obtain a where a: "a \<in> set g" "p = sa_fieldPath a" by (auto simp: paths)
      with tg obtain t where t: "t \<in> T" "same_field (actionTarget a) t" by (auto simp: tracked_group_def)
      then have "same_object ?base t" using tracked_group_object [OF tg a(1)] same_object_trans by (auto simp: same_field_def)
      moreover have "p = tgt_fieldPath t" using t(2) a(2) by (simp add: same_field_def)
      ultimately show "p \<in> tgt_fieldPath ` {t \<in> T. same_object ?base t}" using t(1) by blast
    qed
    moreover have "\<forall>p e. map_of values p = Some e \<longrightarrow> in_int32 e"
      using tg b by (auto simp: vals tracked_group_def split: if_splits)
    ultimately show ?thesis
      using PatchIntegers_updates [of E c ?base paths "values" s s' T] run True tracked_group_base [OF tg] by simp
  next
    case False
    then have "values = []" by (simp add: mlen_pos)
    then have "patched ?base paths values = (\<lambda>_. None)" by (auto simp: patched_def)
    with run False fs.updates_refl show ?thesis by simp
  qed
  show ?thesis
  proof (rule fs.updates_cong [OF up])
    fix t i
    assume val: "field_value E c (cluster s) t = Some i"
    show "(case patched ?base paths values t of None \<Rightarrow> i | Some d \<Rightarrow> d) = lowered g t i"
    proof (cases "\<exists>a \<in> set g. same_field (actionTarget a) t")
      case True
      then obtain a where a: "a \<in> set g" "same_field (actionTarget a) t" by blast
      have path: "sa_fieldPath a = tgt_fieldPath t" using a(2) by (simp add: same_field_def)
      have base: "same_object ?base t"
        using tracked_group_object [OF tg a(1)] a(2) same_object_trans by (auto simp: same_field_def)
      have agree: "sa_skipDownscaling x = sa_skipDownscaling a" "Current E c (cluster s) (actionTarget x) = Inr i"
        if "x \<in> set g" "sa_fieldPath x = tgt_fieldPath t" for x
        using same [OF that(1) a(1)] that path con a val Current_same_field same_field_trans
        unfolding consistent_def by metis+
      show ?thesis
      proof (cases "sa_skipDownscaling a")
        case True
        then have "tgt_fieldPath t \<notin> set paths" using agree(1) by (auto simp: paths)
        then show ?thesis using True lowered_member [OF con a] by (simp add: patched_def)
      next
        case False
        then have "tgt_fieldPath t \<in> set paths" using a path by (auto simp: paths image_iff)
        moreover have "map_of values (tgt_fieldPath t) = (if i > b (tgt_fieldPath t) then Some (b (tgt_fieldPath t)) else None)"
          using agree a False path unfolding vals by auto
        ultimately show ?thesis
          using False base lowered_member [OF con a] b [OF a(1) False] path by (simp add: patched_def)
      qed
    next
      case False
      then have "\<not> (same_object ?base t \<and> tgt_fieldPath t \<in> set paths)"
        unfolding paths same_field_def
        using same_object_trans [OF same_object_sym [OF tracked_group_object [OF tg]]] by auto
      with False show ?thesis by (auto simp: patched_def lowered_other)
    qed
  qed
qed

text \<open>Not-found answers: nothing was written and the object is not there.\<close>

lemma Current_not_found:
  assumes "not_found_documented E c" and "Current E c w t = Inl e" and "IsNotFound e"
  shows "isl (fb_get E c w t)"
  using assms
  by (auto simp: Current_def not_found_documented_def defaultWhenPathUnset_def int64ToInt32_def IsNotFound_def
      sum_bind_eq_Inl_iff split: option.splits if_splits)

lemma raw_patch_not_found:
  assumes "not_found_documented E c" and "run_state (raw_patch E c verb gvk t patch) s = (Inl e, s')" and "IsNotFound e"
  shows "isl (Get_Unstructured c (cluster s) gvk (tgt_namespace t) (tgt_name t))"
proof -
  obtain r w where r: "Patch_Unstructured c gvk (tgt_namespace t) (tgt_name t) (JObject patch) (cluster s) = (r, w)"
    by fastforce
  with assms(2,3) obtain e' where "r = Inl e'" "IsNotFound e'"
    by (auto simp: raw_patch_def IsNotFound_def split: sum.splits)
  with assms(1) r show ?thesis unfolding not_found_documented_def by blast
qed

lemma PatchIntegers_loop_total: "\<exists>x. PatchIntegers_loop E obj values paths need patch = Inr x"
proof (induction paths arbitrary: need patch)
  case (Cons p paths)
  show ?case
  proof (cases "map_of values p")
    case None
    with Cons show ?thesis by simp
  next
    case (Some d)
    obtain q where "setNested patch (JInt d) (splitFieldPath p) = Inr q"
      using setNested_total [of "splitFieldPath p" patch "JInt d"] by auto
    with Some Cons show ?thesis by simp
  qed
qed simp

lemma PatchIntegers_not_found:
  assumes "not_found_documented E c" and "run_state (PatchIntegers E c base paths values) s = (Inl e, s')" and "IsNotFound e"
  shows "isl (fb_get E c (cluster s) base)"
proof (cases "fb_get E c (cluster s) base")
  case (Inr x)
  obtain gvk obj path where x: "x = (gvk, obj, path)" by (cases x)
  obtain need patch where loop: "PatchIntegers_loop E obj values paths False [] = Inr (need, patch)"
    using PatchIntegers_loop_total [of E obj "values" paths False "[]"] by auto
  have "run_state (raw_patch E c ''patch'' gvk base patch) s = (Inl e, s')"
    using assms(2) Inr x loop by (auto simp: PatchIntegers_def run_and_then split: if_splits)
  from raw_patch_not_found [OF assms(1) this assms(3)] Inr x show ?thesis by (auto simp: fb_get_iff)
qed simp

lemma PatchAnnotations_not_found:
  assumes "not_found_documented E c" and "run_state (PatchAnnotations E c t anns) s = (Inl e, s')" and "IsNotFound e"
  shows "isl (fb_get E c (cluster s) t) \<and> s' = s"
proof -
  have "anns \<noteq> []" using assms(2) by (auto simp: PatchAnnotations_def)
  show ?thesis
  proof (cases "fb_get E c (cluster s) t")
    case (Inl e')
    have "s' = s"
    proof (cases "parseAPIVersionKind E (tgt_apiVersion t) (tgt_kind t)")
      case (Inl e)
      with assms(2) \<open>anns \<noteq> []\<close> show ?thesis by (simp add: PatchAnnotations_def)
    next
      case (Inr gvk)
      with Inl obtain e0 where "Get_Unstructured c (cluster s) gvk (tgt_namespace t) (tgt_name t) = Inl e0"
        by (cases "Get_Unstructured c (cluster s) gvk (tgt_namespace t) (tgt_name t)") (auto simp: fb_get_def)
      with Inr assms(2) \<open>anns \<noteq> []\<close> show ?thesis by (simp add: PatchAnnotations_def)
    qed
    with Inl show ?thesis by simp
  next
    case (Inr x)
    obtain gvk obj path where x: "x = (gvk, obj, path)" by (cases x)
    have "run_state (raw_patch E c ''stamp'' gvk t
        [(''metadata'', JObject [(''annotations'', JObject (annotationPatch E obj anns))])]) s = (Inl e, s')"
      using assms(2) Inr x \<open>anns \<noteq> []\<close> by (auto simp: PatchAnnotations_def fb_get_iff Let_def split: if_splits)
    from raw_patch_not_found [OF assms(1) this assms(3)] Inr x show ?thesis by (auto simp: fb_get_iff)
  qed
qed

lemma object_gone:
  assumes "isl (fb_get E c w t)" and "same_object t u"
  shows "field_value E c w u = None"
proof (cases "fb_get E c w u")
  case (Inr x)
  obtain gvk obj path where "x = (gvk, obj, path)" by (cases x)
  with Inr fb_get_same_object [OF same_object_sym [OF assms(2)]] assms(1) show ?thesis by fastforce
qed (simp add: field_value_def)

lemma PatchIntegers_stays:
  assumes "patch_documented c" and "run_state (PatchIntegers E c base paths values) s = (Inr (), s')"
    and "\<not> isl (fb_get E c (cluster s) base)"
  shows "\<not> isl (fb_get E c (cluster s') base)"
proof -
  obtain gvk obj path where get: "fb_get E c (cluster s) base = Inr (gvk, obj, path)"
    using assms(3) by (cases "fb_get E c (cluster s) base") auto
  obtain need patch where loop: "PatchIntegers_loop E obj values paths False [] = Inr (need, patch)"
    using PatchIntegers_loop_total [of E obj "values" paths False "[]"] by auto
  consider "s' = s" | "run_state (raw_patch E c ''patch'' gvk base patch) s = (Inr (), s')"
    using assms(2) get loop by (auto simp: PatchIntegers_def run_and_then split: if_splits)
  then show ?thesis
  proof cases
    case 2
    from raw_patch_ok [OF this] get assms(1) obtain obj' where
      "Get_Unstructured c (cluster s') gvk (tgt_namespace base) (tgt_name base) = Inr obj'"
      unfolding patch_documented_def fb_get_iff by blast
    with get have "fb_get E c (cluster s') base = Inr (gvk, obj', path)" by (simp add: fb_get_iff)
    then show ?thesis by simp
  qed (use assms(3) in simp)
qed

lemma restore_reads_error:
  "restore_reads E c w g ps vs ks = Inl e \<Longrightarrow> \<exists>a \<in> set g. \<exists>e'. Current E c w (actionTarget a) = Inl e' \<and> e = wrapBackendErr (actionTarget a) e'"
  by (induction g arbitrary: ps vs ks) (auto simp: Let_def split: if_splits sum.splits)

lemma restore_reads_present:
  assumes "restore_reads E c w g [] [] [] = Inr (paths, vals, keys)" and "vals \<noteq> []"
  shows "\<exists>a \<in> set g. \<not> isl (fb_get E c w (actionTarget a))"
proof -
  have "\<exists>a \<in> set g. \<exists>i. Current E c w (actionTarget a) = Inr i" if "restore_reads E c w g ps [] ks = Inr (paths, vals, keys)" for ps ks
    using that assms(2) by (induction g arbitrary: ps ks) (auto simp: Let_def split: if_splits sum.splits)
  then obtain a i where "a \<in> set g" "Current E c w (actionTarget a) = Inr i" using assms(1) by blast
  then show ?thesis by (auto simp: Current_def sum_bind_eq_Inr_iff intro!: bexI [of _ a])
qed

lemma lowered_gone:
  assumes "tracked_group T g" and "a \<in> set g" and "isl (fb_get E c w (actionTarget a))"
  shows "field_updates E c T (lowered g) w w"
proof (rule fs.updates_cong [OF fs.updates_refl])
  fix t i
  assume val: "field_value E c w t = Some i"
  have "\<not> same_field (actionTarget b) t" if b: "b \<in> set g" for b
  proof
    assume "same_field (actionTarget b) t"
    then have "same_object (actionTarget a) t"
      using tracked_group_object [OF assms(1,2)] tracked_group_object [OF assms(1) b]
      by (simp add: same_field_def same_object_def)
    with object_gone [OF assms(3)] val show False by simp
  qed
  then show "i = lowered g t i" by (simp add: lowered_other)
qed

lemma restore_group_lowers:
  assumes doc: "patch_documented c" "not_found_documented E c"
    and con: "consistent g" and tg: "tracked_group T g"
    and run: "run_state (restore_group E c g) s = (r, s')" and r: "\<forall>e. r = Inl e \<longrightarrow> IsNotFound e"
  shows "field_updates E c T (lowered g) (cluster s) (cluster s')"
proof -
  have ne: "g \<noteq> []" and hd: "hd g \<in> set g" using tg by (auto simp: tracked_group_def)
  have gone: "isl (fb_get E c w (actionTarget a)) \<Longrightarrow> isl (fb_get E c w (actionTarget (hd g)))" if "a \<in> set g" for a w
    using fb_get_same_object [OF tracked_group_object [OF tg that], of E c w]
    by (cases "fb_get E c w (actionTarget (hd g))") auto
  from run ne show ?thesis
  proof (cases rule: restore_group_cases)
    case (reads e)
    then obtain a e' where a: "a \<in> set g" "Current E c (cluster s) (actionTarget a) = Inl e'" "IsNotFound e'"
      using restore_reads_error [OF reads(1)] r by auto
    from lowered_gone [OF tg a(1) Current_not_found [OF doc(2) a(2,3)]] reads(3) show ?thesis by simp
  next
    case (ints paths vals keys e)
    then have "isl (fb_get E c (cluster s) (actionTarget (hd g)))"
      using PatchIntegers_not_found [OF doc(2)] r by auto
    moreover obtain a where "a \<in> set g" "\<not> isl (fb_get E c (cluster s) (actionTarget a))"
      using restore_reads_present [OF ints(1,2)] by blast
    ultimately show ?thesis
      using fb_get_same_object [OF same_object_sym [OF tracked_group_object [OF tg]]]
      by (cases "fb_get E c (cluster s) (actionTarget a)") fastforce+
  next
    case (anns paths vals keys s1 ks e)
    then have gone1: "isl (fb_get E c (cluster s1) (actionTarget (hd g)))" and s': "s' = s1"
      using PatchAnnotations_not_found [OF doc(2) anns(3)] r by auto
    show ?thesis
    proof (cases "vals = []")
      case True
      with anns(2) have "s1 = s" by (simp add: mlen_pos)
      with s' gone1 lowered_gone [OF tg hd] show ?thesis by simp
    next
      case False
      with anns(2) have "run_state (PatchIntegers E c (actionTarget (hd g)) paths vals) s = (Inr (), s1)"
        by (simp add: mlen_pos)
      from PatchIntegers_stays [OF doc(1) this] gone1
      have "isl (fb_get E c (cluster s) (actionTarget (hd g)))" by blast
      moreover obtain a where "a \<in> set g" "\<not> isl (fb_get E c (cluster s) (actionTarget a))"
        using restore_reads_present [OF anns(1) False] by blast
      ultimately show ?thesis
        using fb_get_same_object [OF same_object_sym [OF tracked_group_object [OF tg]]]
        by (cases "fb_get E c (cluster s) (actionTarget a)") fastforce+
    qed
  next
    case (ok paths vals keys s1 ks)
    have "field_updates E c T (lowered g) (cluster s) (cluster s1)"
      by (rule group_patch_lowers [OF ok(1) con tg ok(2)])
    moreover have "field_updates E c T (\<lambda>_ i. i) (cluster s1) (cluster s')"
      using PatchAnnotations_updates [OF ok(3) tracked_group_base [OF tg]] .
    ultimately show ?thesis by (rule fs.updates_trans)
  qed
qed

lemma restore_loop_lowers:
  assumes doc: "patch_documented c" "not_found_documented E c"
    and "consistent (concat gs)" and "\<forall>g \<in> set gs. tracked_group T g"
    and "run_state (restore_loop E c gs) s = (Inr (), s')"
  shows "field_updates E c T (lowered (concat gs)) (cluster s) (cluster s')"
  using assms(3-5)
proof (induction gs arbitrary: s)
  case Nil
  then show ?case using fs.updates_refl by (simp add: lowered_def)
next
  case (Cons g gs)
  obtain r s1 where r: "run_state (restore_group E c g) s = (r, s1)" by fastforce
  have nf: "\<forall>e. r = Inl e \<longrightarrow> IsNotFound e" and rest: "run_state (restore_loop E c gs) s1 = (Inr (), s')"
    using Cons.prems(3) r by (auto split: sum.splits if_splits)
  have con: "consistent g" "consistent (concat gs)" using consistent_append [of g "concat gs"] Cons.prems(1) by simp_all
  have "field_updates E c T (lowered g) (cluster s) (cluster s1)"
    using restore_group_lowers [OF doc con(1) _ r nf] Cons.prems(2) by simp
  moreover have "field_updates E c T (lowered (concat gs)) (cluster s1) (cluster s')"
    using Cons.IH [OF con(2) _ rest] Cons.prems(2) by simp
  ultimately have "field_updates E c T (\<lambda>t i. lowered (concat gs) t (lowered g t i)) (cluster s) (cluster s')"
    by (rule fs.updates_trans)
  then show ?case using lowered_append [of g "concat gs"] Cons.prems(1) by simp
qed

text \<open>The actions of a window, with the namespace that the restore fills in.\<close>

definition window_actions :: "EvictionGuardWindow \<Rightarrow> ScaleAction list" where
  "window_actions win = map (with_namespace (win_namespace win)) (ws_actions (win_spec win))"

lemma restoreActions_lowers:
  assumes "patch_documented c" and "not_found_documented E c" and "consistent (window_actions win)"
    and "\<forall>a \<in> set (window_actions win). in_int32 (sa_baseline a) \<and> (\<exists>t \<in> T. same_field (actionTarget a) t)"
    and "run_state (restoreActions E c win) s = (Inr (), s')"
  shows "field_updates E c T (lowered (window_actions win)) (cluster s) (cluster s')"
proof -
  let ?gs = "groups_by same_action_object (window_actions win)"
  have c: "concat ?gs = window_actions win" by (rule concat_groups_by)
  have run: "run_state (restore_loop E c ?gs) s = (Inr (), s')"
    using assms(5) by (simp add: restoreActions_def ScaleActions_def window_actions_def)
  have "tracked_group T g" if g: "g \<in> set ?gs" for g
  proof -
    have "set g \<subseteq> set (concat ?gs)" using g by auto
    then have "set g \<subseteq> set (window_actions win)" by (simp only: c)
    with groups_by_member [OF g] assms(4) show ?thesis by (auto simp: tracked_group_def)
  qed
  with restore_loop_lowers [OF assms(1,2) _ _ run, of T] assms(3) show ?thesis by (simp add: c)
qed

lemma plan_apply_raises:
  assumes "run_state (plan_apply E c p pn) s = ((sc, None), s')"
    and "\<forall>x \<in> set (plan_steps p). stp_desired x = d \<and> stp_target x \<in> T" and "in_int32 d"
  shows "field_updates E c T (raised_to d (plan_steps p)) (cluster s) (cluster s')"
  using apply_loop_raises [of E c pn "groups_by same_step_object (plan_steps p)" "[]" False s sc s' d T] assms
  by (auto simp: plan_apply_def concat_groups_by dest: groups_by_member)

end
