(* ===== verification/Scale_Theorems.thy ===== *)
theory Scale_Theorems
  imports Scale_Cycle Scale_Error
begin

text \<open>
  The properties of the planner: what \<open>apply\<close> and the restore do to the capacity fields,
  the scale-up and scale-back round trip, the stickiness of recorded baselines and the
  effect of a field that is left unset. The example is a deployment bound to the minimum
  and maximum of its autoscaler.
\<close>


section \<open>Lemmas on \<open>buildPlan\<close>\<close>

lemma buildPlan_loop_later:
  assumes "buildPlan_loop E c w pol a ex st (Suc i) rs plan = Inr p"
  shows "plan_desired p = plan_desired plan \<and> plan_primaryBaseline p = plan_primaryBaseline plan \<and>
    (\<exists>bs. list_all2 (\<lambda>r b. step_baseline E c w ex r = Inr b) rs bs \<and>
       plan_steps p = plan_steps plan @ map2 (\<lambda>r b. step_of st r b (plan_desired plan)) rs bs)"
  using assms
proof (induction rs arbitrary: i plan)
  case (Cons r rs)
  then obtain b where b: "step_baseline E c w ex r = Inr b" by (auto simp: sum_bind_eq_Inr_iff)
  let ?plan = "plan\<lparr>plan_steps := plan_steps plan @ [step_of st r b (plan_desired plan)]\<rparr>"
  have "buildPlan_loop E c w pol a ex st (Suc (Suc i)) rs ?plan = Inr p" using Cons.prems b by (simp add: Let_def)
  from Cons.IH [OF this] obtain bs where
    "list_all2 (\<lambda>r b. step_baseline E c w ex r = Inr b) rs bs"
    "plan_steps p = plan_steps plan @ step_of st r b (plan_desired plan) # map2 (\<lambda>r b. step_of st r b (plan_desired plan)) rs bs"
    "plan_desired p = plan_desired plan" "plan_primaryBaseline p = plan_primaryBaseline plan"
    by auto
  with b show ?case by (intro conjI exI [of _ "b # bs"]) simp_all
qed simp

text \<open>The plan in terms of the resolved steps and their baselines.\<close>

lemma buildPlan_steps:
  assumes "buildPlan E c w (Some pol) dep a ex sticky = Inr p" and "plan_steps p \<noteq> []"
  obtains bindings resolved bs where "mlen (spec_backends (pol_spec pol)) \<noteq> 0"
    and "BindingsForWorkload dep (Some pol) = Inr bindings"
    and "ResolveCatalog dep (Some pol) bindings = Inr resolved" and "resolved \<noteq> []"
    and "list_all2 (\<lambda>r b. step_baseline E c w ex r = Inr b) resolved bs"
    and "plan_primaryBaseline p = hd bs"
    and "plan_desired p = TargetReplicas (hd bs) a (SpareReplicasOrDefault pol) (MaxBufferOrDefault pol)"
    and "plan_steps p = map2 (\<lambda>r b. step_of (resolveStamp pol dep) r b (plan_desired p)) resolved bs"
proof -
  obtain bindings resolved where r: "mlen (spec_backends (pol_spec pol)) \<noteq> 0"
    "BindingsForWorkload dep (Some pol) = Inr bindings" "ResolveCatalog dep (Some pol) bindings = Inr resolved"
    and loop: "resolved \<noteq> []" "buildPlan_loop E c w pol a ex (resolveStamp pol dep) 0 resolved empty_plan = Inr p"
    using assms by (auto simp: buildPlan_def sum_bind_eq_Inr_iff Let_def split: if_splits)
  obtain x xs where x: "resolved = x # xs" using loop(1) by (cases resolved) auto
  obtain b where b: "step_baseline E c w ex x = Inr b" using loop(2) x by (auto simp: sum_bind_eq_Inr_iff)
  let ?d = "TargetReplicas b a (SpareReplicasOrDefault pol) (MaxBufferOrDefault pol)"
  let ?plan = "\<lparr>plan_steps = [step_of (resolveStamp pol dep) x b ?d], plan_primaryBaseline = b, plan_desired = ?d\<rparr>"
  have "buildPlan_loop E c w pol a ex (resolveStamp pol dep) (Suc 0) xs ?plan = Inr p"
    using loop(2) x b by (simp add: Let_def empty_plan_def)
  from buildPlan_loop_later [OF this] obtain bs where
    "list_all2 (\<lambda>r b. step_baseline E c w ex r = Inr b) xs bs" "plan_desired p = ?d" "plan_primaryBaseline p = b"
    "plan_steps p = step_of (resolveStamp pol dep) x b ?d # map2 (\<lambda>r b. step_of (resolveStamp pol dep) r b ?d) xs bs"
    by auto
  with that [of bindings resolved "b # bs"] r x b show ?thesis by simp
qed

lemma buildPlan_policy: "buildPlan E c w pol dep a ex st = Inr p \<Longrightarrow> \<exists>q. pol = Some q"
  by (cases pol) (simp_all add: buildPlan_def)

text \<open>A plan that exists is rebuilt with other counts, recorded actions and cluster states, as long as baselines are known.\<close>

lemma buildPlan_again:
  assumes "mlen (spec_backends (pol_spec pol)) \<noteq> 0" and "BindingsForWorkload dep (Some pol) = Inr bindings"
    and "ResolveCatalog dep (Some pol) bindings = Inr resolved" and "resolved \<noteq> []"
    and "list_all2 (\<lambda>r b. step_baseline E c w ex r = Inr b) resolved bs"
  shows "\<exists>p. buildPlan E c w (Some pol) dep a ex sticky = Inr p \<and> plan_primaryBaseline p = hd bs \<and>
     plan_steps p = map2 (\<lambda>r b. step_of (resolveStamp pol dep) r b (plan_desired p)) resolved bs"
proof -
  have later: "\<exists>p. buildPlan_loop E c w pol a ex st (Suc i) rs plan = Inr p"
    if "list_all2 (\<lambda>r b. step_baseline E c w ex r = Inr b) rs bs" for st i rs plan bs
    using that by (induction rs bs arbitrary: i plan rule: list_all2_induct) (simp_all add: Let_def)
  obtain x xs b bs' where x: "resolved = x # xs" "bs = b # bs'" using assms(4,5) by (cases resolved; cases bs) auto
  with assms(5) later obtain p where p: "buildPlan E c w (Some pol) dep a ex sticky = Inr p"
    using assms(1-4) by (fastforce simp: buildPlan_def Let_def)
  have "buildPlan_loop E c w pol a ex (resolveStamp pol dep) 0 resolved empty_plan = Inr p"
    using p assms(1-4) by (simp add: buildPlan_def Let_def)
  then have "plan_steps p \<noteq> []"
    using x assms(5) by (auto simp: Let_def dest!: buildPlan_loop_later)
  from buildPlan_steps [OF p this] assms(2,3) obtain bs2 where
    "list_all2 (\<lambda>r b. step_baseline E c w ex r = Inr b) resolved bs2" "plan_primaryBaseline p = hd bs2"
    "plan_steps p = map2 (\<lambda>r b. step_of (resolveStamp pol dep) r b (plan_desired p)) resolved bs2"
    by (metis Inr_inject)
  moreover from this(1) assms(5) have "bs2 = bs"
    by (induction resolved arbitrary: bs bs2) (auto simp: list_all2_Cons1)
  ultimately show ?thesis using p by blast
qed

lemma step_of_simps [simp]:
  "stp_key (step_of st r b d) = rstep_key r" "stp_target (step_of st r b d) = rstep_target r"
  "stp_baseline (step_of st r b d) = b" "stp_desired (step_of st r b d) = d"
  "stp_skipDownscaling (step_of st r b d) = rstep_skipDownscaling r"
  by (simp_all add: step_of_def)

lemma TargetReplicas_int32: "in_int32 (TargetReplicas b a s m)"
  by (simp add: TargetReplicas_def Let_def)

lemma buildPlan_uniform:
  assumes "buildPlan E c w pol dep a ex sticky = Inr p" and "x \<in> set (plan_steps p)"
  shows "stp_desired x = plan_desired p \<and> in_int32 (plan_desired p)"
proof -
  obtain q where q: "pol = Some q" using buildPlan_policy [OF assms(1)] by blast
  have "plan_steps p \<noteq> []" using assms(2) by auto
  from assms(1) [unfolded q] this obtain resolved bs where
    "plan_steps p = map2 (\<lambda>r b. step_of (resolveStamp q dep) r b (plan_desired p)) resolved bs"
    "plan_desired p = TargetReplicas (hd bs) a (SpareReplicasOrDefault q) (MaxBufferOrDefault q)"
    by (rule buildPlan_steps)
  with assms(2) show ?thesis by (auto simp: TargetReplicas_int32)
qed

lemma buildPlan_fresh_baseline:
  assumes "buildPlan E c w pol dep a [] sticky = Inr p" and "x \<in> set (plan_steps p)"
  shows "Current E c w (stp_target x) = Inr (stp_baseline x)"
proof -
  obtain q where q: "pol = Some q" using buildPlan_policy [OF assms(1)] by blast
  have "plan_steps p \<noteq> []" using assms(2) by auto
  from assms(1) [unfolded q] this obtain resolved bs where
    steps: "plan_steps p = map2 (\<lambda>r b. step_of (resolveStamp q dep) r b (plan_desired p)) resolved bs"
    and base: "list_all2 (\<lambda>r b. step_baseline E c w [] r = Inr b) resolved bs"
    by (rule buildPlan_steps)
  from assms(2) steps obtain r b where "(r, b) \<in> set (zip resolved bs)" "x = step_of (resolveStamp q dep) r b (plan_desired p)"
    by auto
  moreover from this(1) base have "step_baseline E c w [] r = Inr b" by (auto simp: list_all2_iff)
  ultimately show ?thesis by (simp add: step_baseline_def findAction_def)
qed

lemma step_action_simps [simp]:
  "sa_baseline (step_action x) = stp_baseline x" "sa_skipDownscaling (step_action x) = stp_skipDownscaling x"
  "sa_namespace (step_action x) = tgt_namespace (stp_target x)" "sa_fieldPath (step_action x) = tgt_fieldPath (stp_target x)"
  "sa_key (step_action x) = stp_key x"
  by (simp_all add: step_action_def scaleAction_def)

lemma step_action_field: "same_field (actionTarget (step_action x)) t \<longleftrightarrow> same_field (stp_target x) t"
  by (simp add: step_action_def actionTarget_scaleAction same_field_def same_object_def)

lemma step_action_fields:
  "same_field (actionTarget (step_action x)) (actionTarget (step_action y)) \<longleftrightarrow> same_field (stp_target x) (stp_target y)"
  using step_action_field same_field_sym by metis

lemma raised_to_Nil: "raised_to d [] = (\<lambda>_ i. i)"
  by (intro ext) (simp add: raised_to_def)

text \<open>The record of a fresh plan on a window.\<close>

text \<open>Steps on one field agree on whether it is lowered again.\<close>

definition skips_agree :: "scaleStep list \<Rightarrow> bool" where
  "skips_agree steps \<longleftrightarrow>
     (\<forall>x \<in> set steps. \<forall>y \<in> set steps. same_field (stp_target x) (stp_target y) \<longrightarrow> stp_skipDownscaling x = stp_skipDownscaling y)"

lemma fresh_plan_actions:
  assumes "nested_documented E"
    and "buildPlan E c (cluster s) pol dep atRisk [] sticky = Inr p" and "stp_target ` set (plan_steps p) \<subseteq> T"
    and "\<forall>x \<in> set (plan_steps p). field_value E c (cluster s) (stp_target x) \<noteq> None \<and>
       tgt_namespace (stp_target x) \<noteq> []" and "skips_agree (plan_steps p)"
    and "ws_actions (win_spec win) = plan_actions p []"
  shows "window_actions win = map step_action (plan_steps p)"
    and "\<And>x. x \<in> set (plan_steps p) \<Longrightarrow> field_value E c (cluster s) (stp_target x) = Some (stp_baseline x)"
    and "consistent (window_actions win)"
    and "\<forall>a \<in> set (window_actions win). in_int32 (sa_baseline a) \<and> (\<exists>t \<in> T. same_field (actionTarget a) t)"
proof -
  let ?acts = "window_actions win"
  show acts: "?acts = map step_action (plan_steps p)"
    using assms(4) by (auto simp: window_actions_def assms(6) plan_actions_def mergeActions_def Let_def with_namespace_def)
  show base: "field_value E c (cluster s) (stp_target x) = Some (stp_baseline x)" if x: "x \<in> set (plan_steps p)" for x
  proof -
    obtain j where j: "field_value E c (cluster s) (stp_target x) = Some j" using assms(4) x by auto
    with Current_field_value buildPlan_fresh_baseline [OF assms(2) x] show ?thesis by (metis Inr_inject)
  qed
  show "consistent ?acts"
    unfolding consistent_def acts set_map
  proof (intro ballI impI, elim imageE)
    fix a b x y
    assume x: "x \<in> set (plan_steps p)" "a = step_action x" and y: "y \<in> set (plan_steps p)" "b = step_action y"
      and "same_field (actionTarget a) (actionTarget b)"
    then have "same_field (stp_target x) (stp_target y)" by (simp add: step_action_fields)
    then have "Some (stp_baseline x) = Some (stp_baseline y)"
      using base [OF x(1)] base [OF y(1)] field_value_same_field [of "stp_target x" "stp_target y" E c "cluster s"] by simp
    moreover have "stp_skipDownscaling x = stp_skipDownscaling y"
      using assms(5) x(1) y(1) \<open>same_field (stp_target x) (stp_target y)\<close> unfolding skips_agree_def by blast
    ultimately show "sa_baseline a = sa_baseline b \<and> sa_skipDownscaling a = sa_skipDownscaling b" using x y by simp
  qed
  show "\<forall>a \<in> set ?acts. in_int32 (sa_baseline a) \<and> (\<exists>t \<in> T. same_field (actionTarget a) t)"
  proof
    fix a assume "a \<in> set ?acts"
    then obtain x where x: "x \<in> set (plan_steps p)" "a = step_action x" by (auto simp: acts)
    from base [OF x(1)] have "in_int32 (stp_baseline x)" by (auto simp: field_value_iff [OF assms(1)])
    moreover have "same_field (actionTarget (step_action x)) (stp_target x)" by (simp add: step_action_field)
    ultimately show "in_int32 (sa_baseline a) \<and> (\<exists>t \<in> T. same_field (actionTarget a) t)" using x assms(3) by auto
  qed
qed

lemma fresh_plan_raises:
  assumes "buildPlan E c (cluster s) pol dep atRisk [] sticky = Inr p" and "stp_target ` set (plan_steps p) \<subseteq> T"
    and "run_state (plan_apply E c p policyName) u = ((scaled, None), u')"
  shows "field_updates E c T (raised_to (plan_desired p) (plan_steps p)) (cluster u) (cluster u')"
proof (cases "plan_steps p = []")
  case True
  with assms(3) fs.updates_refl show ?thesis by (simp add: plan_apply_def raised_to_Nil)
next
  case False
  then have "hd (plan_steps p) \<in> set (plan_steps p)" by simp
  then show ?thesis
    using plan_apply_raises [OF assms(3), of "plan_desired p" T] buildPlan_uniform [OF assms(1)] assms(2) by blast
qed

text \<open>
  Raising to the plan and lowering to its recorded baselines is the identity, except on the
  fields that are not to be lowered.
\<close>

lemma raise_lower_cancel:
  assumes "nested_documented E"
    and "buildPlan E c (cluster s) pol dep atRisk [] sticky = Inr p" and "stp_target ` set (plan_steps p) \<subseteq> T"
    and "\<forall>x \<in> set (plan_steps p). field_value E c (cluster s) (stp_target x) \<noteq> None \<and>
       tgt_namespace (stp_target x) \<noteq> []" and "skips_agree (plan_steps p)"
    and "ws_actions (win_spec win) = plan_actions p []"
    and up_down: "field_updates E c T (\<lambda>t i. lowered (window_actions win) t (raised_to (plan_desired p) (plan_steps p) t i)) (cluster s) w'"
    and "t \<in> store_targets E c T" and "field_value E c (cluster s) t = Some i"
  shows "field_value E c w' t =
     Some (if \<exists>x \<in> set (plan_steps p). same_field (stp_target x) t \<and> stp_skipDownscaling x then max i (plan_desired p) else i)"
proof -
  let ?d = "plan_desired p" and ?acts = "window_actions win"
  note rec = fresh_plan_actions [OF assms(1-6)]
  note acts = rec(1) and base = rec(2) and con = rec(3)
  from fs.updatesD [OF up_down assms(8,9)]
  have val: "field_value E c w' t = Some (lowered ?acts t (raised_to ?d (plan_steps p) t i))" .
  show ?thesis
  proof (cases "\<exists>x \<in> set (plan_steps p). same_field (stp_target x) t")
    case True
    then obtain x where x: "x \<in> set (plan_steps p)" "same_field (stp_target x) t" by blast
    then have "stp_baseline x = i" using base [OF x(1)] field_value_same_field [OF x(2), of E c "cluster s"] assms(9) by simp
    moreover have "lowered ?acts t j = (if stp_skipDownscaling x then j else min j (stp_baseline x))" for j
      using lowered_member [OF con, of "step_action x" t] x by (simp add: acts step_action_field)
    moreover have "(\<exists>y \<in> set (plan_steps p). same_field (stp_target y) t \<and> stp_skipDownscaling y) \<longleftrightarrow> stp_skipDownscaling x"
      using x assms(5) same_field_trans [OF _ same_field_sym] unfolding skips_agree_def by blast
    ultimately show ?thesis using val x by (auto simp: raised_to_def)
  next
    case False
    then have "lowered ?acts t j = j" for j by (simp add: lowered_other acts step_action_field)
    with False val show ?thesis by (auto simp: raised_to_def)
  qed
qed


section \<open>Example\<close>

definition hpa_deployment :: Deployment where
  "hpa_deployment = plain_deployment\<lparr>dep_annotations := [(ScaleBackendAnnotation, ''hpa'')]\<rparr>"

definition hpa_step :: "string \<Rightarrow> int \<Rightarrow> scaleStep" where
  "hpa_step path b =
     \<lparr>stp_key = ''hpa'', stp_target = hpa_target path, stp_baseline = b, stp_desired = 5, stp_stamp = [], stp_stampKeys = [],
      stp_skipDownscaling = False\<rparr>"

definition hpa_plan :: scalePlan where
  "hpa_plan = \<lparr>plan_steps = [hpa_step ''spec.minReplicas'' 3, hpa_step ''spec.maxReplicas'' 10],
     plan_primaryBaseline = 3, plan_desired = 5\<rparr>"

definition hpa_window :: EvictionGuardWindow where
  "hpa_window = (some_window)\<lparr>win_spec := (win_spec some_window)\<lparr>ws_actions := plan_actions hpa_plan []\<rparr>\<rparr>"

lemma hpa_current:
  "in_int32 lo \<Longrightarrow> Current std_env mem_client (hpa_store ws lo hi) (hpa_target ''spec.minReplicas'') = Inr lo"
  "in_int32 hi \<Longrightarrow> Current std_env mem_client (hpa_store ws lo hi) (hpa_target ''spec.maxReplicas'') = Inr hi"
  by (rule Current_field_value, erule hpa_values)+

lemma hpa_bindings: "BindingsForWorkload (Some hpa_deployment) (Some catalog_policy) =
    Inr [\<lparr>bind_key = ''hpa'', bind_namespace = ''shop'', bind_name = ''web''\<rparr>]"
  by (simp add: BindingsForWorkload_def hpa_deployment_def plain_deployment_def ParseBindings_def splitBinding_def
      TrimSpace_no_space is_space_def)

lemma hpa_resolved: "ResolveCatalog dep (Some catalog_policy) [\<lparr>bind_key = ''hpa'', bind_namespace = ''shop'', bind_name = ''web''\<rparr>] =
    Inr [\<lparr>rstep_key = ''hpa'', rstep_target = hpa_target ''spec.minReplicas'', rstep_annotations = [], rstep_skipDownscaling = False\<rparr>,
         \<lparr>rstep_key = ''hpa'', rstep_target = hpa_target ''spec.maxReplicas'', rstep_annotations = [], rstep_skipDownscaling = False\<rparr>]"
  by (simp add: ResolveCatalog_def catalog_policy_def mlen_def mkeys_def splitPatches_def binding_step_def hpa_target_def)

lemma hpa_no_stamp: "resolveStamp catalog_policy (Some hpa_deployment) =
    \<lparr>rs_enabled = False, rs_scaledTo = StampScaledToKey, rs_baseline = StampBaselineKey, rs_active = StampActiveKey,
     rs_windowUntil = StampWindowUntilKey\<rparr>"
  by (simp add: resolveStamp_def hpa_deployment_def catalog_policy_def plain_policy_def pickKey_def go_simps)

lemma hpa_buildPlan:
  "buildPlan std_env mem_client (hpa_store ws 3 10) (Some catalog_policy) (Some hpa_deployment) 2 [] 0 = Inr hpa_plan"
proof -
  have "mlen (spec_backends (pol_spec catalog_policy)) \<noteq> 0" by (simp add: catalog_policy_def mlen_def mkeys_def)
  moreover have "TargetReplicas 3 2 (SpareReplicasOrDefault catalog_policy) (MaxBufferOrDefault catalog_policy) = 5"
    by (simp add: TargetReplicas_def catalog_policy_def plain_policy_def go_simps int32_id in_int32_def)
  ultimately show ?thesis
    by (simp add: buildPlan_def hpa_bindings hpa_resolved hpa_no_stamp step_baseline_def findAction_def hpa_current in_int32_def
        Let_def step_of_def stamp_values_def stamp_keys_def uniqueStrings_def empty_plan_def hpa_plan_def hpa_step_def)
qed

lemma hpa_groups: "groups_by same_step_object (plan_steps hpa_plan) = [plan_steps hpa_plan]"
  by (simp add: hpa_plan_def same_step_object_def hpa_step_def sameScaleObject_same_object)

lemma hpa_apply:
  "\<exists>l. run_state (plan_apply std_env mem_client hpa_plan ''p'') \<lparr>cluster = hpa_store ws 3 10, log = l0\<rparr> = ((True, None), \<lparr>cluster = hpa_store ws 5 10, log = l\<rparr>)"
proof -
  have reads: "group_reads std_env mem_client (hpa_store ws 3 10) (plan_steps hpa_plan) [] [] [] False =
      Inr ([''spec.minReplicas'', ''spec.maxReplicas''], [(''spec.minReplicas'', 5)], [], True)"
    by (simp add: hpa_plan_def hpa_step_def hpa_current in_int32_def Let_def)
  have "mlen [(''spec.minReplicas'', 5 :: int)] = 1" "mlen ([] :: strmap) = 0" by (simp_all add: mlen_def mkeys_def)
  moreover have "stp_target (hd (plan_steps hpa_plan)) = hpa_target ''spec.minReplicas''" by (simp add: hpa_plan_def hpa_step_def)
  ultimately show ?thesis
    by (simp add: plan_apply_def hpa_groups reads hpa_patch in_int32_def Let_def)
qed

lemma hpa_window_actions: "window_actions hpa_window = map step_action (plan_steps hpa_plan)"
  by (simp add: window_actions_def hpa_window_def plan_actions_def mergeActions_def Let_def hpa_plan_def hpa_step_def
      with_namespace_def hpa_target_def)

lemma hpa_restore:
  "run_state (restoreActions std_env mem_client hpa_window) \<lparr>cluster = hpa_store ws 5 10, log = l\<rparr> = (Inr (), \<lparr>cluster = hpa_store ws 3 10, log = l\<rparr>)"
proof -
  let ?acts = "map step_action (plan_steps hpa_plan)"
  have tgt: "actionTarget (step_action (hpa_step p b)) = hpa_target p" for p b
    by (simp add: step_action_def actionTarget_scaleAction hpa_step_def hpa_target_def)
  have groups: "groups_by same_action_object ?acts = [?acts]"
    by (simp add: hpa_plan_def same_action_object_def tgt sameScaleObject_same_object)
  have keys: "sa_stampKeys (step_action (hpa_step p b)) = []" for p b
    by (simp add: step_action_def scaleAction_def hpa_step_def)
  have base: "stp_skipDownscaling (hpa_step p b) = False" "stp_baseline (hpa_step p b) = b" for p b
    by (simp_all add: hpa_step_def)
  have reads: "restore_reads std_env mem_client (hpa_store ws 5 10) ?acts [] [] [] =
      Inr ([''spec.minReplicas'', ''spec.maxReplicas''], [(''spec.minReplicas'', 3)], [])"
    by (simp add: hpa_plan_def tgt keys base hpa_current in_int32_def Let_def del: fieldPath_actionTarget)
  have "mlen [(''spec.minReplicas'', 3 :: int)] = 1" by (simp add: mlen_def mkeys_def)
  moreover have "actionTarget (hd ?acts) = hpa_target ''spec.minReplicas''" "length ?acts \<noteq> 1"
    by (simp_all add: hpa_plan_def tgt)
  ultimately have "run_state (restore_group std_env mem_client ?acts) \<lparr>cluster = hpa_store ws 5 10, log = l\<rparr> =
      (Inr (), \<lparr>cluster = hpa_store ws 3 10, log = l\<rparr>)"
    by (simp add: restore_group_def restoreGroupedActions_def run_and_then reads hpa_patch in_int32_def Let_def PatchAnnotations_def
        StampDeletes_def uniqueStrings_def del: One_nat_def)
  then show ?thesis
    using hpa_window_actions by (simp add: restoreActions_def ScaleActions_def window_actions_def groups)
qed

lemma hpa_members: "hpa_target ''spec.minReplicas'' \<in> hpa_targets" "hpa_target ''spec.maxReplicas'' \<in> hpa_targets"
  by (simp_all add: hpa_targets_def)

lemma hpa_plan_targets: "stp_target ` set (plan_steps hpa_plan) \<subseteq> hpa_targets"
  by (simp add: hpa_plan_def hpa_step_def hpa_members)

lemma hpa_initial:
  "field_value std_env mem_client (cluster (hpa_state 3 10)) (hpa_target ''spec.minReplicas'') = Some 3"
  "field_value std_env mem_client (cluster (hpa_state 3 10)) (hpa_target ''spec.maxReplicas'') = Some 10"
  by (simp_all add: hpa_state_def hpa_values in_int32_def)

lemma std_nested_not_api: "std_nested j path = Inl e \<Longrightarrow> \<not> IsNotFound e"
  by (induction j path rule: std_nested.induct) (auto simp: IsNotFound_def split: option.splits)

lemma mem_not_found: "not_found_documented std_env mem_client"
  unfolding not_found_documented_def
  by (auto simp: mem_client_def or_not_found_def std_nested_int_def IsNotFound_def
      split: option.splits sum.splits json.splits dest: std_nested_not_api)


section \<open>Properties\<close>

text \<open>
  C11. A successful \<open>apply\<close> raises capacity and does nothing else: on fields that do not
  overlap, each planned field ends at the larger of its old value and the desired one,
  and every other field keeps its value. Nothing is ever lowered.
\<close>

theorem apply_raises_exactly:
  assumes "nested_documented E" and "patch_documented c" and "separated T"
    and "buildPlan E c w pol dep atRisk existing sticky = Inr p" and "stp_target ` set (plan_steps p) \<subseteq> T"
    and "run_state (plan_apply E c p policyName) s = ((scaled, None), s')"
    and "t \<in> T" and "field_value E c (cluster s) t = Some i"
  shows "field_value E c (cluster s') t =
     Some (if \<exists>x \<in> set (plan_steps p). same_field (stp_target x) t then max i (plan_desired p) else i)"
proof (cases "plan_steps p = []")
  case True
  with assms(6,8) show ?thesis by (simp add: plan_apply_def)
next
  case False
  then obtain x where x: "x \<in> set (plan_steps p)" by (cases "plan_steps p") auto
  have "field_updates E c T (raised_to (plan_desired p) (plan_steps p)) (cluster s) (cluster s')"
    using plan_apply_raises [OF assms(6), of "plan_desired p" T] buildPlan_uniform [OF assms(4)] x assms(5) by blast
  moreover have "t \<in> store_targets E c T" using assms by (simp add: store_targets_def)
  ultimately show ?thesis using fs.updatesD assms(8) by (fastforce simp: raised_to_def)
qed

theorem apply_raises_exactly_witness:
  "\<exists>s'. run_state (plan_apply std_env mem_client hpa_plan ''p'') (hpa_state 3 10) = ((True, None), s') \<and>
     field_value std_env mem_client (cluster s') (hpa_target ''spec.minReplicas'') = Some 5 \<and>
     field_value std_env mem_client (cluster s') (hpa_target ''spec.maxReplicas'') = Some 10"
proof -
  obtain s' where run: "run_state (plan_apply std_env mem_client hpa_plan ''p'') (hpa_state 3 10) = ((True, None), s')"
    using hpa_apply [of "[]" "[]"] unfolding hpa_state_def by blast
  note exact = apply_raises_exactly [OF std_env_nested mem_patch_documented hpa_separated hpa_buildPlan hpa_plan_targets run]
  from exact [OF hpa_members(1) hpa_initial(1)] exact [OF hpa_members(2) hpa_initial(2)] run show ?thesis
    by (simp add: hpa_plan_def hpa_step_def same_field_def)
qed

text \<open>
  C12. A successful scale-back lowers capacity to the recorded baselines and does nothing
  else: each recorded field that still exists ends at the smaller of its value and its
  baseline, unless its backend skips downscaling; fields without a record keep their value
  and objects that are gone do not keep the others from being restored.
\<close>

theorem restore_lowers_exactly:
  assumes "nested_documented E" and "patch_documented c" and "not_found_documented E c" and "separated T"
    and "consistent (window_actions win)"
    and "\<forall>a \<in> set (window_actions win). in_int32 (sa_baseline a) \<and> (\<exists>t \<in> T. same_field (actionTarget a) t)"
    and "run_state (restoreActions E c win) s = (Inr (), s')"
    and "t \<in> T" and "field_value E c (cluster s) t = Some i"
  shows "(\<forall>a \<in> set (window_actions win). same_field (actionTarget a) t \<longrightarrow>
       field_value E c (cluster s') t = Some (if sa_skipDownscaling a then i else min i (sa_baseline a))) \<and>
     ((\<exists>a \<in> set (window_actions win). same_field (actionTarget a) t) \<or> field_value E c (cluster s') t = Some i)"
proof -
  have down: "field_updates E c T (lowered (window_actions win)) (cluster s) (cluster s')"
    by (rule restoreActions_lowers [OF assms(2,3,5,6,7)])
  have t: "t \<in> store_targets E c T" using assms by (simp add: store_targets_def)
  have "field_value E c (cluster s') t = Some (lowered (window_actions win) t i)"
    by (rule fs.updatesD [OF down t assms(9)])
  then show ?thesis
    by (cases "\<exists>a \<in> set (window_actions win). same_field (actionTarget a) t")
      (simp_all add: lowered_member [OF assms(5)] lowered_other)
qed

theorem restore_lowers_exactly_witness:
  "\<exists>s'. run_state (restoreActions std_env mem_client hpa_window) \<lparr>cluster = hpa_memory 5 10, log = []\<rparr> = (Inr (), s') \<and>
     field_value std_env mem_client (cluster s') (hpa_target ''spec.minReplicas'') = Some 3"
proof -
  let ?s = "\<lparr>cluster = hpa_memory 5 10, log = []\<rparr>" and ?s' = "\<lparr>cluster = hpa_memory 3 10, log = []\<rparr>"
  have val: "field_value std_env mem_client (cluster ?s) (hpa_target ''spec.minReplicas'') = Some 5"
    by (simp add: hpa_values in_int32_def)
  have steps: "set (plan_steps hpa_plan) = {hpa_step ''spec.minReplicas'' 3, hpa_step ''spec.maxReplicas'' 10}"
    by (simp add: hpa_plan_def)
  have base: "stp_baseline (hpa_step q b) = b" "stp_target (hpa_step q b) = hpa_target q" "\<not> stp_skipDownscaling (hpa_step q b)" for q b
    by (simp_all add: hpa_step_def)
  have ex: "\<exists>t \<in> hpa_targets. same_field (hpa_target q) t" if "hpa_target q \<in> hpa_targets" for q
    using that by (intro bexI [of _ "hpa_target q"]) simp_all
  have acts: "\<forall>a \<in> set (window_actions hpa_window). in_int32 (sa_baseline a) \<and> (\<exists>t \<in> hpa_targets. same_field (actionTarget a) t)"
    using ex [OF hpa_members(1)] ex [OF hpa_members(2)]
    by (auto simp: hpa_window_actions steps base step_action_field in_int32_def)
  have con: "consistent (window_actions hpa_window)"
    by (auto simp: consistent_def hpa_window_actions steps base step_action_fields same_field_def)
  have "step_action (hpa_step ''spec.minReplicas'' 3) \<in> set (window_actions hpa_window)" by (simp add: hpa_window_actions steps)
  with restore_lowers_exactly [OF std_env_nested mem_patch_documented mem_not_found hpa_separated con acts hpa_restore hpa_members(1) val]
  have "field_value std_env mem_client (cluster ?s') (hpa_target ''spec.minReplicas'') = Some 3"
    by (fastforce simp: step_action_field base)
  with hpa_restore [of "[]" "[]"] show ?thesis by blast
qed

text \<open>
  Recorded baselines are sticky: a plan built on top of the actions of an earlier one
  has the same baselines, whatever the cluster, the number of pods at risk and the fields
  are by then, so repeated reconciles never ratchet the capacity up.
\<close>

lemma baselines_are_sticky:
  assumes "buildPlan E c w (Some pol) dep atRisk existing sticky = Inr p" and "plan_steps p \<noteq> []"
    and "distinct (map (actionKey \<circ> step_action) (plan_steps p))"
  shows "\<exists>p'. buildPlan E c w' (Some pol) dep atRisk' (plan_actions p existing) sticky' = Inr p' \<and>
     map stp_baseline (plan_steps p') = map stp_baseline (plan_steps p) \<and>
     plan_primaryBaseline p' = plan_primaryBaseline p \<and>
     plan_desired p' = TargetReplicas (plan_primaryBaseline p) atRisk' (SpareReplicasOrDefault pol) (MaxBufferOrDefault pol)"
proof -
  from assms(1,2) obtain bindings resolved bs where r: "mlen (spec_backends (pol_spec pol)) \<noteq> 0"
    "BindingsForWorkload dep (Some pol) = Inr bindings" "ResolveCatalog dep (Some pol) bindings = Inr resolved" "resolved \<noteq> []"
    and base: "list_all2 (\<lambda>r b. step_baseline E c w existing r = Inr b) resolved bs"
    and prim: "plan_primaryBaseline p = hd bs"
    and steps: "plan_steps p = map2 (\<lambda>r b. step_of (resolveStamp pol dep) r b (plan_desired p)) resolved bs"
    by (rule buildPlan_steps)
  have len: "length resolved = length bs" using base by (rule list_all2_lengthD)
  let ?acts = "plan_actions p existing"
  have find: "findAction_loop (actionKey (step_action x)) (map step_action xs) = Some (step_action x)"
    if "x \<in> set xs" "distinct (map (actionKey \<circ> step_action) xs)" for x xs
    using that by (induction xs) (auto simp: image_iff)
  have rec: "step_baseline E c w' ?acts r = Inr b" if "(r, b) \<in> set (zip resolved bs)" for r b
  proof -
    let ?x = "step_of (resolveStamp pol dep) r b (plan_desired p)"
    have x: "?x \<in> set (plan_steps p)" using that by (force simp: steps)
    have "actionKey (scaleAction (rstep_key r) (rstep_target r) 0 0 [] False) = actionKey (step_action ?x)"
      by (simp add: step_action_def actionKey_def scaleAction_def)
    then have "findAction ?acts (rstep_key r) (rstep_target r) = Some (step_action ?x)"
      using find [OF x assms(3)] assms(2)
      by (simp add: findAction_def plan_actions_def Let_def findAction_loop_merge)
    then show ?thesis by (simp add: step_baseline_def)
  qed
  then have base': "list_all2 (\<lambda>r b. step_baseline E c w' ?acts r = Inr b) resolved bs"
    using len by (auto simp: list_all2_iff)
  from buildPlan_again [OF r base', of atRisk' sticky'] obtain p' where
    p': "buildPlan E c w' (Some pol) dep atRisk' ?acts sticky' = Inr p'" "plan_primaryBaseline p' = hd bs"
    "plan_steps p' = map2 (\<lambda>r b. step_of (resolveStamp pol dep) r b (plan_desired p')) resolved bs"
    by blast
  have "map stp_baseline (map2 (\<lambda>r b. step_of st r b d) resolved bs) = bs" for st d
    using len by (induction resolved bs rule: list_induct2) simp_all
  moreover have "plan_desired p' = TargetReplicas (hd bs) atRisk' (SpareReplicasOrDefault pol) (MaxBufferOrDefault pol)"
  proof -
    have "plan_steps p' \<noteq> []" using p'(3) r(4) len by (cases resolved; cases bs) auto
    from p'(1) this show ?thesis by (rule buildPlan_steps) (use p'(2) in simp)
  qed
  ultimately show ?thesis using p' prim steps by metis
qed

text \<open>
  C25. A field that is unset and relies on the default of its catalog entry can be planned
  but not restored: the recorded action does not carry the default, so as long as the
  field is unset, scale-back fails with an error that is not a not-found one, and the
  window that recorded it cannot close.
\<close>

theorem unset_field_blocks_restore:
  assumes "fb_get E c (cluster s) t = Inr (gvk, obj, path)" and "NestedInt64 E obj path = Inr None"
    and "tgt_defaultWhenUnset t = Some d" and "\<not> knownDefaultOne (tgt_apiVersion t) (tgt_kind t)"
    and "tgt_namespace t \<noteq> []" and "ws_actions (win_spec win) = [scaleAction key t d scaledTo keys False]"
  shows "Current E c (cluster s) t = Inr d \<and>
     (\<exists>e. run_state (restoreActions E c win) s = (Inl e, s) \<and> \<not> IsNotFound e)"
proof
  show "Current E c (cluster s) t = Inr d"
    using assms(1-3) by (simp add: Current_def defaultWhenPathUnset_def)
  let ?a = "scaleAction key t d scaledTo keys False"
  have tgt: "actionTarget ?a = t\<lparr>tgt_defaultWhenUnset := None\<rparr>" by (rule actionTarget_scaleAction)
  have "same_object t (actionTarget ?a)" by (simp add: tgt same_object_def)
  from fb_get_same_object [OF this assms(1)] have "fb_get E c (cluster s) (actionTarget ?a) = Inr (gvk, obj, path)"
    using assms(1) by (simp add: tgt fb_get_iff)
  with assms(2,4) obtain msg where cur: "Current E c (cluster s) (actionTarget ?a) = Inl (ErrorString msg)"
    by (simp add: Current_def defaultWhenPathUnset_def tgt)
  have plain: "\<not> IsNotFound (ErrorString msg)" by (simp add: IsNotFound_def)
  have skip: "sa_skipDownscaling ?a = False" by (simp add: scaleAction_def)
  have ns: "with_namespace (win_namespace win) ?a = ?a" using assms(5) by (simp add: with_namespace_def scaleAction_def)
  have "run_state (restoreActions E c win) s = (Inl (wrapBackendErr (actionTarget ?a) (ErrorString msg)), s)"
    using cur by (simp add: restoreActions_def ScaleActions_def assms(6) ns restore_group_def restoreOneAction_def Let_def skip plain)
  then show "\<exists>e. run_state (restoreActions E c win) s = (Inl e, s) \<and> \<not> IsNotFound e"
    by (simp add: plain)
qed

definition pool_target :: Target where
  "pool_target =
     \<lparr>tgt_namespace = ''shop'', tgt_name = ''web'', tgt_apiVersion = ''example.com/v1'', tgt_kind = ''Pool'',
      tgt_fieldPath = ''spec.size'', tgt_defaultWhenUnset = Some 5\<rparr>"

definition pool_state :: "(memory, effect) sys" where
  "pool_state = \<lparr>cluster = (hpa_memory 3 10)\<lparr>mc_objects := [(((''example.com'', ''v1'', ''Pool''), ''shop'', ''web''), JObject [])]\<rparr>, log = []\<rparr>"

theorem unset_field_blocks_restore_witness:
  "Current std_env mem_client (cluster pool_state) pool_target = Inr 5 \<and>
   (\<exists>e. run_state (restoreActions std_env mem_client (some_window\<lparr>win_spec := (win_spec some_window)
       \<lparr>ws_actions := [scaleAction ''pool'' pool_target 5 5 [] False]\<rparr>\<rparr>)) pool_state = (Inl e, pool_state))"
proof -
  let ?win = "some_window\<lparr>win_spec := (win_spec some_window)\<lparr>ws_actions := [scaleAction ''pool'' pool_target 5 5 [] False]\<rparr>\<rparr>"
  have "parseAPIVersionKind std_env ''example.com/v1'' ''Pool'' = Inr (''example.com'', ''v1'', ''Pool'')"
    by (simp add: parseAPIVersionKind_def std_env_def)
  then have get: "fb_get std_env mem_client (cluster pool_state) pool_target = Inr ((''example.com'', ''v1'', ''Pool''), JObject [], [''spec'', ''size''])"
    by (simp add: fb_get_iff pool_target_def pool_state_def mem_client_def splitFieldPath_def TrimPrefix_def HasPrefix_def)
  show ?thesis
    using unset_field_blocks_restore [OF get, of 5 ?win "''pool''" 5 "[]"]
    by (auto simp: pool_target_def std_nested_int_def knownDefaultOne_def)
qed

end
