(* ===== verification/Requeue.thy ===== *)
theory Requeue
  imports Metrics
begin

text \<open>
  What the two reconcilers share: the requeue intervals of \<open>requeue.go\<close> and the plan
  metrics of a workload (\<open>setWorkloadPlanMetrics\<close>, \<open>clearWorkloadPlanMetrics\<close> of
  \<open>policy_controller.go\<close>). The result of a reconcile is its \<open>RequeueAfter\<close>, 0 for none;
  controller-runtime ignores it beside an error.
\<close>

definition requeueOpen :: duration where [go_simps]: "requeueOpen = 15 * second"
definition requeueDeferred :: duration where [go_simps]: "requeueDeferred = 15 * second"
definition requeuePolicyCleanup :: duration where [go_simps]: "requeuePolicyCleanup = 2 * second"
definition requeueForcedCoolTombstone :: duration where [go_simps]: "requeueForcedCoolTombstone = 15 * second"

definition setWorkloadPlanMetrics :: "string \<Rightarrow> string \<Rightarrow> string \<Rightarrow> int \<Rightarrow> int \<Rightarrow> int \<Rightarrow> ('w, unit) io" where
  "setWorkloadPlanMetrics policy ns workload atRisk desired baseline =
     (let labels = [policy, ns, workload]; spare0 = int32 (desired - baseline);
          spare = (if spare0 < 0 then 0 else spare0)
      in State_Monad.bind (emit (GaugeSet metric_AtRiskPods labels atRisk)) (\<lambda>_.
         State_Monad.bind (emit (GaugeSet metric_DesiredReplicas labels desired)) (\<lambda>_.
         emit (GaugeSet metric_CurrentSpare labels spare))))"

definition clearWorkloadPlanMetrics :: "string \<Rightarrow> string \<Rightarrow> string \<Rightarrow> ('w, unit) io" where
  "clearWorkloadPlanMetrics policy ns workload =
     (let labels = [policy, ns, workload] in
      State_Monad.bind (emit (SeriesDelete metric_AtRiskPods labels)) (\<lambda>_.
      State_Monad.bind (emit (SeriesDelete metric_DesiredReplicas labels)) (\<lambda>_.
      State_Monad.bind (emit (SeriesDelete metric_CurrentSpare labels)) (\<lambda>_.
      State_Monad.bind (emit (SeriesDelete metric_SpareNotReady labels)) (\<lambda>_.
      emit (SeriesDelete metric_CapacityApplyError labels))))))"

lemma cluster_setWorkloadPlanMetrics [simp]: "cluster (snd (run_state (setWorkloadPlanMetrics p ns n a d b) s)) = cluster s"
  by (simp add: setWorkloadPlanMetrics_def Let_def)

lemma cluster_clearWorkloadPlanMetrics [simp]: "cluster (snd (run_state (clearWorkloadPlanMetrics p ns n) s)) = cluster s"
  by (simp add: clearWorkloadPlanMetrics_def Let_def)

end
