(* ===== verification/Window_Controller.thy ===== *)
theory Window_Controller
  imports Plan Spare Scale_Error Window_Phase Requeue
begin

text \<open>
  \<open>internal/controller/window_controller.go\<close>: the reconciler that closes windows. A handler
  that changes its \<open>win\<close> argument returns it; a write to the API server replaces the window
  by the object that the server returns. \<open>Reconcile\<close> is cut at its guards: \<open>window_reconcile\<close>
  fetches the window, \<open>reconcile_window\<close> handles deletion, the finalizer, the policy and the
  target, \<open>reconcile_target\<close> the tombstone, \<open>reconcile_decide\<close> computes the input of the
  decision and \<open>perform\<close> carries the decision out.

  \<open>win.Spec.WindowUntil\<close> points to the local \<open>coolUntil\<close> when the patch is sent; a decoder that
  writes the stored time (whole seconds) back through that pointer would shorten the requeue
  and the stamp of \<open>begin_scale_back\<close> by less than a second, which is not modelled.
\<close>


section \<open>Definitions\<close>

definition reasonScaledBack :: string where [go_simps]: "reasonScaledBack = ''ScaledBack''"
definition reasonSpareReady :: string where [go_simps]: "reasonSpareReady = ''SpareReady''"
definition reasonSpareWait :: string where [go_simps]: "reasonSpareWait = ''SpareNotReady''"
definition reasonMaxWindow :: string where [go_simps]: "reasonMaxWindow = ''MaxWindowExceeded''"

definition window_object :: "EvictionGuardWindow \<Rightarrow> string" where
  "window_object win = win_namespace win @ ''/'' @ win_name win"

definition openRequeue :: "EvictionGuardPolicy \<Rightarrow> EvictionGuardWindow \<Rightarrow> time \<Rightarrow> duration" where
  "openRequeue policy win now =
     (let d = maxWindowRequeue (Some policy) (Some win) now in
      if d > 0 \<and> d < requeueOpen then d else requeueOpen)"

definition windowMetricBackend :: "EvictionGuardWindow \<Rightarrow> string" where
  "windowMetricBackend win =
     (let actions = ScaleActions (Some win) in
      if length actions = 0 then ''unknown''
      else JoinStr '','' (map (\<lambda>a. if sa_key a \<noteq> [] then sa_key a else sa_kind a) actions))"

definition clear_window_metrics :: "EvictionGuardWindow \<Rightarrow> ('w, unit) io" where
  "clear_window_metrics win =
     clearWorkloadPlanMetrics (ws_policyName (win_spec win)) (wr_namespace (ws_target (win_spec win))) (wr_name (ws_target (win_spec win)))"

definition remove_window_finalizer :: "env \<Rightarrow> 'w client \<Rightarrow> EvictionGuardWindow \<Rightarrow> ('w, EvictionGuardWindow) fallible" where
  "remove_window_finalizer E c win =
     (if ContainsFinalizer E (win_finalizers win) WindowFinalizer
      then mutate (Patch_Window c win (win\<lparr>win_finalizers := RemoveFinalizer E (win_finalizers win) WindowFinalizer\<rparr>))
      else ok win)"

definition deleteClosedWindow :: "env \<Rightarrow> 'w client \<Rightarrow> EvictionGuardWindow \<Rightarrow> ('w, duration) fallible" where
  "deleteClosedWindow E c win =
     State_Monad.bind (clear_window_metrics win) (\<lambda>_.
     and_then (remove_window_finalizer E c win) (\<lambda>win'.
     State_Monad.bind (mutate (Delete_Window c win')) (\<lambda>r.
       case r of
         Inl e \<Rightarrow> if IgnoreNotFound e \<noteq> None then fail e else ok 0
       | Inr _ \<Rightarrow> ok 0)))"

fun still_loop ::
  "env \<Rightarrow> 'w client \<Rightarrow> 'w \<Rightarrow> specFilter \<Rightarrow> EvictionGuardPolicy \<Rightarrow> string list \<Rightarrow> string list \<Rightarrow> goerror + string list" where
  "still_loop E c w fil policy [] still = Inr still"
| "still_loop E c w fil policy (name # names) still =
     (case Get_Node c w name of
        Inl e \<Rightarrow> if IsNotFound e then still_loop E c w fil policy names still else Inl e
      | Inr n \<Rightarrow>
          sum_bind (Matches fil (Some n)) (\<lambda>ok.
            if \<not> ok then still_loop E c w fil policy names still
            else still_loop E c w fil policy names
              (if Vulnerable (registry E) n (Some policy) then still @ [name] else still)))"

definition stillVulnerable ::
  "env \<Rightarrow> 'w client \<Rightarrow> 'w \<Rightarrow> EvictionGuardWindow \<Rightarrow> EvictionGuardPolicy \<Rightarrow> goerror + string list" where
  "stillVulnerable E c w win policy =
     sum_bind (FromSpec E (spec_nodeFilter (pol_spec policy))) (\<lambda>fil.
       still_loop E c w fil policy (ws_vulnerableNodes (win_spec win)) [])"

definition abortCooldown ::
  "env \<Rightarrow> 'w client \<Rightarrow> EvictionGuardWindow \<Rightarrow> EvictionGuardPolicy \<Rightarrow> Deployment option \<Rightarrow> ('w, EvictionGuardWindow) fallible" where
  "abortCooldown E c win policy dep =
     (if ws_windowUntil (win_spec win) = None then ok win
      else and_then (mutate (Patch_Window c win (win\<lparr>win_spec := (win_spec win)\<lparr>ws_windowUntil := None\<rparr>\<rparr>))) (\<lambda>win'.
           and_then (stampCooldown E c policy dep win' 0) (\<lambda>_. ok win')))"

definition scaleBackAndUnfinalize :: "env \<Rightarrow> 'w client \<Rightarrow> EvictionGuardWindow \<Rightarrow> ('w, duration) fallible" where
  "scaleBackAndUnfinalize E c win =
     State_Monad.bind (restoreActions E c win) (\<lambda>r.
       if (case r of Inl e \<Rightarrow> \<not> IsNotFound e | Inr _ \<Rightarrow> False) then fail (projl r)
       else State_Monad.bind (clear_window_metrics win) (\<lambda>_.
            and_then (remove_window_finalizer E c win) (\<lambda>_. ok 0)))"

definition scaleBackAndClose :: "env \<Rightarrow> 'w client \<Rightarrow> EvictionGuardWindow \<Rightarrow> ('w, duration) fallible" where
  "scaleBackAndClose E c win = scaleBackAndUnfinalize E c win"

definition scale_down_metric :: "EvictionGuardWindow \<Rightarrow> string \<Rightarrow> effect" where
  "scale_down_metric win outcome =
     CounterInc metric_ScaleActions [ws_policyName (win_spec win), ''down'', windowMetricBackend win, outcome]"

definition scaleBackIfAllowed :: "env \<Rightarrow> 'w client \<Rightarrow> EvictionGuardWindow \<Rightarrow> ('w, unit) fallible" where
  "scaleBackIfAllowed E c win =
     State_Monad.bind (restoreActions E c win) (\<lambda>r.
       case r of
         Inl e \<Rightarrow> State_Monad.bind (emit (scale_down_metric win ''error'')) (\<lambda>_. fail e)
       | Inr _ \<Rightarrow>
           State_Monad.bind (emit (scale_down_metric win ''ok'')) (\<lambda>_.
           State_Monad.bind (clear_window_metrics win) (\<lambda>_.
           State_Monad.bind (emitf c (window_object win) EventTypeNormal reasonScaledBack
             (''restored capacity to baseline '' @ FormatInt (ws_baseline (win_spec win)))) (\<lambda>_. ok ()))))"

definition spare_text :: "int \<Rightarrow> int \<Rightarrow> string" where
  "spare_text safe baseline = '' (safeReady='' @ FormatInt safe @ '' baseline='' @ FormatInt baseline @ '')''"

definition writeStatus ::
  "env \<Rightarrow> 'w client \<Rightarrow> EvictionGuardWindow \<Rightarrow> Deployment option \<Rightarrow> WindowPhase \<Rightarrow> string \<Rightarrow> ('w, EvictionGuardWindow) fallible" where
  "writeStatus E c win dep phase msg0 =
     and_then (query (\<lambda>w. spareCounts E c w win dep)) (\<lambda>(ready, safe).
     State_Monad.bind (query (Now c)) (\<lambda>now.
     (let st = win_status win; before = wst_spareReady st; baseline = ws_baseline (win_spec win) in
      State_Monad.bind (applySpareStatus E win ready safe now) (\<lambda>(transitioned, win1).
      (let blocked = capacityAppliedBlocked E (Some win1);
           msg = (if blocked \<and> (msg0 = msgWaitingSpare \<or> msg0 = msgNodesVulnerable)
                  then applyErrorMessage E msg0 (Some win1) else msg0);
           isReady = wst_spareReady (win_status win1)
       in State_Monad.bind
            (if transitioned \<and> isReady \<and> \<not> before
             then emitf c (window_object win1) EventTypeNormal reasonSpareReady
               (''spare capacity Ready off vulnerable nodes'' @ spare_text safe baseline)
             else State_Monad.return ()) (\<lambda>_.
          State_Monad.bind
            (if transitioned \<and> \<not> isReady
             then emitf c (window_object win1) EventTypeNormal reasonSpareWait
               (''waiting for Ready pods off vulnerable nodes'' @ spare_text safe baseline)
             else State_Monad.return ()) (\<lambda>_.
          if wst_phase (win_status win1) = phase \<and> wst_message (win_status win1) = msg \<and> \<not> transitioned \<and>
             wst_readyReplicas st = ready \<and> wst_safeReadyReplicas st = safe
          then ok win1
          else mutate (Update_WindowStatus c (win1\<lparr>win_status := (win_status win1)
            \<lparr>wst_phase := phase, wst_message := msg\<rparr>\<rparr>)))))))))"

subsection \<open>\<open>Reconcile\<close>\<close>

definition begin_scale_back ::
  "env \<Rightarrow> 'w client \<Rightarrow> EvictionGuardWindow \<Rightarrow> EvictionGuardPolicy \<Rightarrow> Deployment option \<Rightarrow> time \<Rightarrow> bool \<Rightarrow> ('w, duration) fallible" where
  "begin_scale_back E c win policy dep now forceCool =
     and_then (scaleBackIfAllowed E c win) (\<lambda>_.
     (let coolUntil = now + scaleBackAfter policy dep in
      and_then (mutate (Patch_Window c win (win\<lparr>win_spec := (win_spec win)\<lparr>ws_windowUntil := Some coolUntil\<rparr>\<rparr>))) (\<lambda>win'.
      and_then (stampCooldown E c policy dep win' coolUntil) (\<lambda>_.
      and_then (writeStatus E c win' dep WindowPhaseCooling (coolingMessage forceCool (wst_forcedCool (win_status win')))) (\<lambda>_.
        ok (time_sub coolUntil now))))))"

definition perform ::
  "env \<Rightarrow> 'w client \<Rightarrow> EvictionGuardWindow \<Rightarrow> EvictionGuardPolicy \<Rightarrow> Deployment option \<Rightarrow> time \<Rightarrow> bool \<Rightarrow> time \<Rightarrow>
   windowPhaseDecision \<Rightarrow> ('w, duration) fallible" where
  "perform E c win policy dep now forceCool until dec =
     (case Step dec of
        stepBeginScaleBack \<Rightarrow> begin_scale_back E c win policy dep now forceCool
      | stepStayCooling \<Rightarrow>
          and_then (writeStatus E c win dep (Phase dec) (Message dec)) (\<lambda>_. ok (time_sub until now))
      | stepClose \<Rightarrow>
          and_then (writeStatus E c win dep (Phase dec) (Message dec)) (\<lambda>win'.
            if RetainClosed dec then ok 0 else deleteClosedWindow E c win')
      | _ \<Rightarrow>
          and_then (if AbortCooldown dec then abortCooldown E c win policy dep else ok win) (\<lambda>win'.
          and_then (writeStatus E c win' dep (Phase dec) (Message dec)) (\<lambda>win''.
            ok (openRequeue policy win'' now))))"

definition force_cool ::
  "'w client \<Rightarrow> EvictionGuardWindow \<Rightarrow> EvictionGuardPolicy \<Rightarrow> bool \<Rightarrow> ('w, EvictionGuardWindow) fallible" where
  "force_cool c win policy forceCool =
     (if forceCool \<and> \<not> wst_forcedCool (win_status win) then
        (let win1 = win\<lparr>win_status := (win_status win)\<lparr>wst_forcedCool := True\<rparr>\<rparr> in
         State_Monad.bind (emitf c (window_object win1) EventTypeWarning reasonMaxWindow
           (''Open longer than maxWindow ('' @ DurationString (MaxWindowOrDefault policy) @ ''); forcing cooldown'')) (\<lambda>_.
         State_Monad.bind (emit (CounterInc metric_MaxWindowExceeded
           [pol_name policy, win_namespace win1, wr_name (ws_target (win_spec win1))])) (\<lambda>_.
         mutate (Update_WindowStatus c win1))))
      else ok win)"

definition until_of :: "EvictionGuardWindow \<Rightarrow> time" where
  "until_of win = (case ws_windowUntil (win_spec win) of None \<Rightarrow> 0 | Some t \<Rightarrow> t)"

definition reconcile_decide ::
  "env \<Rightarrow> 'w client \<Rightarrow> EvictionGuardWindow \<Rightarrow> EvictionGuardPolicy \<Rightarrow> Deployment option \<Rightarrow> ('w, duration) fallible" where
  "reconcile_decide E c win policy dep =
     and_then (query (\<lambda>w. liveAtRiskPods E c w (Some win) (Some policy) dep)) (\<lambda>(liveAtRisk, _).
     State_Monad.bind (query (Now c)) (\<lambda>now.
     (let forceCool = maxWindowExceeded (Some policy) (Some win) now in
      and_then (force_cool c win policy forceCool) (\<lambda>win1.
      and_then (if \<not> forceCool \<and> liveAtRisk = 0
                then query (\<lambda>w. sum_bind (spareCounts E c w win1 dep) (\<lambda>(_, safe). Inr safe))
                else ok (ws_baseline (win_spec win1))) (\<lambda>safeReady.
        perform E c win1 policy dep now forceCool (until_of win1)
          (decideWindowStep \<lparr>LiveAtRisk = liveAtRisk, ForceCool = forceCool, ForcedCool = wst_forcedCool (win_status win1),
             SafeReady = safeReady, Baseline = ws_baseline (win_spec win1), WindowUntil = until_of win1, InputNow = now\<rparr>))))))"

definition reconcile_target ::
  "env \<Rightarrow> 'w client \<Rightarrow> EvictionGuardWindow \<Rightarrow> EvictionGuardPolicy \<Rightarrow> Deployment option \<Rightarrow> ('w, duration) fallible" where
  "reconcile_target E c win policy dep =
     (if wst_phase (win_status win) = WindowPhaseClosed \<and> wst_forcedCool (win_status win) then
        and_then (query (\<lambda>w. stillVulnerable E c w win policy)) (\<lambda>still.
          if length still > 0 then ok requeueForcedCoolTombstone else deleteClosedWindow E c win)
      else reconcile_decide E c win policy dep)"

definition reconcile_window :: "env \<Rightarrow> 'w client \<Rightarrow> EvictionGuardWindow \<Rightarrow> ('w, duration) fallible" where
  "reconcile_window E c win =
     (if \<not> time_is_zero (win_deletionTimestamp win) then scaleBackAndUnfinalize E c win
      else if \<not> ContainsFinalizer E (win_finalizers win) WindowFinalizer then
        and_then (mutate (Patch_Window c win (win\<lparr>win_finalizers := AddFinalizer E (win_finalizers win) WindowFinalizer\<rparr>))) (\<lambda>_. ok 0)
      else State_Monad.bind (query (\<lambda>w. Get_Policy c w (ws_policyName (win_spec win)))) (\<lambda>r.
        case r of
          Inl e \<Rightarrow> if IsNotFound e then scaleBackAndClose E c win else fail e
        | Inr policy \<Rightarrow>
            (let target = ws_target (win_spec win) in
             if wr_kind target = [] \<or> wr_kind target = ''Deployment'' then
               State_Monad.bind (query (\<lambda>w. Get_Deployment c w (wr_namespace target) (wr_name target))) (\<lambda>r.
                 case r of
                   Inl e \<Rightarrow> if IsNotFound e then scaleBackAndClose E c win else fail e
                 | Inr dep \<Rightarrow> reconcile_target E c win policy (Some dep))
             else reconcile_target E c win policy None)))"

definition window_reconcile :: "env \<Rightarrow> 'w client \<Rightarrow> string \<Rightarrow> string \<Rightarrow> ('w, duration) fallible" where
  "window_reconcile E c ns name =
     State_Monad.bind (query (\<lambda>w. Get_Window c w ns name)) (\<lambda>r.
       case r of
         Inl e \<Rightarrow> (case IgnoreNotFound e of None \<Rightarrow> ok 0 | Some e' \<Rightarrow> fail e')
       | Inr win \<Rightarrow> reconcile_window E c win)"

text \<open>The node watch of \<open>SetupWithManager\<close>.\<close>

definition nodeToWindows :: "'w client \<Rightarrow> 'w \<Rightarrow> string \<Rightarrow> (string \<times> string) list" where
  "nodeToWindows c w node = window_requests (List_WindowsByNode c w node)"

end
