(* ===== verification/Window_Store.thy ===== *)
theory Window_Store
  imports Window_Controller Scale_Cycle
begin

text \<open>
  Windows on the API server. \<open>window_api_documented\<close> is what the server promises about the
  writes that the controllers make to windows: create and patch store the metadata and the spec
  that were sent (a patch of the finalizers of a window that is being deleted may end it instead), a status update stores the status, each leaves the other part alone, and
  the response is the stored object; a patch of another kind of object does not change a
  window. The wire format of a time has whole seconds, so a time is stored up to less than
  a second early. \<open>holds\<close> says that the copy of a window that a handler works on is the
  stored one. The frame lemmas say that the writes to workloads leave windows alone and
  that the writes to windows leave workloads alone.
\<close>


section \<open>Documented behaviour\<close>

definition stored_time :: "time option \<Rightarrow> time option \<Rightarrow> bool" where
  "stored_time sent got \<longleftrightarrow>
     (case (sent, got) of (None, None) \<Rightarrow> True | (Some t, Some u) \<Rightarrow> u \<le> t \<and> t < u + second | _ \<Rightarrow> False)"

definition window_kind :: string where [go_simps]: "window_kind = ''EvictionGuardWindow''"

definition holds :: "'w client \<Rightarrow> 'w \<Rightarrow> EvictionGuardWindow \<Rightarrow> bool" where
  "holds c w win \<longleftrightarrow> Get_Window c w (win_namespace win) (win_name win) = Inr win"

text \<open>Writes to windows and writes to other objects do not interfere.\<close>

definition kinds_apart :: "'w client \<Rightarrow> bool" where
  "kinds_apart c \<longleftrightarrow>
     (\<forall>g. snd (snd g) \<noteq> window_kind \<longrightarrow>
        (\<forall>ns n p w. Get_Window c (snd (Patch_Unstructured c g ns n p w)) = Get_Window c w) \<and>
        (\<forall>ns n base new w. Get_Unstructured c (snd (Patch_Window c base new w)) g ns n = Get_Unstructured c w g ns n) \<and>
        (\<forall>ns n win w. Get_Unstructured c (snd (Update_WindowStatus c win w)) g ns n = Get_Unstructured c w g ns n) \<and>
        (\<forall>ns n win w. Get_Unstructured c (snd (Create_Window c win w)) g ns n = Get_Unstructured c w g ns n))"

definition window_api_documented :: "'w client \<Rightarrow> bool" where
  "window_api_documented c \<longleftrightarrow>
     (\<forall>base new w r w'. holds c w base \<longrightarrow> win_namespace new = win_namespace base \<longrightarrow> win_name new = win_name base \<longrightarrow>
        win_finalizers new = win_finalizers base \<longrightarrow> Patch_Window c base new w = (Inr r, w') \<longrightarrow>
        holds c w' r \<and> win_namespace r = win_namespace base \<and> win_name r = win_name base \<and> win_status r = win_status base \<and>
        win_labels r = win_labels new \<and> win_finalizers r = win_finalizers new \<and>
        stored_time (ws_windowUntil (win_spec new)) (ws_windowUntil (win_spec r)) \<and>
        (win_spec r)\<lparr>ws_windowUntil := None\<rparr> = (win_spec new)\<lparr>ws_windowUntil := None\<rparr>) \<and>
     (\<forall>old win w r w'. holds c w old \<longrightarrow> win_namespace win = win_namespace old \<longrightarrow> win_name win = win_name old \<longrightarrow>
        Update_WindowStatus c win w = (Inr r, w') \<longrightarrow>
        holds c w' r \<and> win_namespace r = win_namespace old \<and> win_name r = win_name old \<and> win_spec r = win_spec old \<and>
        win_labels r = win_labels old \<and> win_finalizers r = win_finalizers old \<and>
        wst_phase (win_status r) = wst_phase (win_status win) \<and> wst_forcedCool (win_status r) = wst_forcedCool (win_status win) \<and>
        wst_spareReady (win_status r) = wst_spareReady (win_status win)) \<and>
     (\<forall>win w r w'. Create_Window c win w = (Inr r, w') \<longrightarrow>
        holds c w' r \<and> win_namespace r = win_namespace win \<and> win_name r = win_name win \<and>
        win_labels r = win_labels win \<and> win_finalizers r = win_finalizers win \<and>
        stored_time (ws_windowUntil (win_spec win)) (ws_windowUntil (win_spec r)) \<and>
        (win_spec r)\<lparr>ws_windowUntil := None\<rparr> = (win_spec win)\<lparr>ws_windowUntil := None\<rparr>) \<and>
     kinds_apart c"

lemma documented_patch:
  assumes "window_api_documented c" and "holds c w base" and "win_namespace new = win_namespace base" and "win_name new = win_name base"
    and "win_finalizers new = win_finalizers base" and "Patch_Window c base new w = (Inr r, w')"
  shows "holds c w' r" and "win_namespace r = win_namespace base" and "win_name r = win_name base" and "win_status r = win_status base"
    and "win_labels r = win_labels new" and "win_finalizers r = win_finalizers new"
    and "stored_time (ws_windowUntil (win_spec new)) (ws_windowUntil (win_spec r))"
    and "(win_spec r)\<lparr>ws_windowUntil := None\<rparr> = (win_spec new)\<lparr>ws_windowUntil := None\<rparr>"
  using assms(1) [unfolded window_api_documented_def, THEN conjunct1, rule_format, OF assms(2-6)] by blast+

lemma documented_status:
  assumes "window_api_documented c" and "holds c w old" and "win_namespace win = win_namespace old" and "win_name win = win_name old"
    and "Update_WindowStatus c win w = (Inr r, w')"
  shows "holds c w' r" and "win_namespace r = win_namespace old" and "win_name r = win_name old" and "win_spec r = win_spec old"
    and "win_labels r = win_labels old" and "win_finalizers r = win_finalizers old"
    and "wst_phase (win_status r) = wst_phase (win_status win)" and "wst_forcedCool (win_status r) = wst_forcedCool (win_status win)"
    and "wst_spareReady (win_status r) = wst_spareReady (win_status win)"
  using assms(1) [unfolded window_api_documented_def, THEN conjunct2, THEN conjunct1, rule_format, OF assms(2-5)] by blast+

lemma documented_other_kinds:
  assumes "window_api_documented c" and "snd (snd g) \<noteq> window_kind"
  shows "Get_Window c (snd (Patch_Unstructured c g ns n p w)) = Get_Window c w"
    and "Get_Unstructured c (snd (Patch_Window c base new w)) g ns' n' = Get_Unstructured c w g ns' n'"
    and "Get_Unstructured c (snd (Update_WindowStatus c win w)) g ns' n' = Get_Unstructured c w g ns' n'"
    and "Get_Unstructured c (snd (Create_Window c win w)) g ns' n' = Get_Unstructured c w g ns' n'"
proof -
  have "kinds_apart c" using assms(1) unfolding window_api_documented_def by blast
  note apart = this [unfolded kinds_apart_def, rule_format, OF assms(2)]
  from apart show "Get_Window c (snd (Patch_Unstructured c g ns n p w)) = Get_Window c w"
    and "Get_Unstructured c (snd (Patch_Window c base new w)) g ns' n' = Get_Unstructured c w g ns' n'"
    and "Get_Unstructured c (snd (Update_WindowStatus c win w)) g ns' n' = Get_Unstructured c w g ns' n'"
    and "Get_Unstructured c (snd (Create_Window c win w)) g ns' n' = Get_Unstructured c w g ns' n'"
    by simp_all
qed

lemma documented_create:
  assumes "window_api_documented c" and "Create_Window c win w = (Inr r, w')"
  shows "holds c w' r" and "win_namespace r = win_namespace win" and "win_name r = win_name win"
    and "win_labels r = win_labels win" and "win_finalizers r = win_finalizers win"
    and "(win_spec r)\<lparr>ws_windowUntil := None\<rparr> = (win_spec win)\<lparr>ws_windowUntil := None\<rparr>"
  using assms(1) [unfolded window_api_documented_def, THEN conjunct2, THEN conjunct2, THEN conjunct1, rule_format, OF assms(2)] by blast+


section \<open>Writes to workloads leave windows alone\<close>

text \<open>An observation of the cluster that a patch of an object of another kind than \<open>k\<close> does not change.\<close>

definition ignores_patches :: "('w \<Rightarrow> 'v) \<Rightarrow> 'w client \<Rightarrow> string \<Rightarrow> bool" where
  "ignores_patches f c k \<longleftrightarrow> (\<forall>g ns n p w. snd (snd g) \<noteq> k \<longrightarrow> f (snd (Patch_Unstructured c g ns n p w)) = f w)"

lemma documented_ignores: "window_api_documented c \<Longrightarrow> ignores_patches (Get_Window c) c window_kind"
  by (simp add: ignores_patches_def documented_other_kinds(1))

lemma keeps_raw_patch:
  assumes "ignores_patches f c k" and "snd (snd gvk) \<noteq> k"
  shows "keeps f (raw_patch E c verb gvk t patch)"
  using assms unfolding raw_patch_def ignores_patches_def by (intro keeps_intros keeps_mutate) blast

lemma keeps_PatchIntegers:
  assumes "ignores_patches f c k" and "tgt_kind t \<noteq> k"
  shows "keeps f (PatchIntegers E c t paths values)"
proof -
  have get: "keeps f (and_then (query (\<lambda>w. fb_get E c w t)) (\<lambda>(gvk, obj, path). h gvk obj path))"
    if "\<And>gvk obj path. snd (snd gvk) \<noteq> k \<Longrightarrow> keeps f (h gvk obj path)" for h :: "gvk \<Rightarrow> json \<Rightarrow> string list \<Rightarrow> ('a, unit) fallible"
    unfolding keeps_def
  proof
    fix s
    show "f (cluster (snd (run_state (and_then (query (\<lambda>w. fb_get E c w t)) (\<lambda>(gvk, obj, path). h gvk obj path)) s))) =
        f (cluster s)"
      using that assms(2)
      by (auto simp: run_and_then keeps_def fb_get_iff dest: parse_kind split: sum.split)
  qed
  show ?thesis
    unfolding PatchIntegers_def
    by (rule keeps_if, rule keeps_ok, rule get, intro keeps_intros keeps_raw_patch [OF assms(1)])
qed

lemma keeps_PatchAnnotations:
  assumes "ignores_patches f c k" and "tgt_kind t \<noteq> k"
  shows "keeps f (PatchAnnotations E c t anns)"
  unfolding PatchAnnotations_def
  using assms by (auto intro!: keeps_intros keeps_raw_patch dest: parse_kind)

lemma keeps_restore_group:
  assumes "ignores_patches f c k" and "\<forall>a \<in> set g. sa_kind a \<noteq> k" and "g \<noteq> []"
  shows "keeps f (restore_group E c g)"
proof -
  have kind: "tgt_kind (actionTarget (hd g)) \<noteq> k" using assms(2,3) by (simp add: actionTarget_def)
  have sd: "keeps f (ScaleDown E c (actionTarget (hd g)) d)" for d
    using keeps_PatchIntegers [OF assms(1) kind, of E "[tgt_fieldPath (actionTarget (hd g))]"]
    by (simp add: keeps_def ScaleDown_def fb_patch_PatchIntegers)
  show ?thesis
    unfolding restore_group_def restoreOneAction_def restoreGroupedActions_def
    by (intro keeps_intros sd keeps_PatchIntegers [OF assms(1) kind] keeps_PatchAnnotations [OF assms(1) kind])
qed

lemma keeps_restoreActions:
  assumes "ignores_patches f c k" and "\<forall>a \<in> set (ws_actions (win_spec win)). sa_kind a \<noteq> k"
  shows "keeps f (restoreActions E c win)"
proof -
  have loop: "keeps f (restore_loop E c gs)"
    if "\<forall>g \<in> set gs. g \<noteq> [] \<and> (\<forall>a \<in> set g. sa_kind a \<noteq> k)" for gs
    using that by (induction gs) (auto intro!: keeps_intros keeps_restore_group assms(1))
  have "\<forall>a \<in> set (map (with_namespace (win_namespace win)) (ws_actions (win_spec win))). sa_kind a \<noteq> k"
    using assms(2) by (auto simp: with_namespace_def)
  moreover have "set g \<subseteq> set (concat (groups_by r xs))" if "g \<in> set (groups_by r xs)" for g r and xs :: "ScaleAction list"
    using that by auto
  ultimately have "\<forall>g \<in> set (groups_by same_action_object (map (with_namespace (win_namespace win)) (ws_actions (win_spec win)))).
      g \<noteq> [] \<and> (\<forall>a \<in> set g. sa_kind a \<noteq> k)"
    using groups_by_member unfolding concat_groups_by by blast
  with loop show ?thesis by (simp add: restoreActions_def ScaleActions_def)
qed

lemma keeps_stampCooldown:
  assumes "ignores_patches f c k" and "\<forall>a \<in> set (ws_actions (win_spec win)). sa_kind a \<noteq> k"
  shows "keeps f (stampCooldown E c policy dep win until)"
proof -
  have "keeps f (stamp_loop E c ns anns acts)" if "\<forall>a \<in> set acts. sa_kind a \<noteq> k" for ns anns acts
    using that
    by (induction acts) (auto simp: Let_def actionTarget_def intro!: keeps_intros keeps_PatchAnnotations assms(1))
  with assms(2) show ?thesis by (auto simp: stampCooldown_def Let_def ScaleActions_def intro!: keeps_intros)
qed


section \<open>Writes to windows leave workloads alone\<close>

text \<open>The objects that are not windows, as the server holds them.\<close>

definition objects :: "'w client \<Rightarrow> 'w \<Rightarrow> gvk \<Rightarrow> string \<Rightarrow> string \<Rightarrow> (goerror + json) option" where
  "objects c w g ns n = (if snd (snd g) = window_kind then None else Some (Get_Unstructured c w g ns n))"

lemma keeps_window_writes:
  assumes "window_api_documented c"
  shows "keeps (objects c) (mutate (Patch_Window c base new))" and "keeps (objects c) (mutate (Update_WindowStatus c win))"
    and "keeps (objects c) (mutate (Create_Window c win))"
  using documented_other_kinds [OF assms] by (auto intro!: keeps_mutate simp: objects_def fun_eq_iff)

lemma objects_field_value:
  assumes "objects c w = objects c w'" and "tgt_kind t \<noteq> window_kind"
  shows "field_value E c w t = field_value E c w' t"
proof -
  have "Get_Unstructured c w g ns n = Get_Unstructured c w' g ns n" if "snd (snd g) \<noteq> window_kind" for g ns n
    using fun_cong [OF fun_cong [OF fun_cong [OF assms(1)]], of g ns n] that by (simp add: objects_def)
  then have "fb_get E c w t = fb_get E c w' t"
    using parse_kind [of E "tgt_apiVersion t" "tgt_kind t"] assms(2) by (auto simp: fb_get_def sum_bind_def split: sum.split)
  then show ?thesis by (simp add: field_value_def)
qed

lemma objects_field_updates:
  assumes "objects c w = objects c w'" and "\<forall>t \<in> T. tgt_kind t \<noteq> window_kind"
  shows "field_updates E c T (\<lambda>_ i. i) w w'"
proof -
  have "store_targets E c T \<subseteq> T" by (auto simp: store_targets_def)
  with objects_field_value [OF assms(1)] assms(2) show ?thesis unfolding fs.updates_def by (metis subsetD)
qed

lemma keeps_emitf [keeps_intros]: "keeps f (emitf c obj et reason msg)"
  by (simp add: keeps_def)

lemma keeps_applySpareStatus [keeps_intros]: "keeps f (applySpareStatus E win ready safe now)"
  by (simp add: keeps_def applySpareStatus_def Let_def)

lemma keeps_applyCapacityApplied [keeps_intros]: "keeps f (applyCapacityApplied E win err now)"
  by (simp add: keeps_def applyCapacityApplied_def Let_def)

lemma keeps_writeStatus:
  assumes "window_api_documented c"
  shows "keeps (objects c) (writeStatus E c win dep phase msg)"
  unfolding writeStatus_def by (intro keeps_intros keeps_window_writes [OF assms])


section \<open>The concrete cluster has the documented behaviour\<close>

lemma mem_find_window: "find (\<lambda>w. win_namespace w = win_namespace win \<and> win_name w = win_name win) ws = find (window_is win) ws"
  by (intro find_cong refl) (auto simp: window_is_def)

lemma mem_holds_iff: "holds mem_client m win \<longleftrightarrow> find (window_is win) (mc_windows m) = Some win"
  by (auto simp: holds_def mem_client_def or_not_found_def mem_find_window split: option.split)

lemma window_is_cong: "win_namespace v = win_namespace win \<Longrightarrow> win_name v = win_name win \<Longrightarrow> window_is v = window_is win"
  by (intro ext) (auto simp: window_is_def)

lemma find_map_put: "find (window_is win) ws = Some old \<Longrightarrow> window_is win new \<Longrightarrow>
    find (window_is win) (map (\<lambda>x. if window_is win x then new else x) ws) = Some new"
  by (induction ws) (auto split: if_splits)

lemma find_snoc: "(\<forall>y \<in> set xs. \<not> P y) \<Longrightarrow> P x \<Longrightarrow> find P (xs @ [x]) = Some x"
  by (induction xs) auto

lemma mem_put_window:
  assumes "holds mem_client m old" and "win_namespace win = win_namespace old" and "win_name win = win_name old"
    and "put_window win f m = (Inr r, m')" and "window_is old (f old)"
  shows "r = f old" and "holds mem_client m' r"
proof -
  have eq: "window_is win = window_is old" using assms(2,3) by (rule window_is_cong)
  with assms(1,4) show r: "r = f old" by (auto simp: mem_holds_iff put_window_def split: option.splits)
  have "window_is r = window_is old" using assms(5) r by (intro window_is_cong) (auto simp: window_is_def)
  moreover have "find (window_is old) (mc_windows m') = Some (f old)"
    using assms(1,4,5) eq find_map_put [of old "mc_windows m" old "f old"]
    by (auto simp: mem_holds_iff put_window_def)
  ultimately show "holds mem_client m' r" by (simp add: mem_holds_iff r)
qed

lemma mem_window_api: "window_api_documented mem_client"
  unfolding window_api_documented_def
proof (intro conjI allI impI)
  fix base new w r w'
  assume h: "holds mem_client w base" and n: "win_namespace new = win_namespace base" "win_name new = win_name base"
    and "win_finalizers new = win_finalizers base" and "Patch_Window mem_client base new w = (Inr r, w')"
  then have put: "put_window new (merge_window base new) w = (Inr r, w')"
    by (auto simp: mem_client_def finalize_window_def map_prod_def id_def split: prod.splits if_splits)
  have "window_is base (merge_window base new base)" by (simp add: window_is_def)
  note res = mem_put_window [OF h n put this]
  show "holds mem_client w' r" by (rule res(2))
  show "win_namespace r = win_namespace base" "win_name r = win_name base" "win_status r = win_status base"
    "win_labels r = win_labels new" "win_finalizers r = win_finalizers new"
    "(win_spec r)\<lparr>ws_windowUntil := None\<rparr> = (win_spec new)\<lparr>ws_windowUntil := None\<rparr>"
    by (simp_all add: res(1) n merge_window_def merge_window_spec_def differing_def)
  show "stored_time (ws_windowUntil (win_spec new)) (ws_windowUntil (win_spec r))"
    by (simp add: res(1) merge_window_def merge_window_spec_def differing_def stored_time_def second_def split: option.split)
next
  fix old win w r w'
  assume h: "holds mem_client w old" and n: "win_namespace win = win_namespace old" "win_name win = win_name old"
    and "Update_WindowStatus mem_client win w = (Inr r, w')"
  then have put: "put_window win (\<lambda>old. old\<lparr>win_status := win_status win\<rparr>) w = (Inr r, w')" by (simp add: mem_client_def split: if_splits)
  have "window_is old (old\<lparr>win_status := win_status win\<rparr>)" by (simp add: window_is_def)
  note res = mem_put_window [OF h n put this]
  show "holds mem_client w' r" by (rule res(2))
  show "win_namespace r = win_namespace old" "win_name r = win_name old" "win_spec r = win_spec old"
    "win_labels r = win_labels old" "win_finalizers r = win_finalizers old" "wst_phase (win_status r) = wst_phase (win_status win)"
    "wst_forcedCool (win_status r) = wst_forcedCool (win_status win)" "wst_spareReady (win_status r) = wst_spareReady (win_status win)"
    by (simp_all add: res(1))
next
  fix win w r w'
  assume "Create_Window mem_client win w = (Inr r, w')"
  then have new: "\<not> list_ex (window_is win) (mc_windows w)" and r: "r = win\<lparr>win_creationTimestamp := mc_now w, win_generation := 1, win_status := empty_status\<rparr>"
    and w': "mc_windows w' = mc_windows w @ [r]"
    by (auto simp: mem_client_def Let_def split: if_splits)
  have "find (window_is r) (mc_windows w @ [r]) = Some r"
    using new by (intro find_snoc) (auto simp: list_ex_iff r window_is_def)
  then show "holds mem_client w' r" by (simp add: mem_holds_iff w')
  show "win_namespace r = win_namespace win" "win_name r = win_name win" "win_labels r = win_labels win"
    "win_finalizers r = win_finalizers win" "(win_spec r)\<lparr>ws_windowUntil := None\<rparr> = (win_spec win)\<lparr>ws_windowUntil := None\<rparr>"
    by (simp_all add: r)
  show "stored_time (ws_windowUntil (win_spec win)) (ws_windowUntil (win_spec r))"
    by (simp add: r stored_time_def second_def split: option.split)
qed (auto simp: kinds_apart_def mem_client_def put_window_def finalize_window_def Let_def split: option.splits)

end
