(* ===== verification/Window_Refinement.thy ===== *)
theory Window_Refinement
  imports Window_Store
begin

text \<open>
  The window reconciler refines the clock machine of \<open>Window_Phase\<close>. \<open>machine_of\<close> is the
  abstraction: the phase, the cooldown clock and the forced-cool latch of a stored window.
  A reconcile of a live window that returns without error moves the stored window by one
  \<open>tick\<close>, so the theorems on runs of ticks hold of the controller.
\<close>


section \<open>Abstraction\<close>

definition machine_of :: "EvictionGuardWindow \<Rightarrow> machine" where
  "machine_of win =
     \<lparr>mach_phase = wst_phase (win_status win), mach_until = until_of win, mach_forced = wst_forcedCool (win_status win)\<rparr>"

text \<open>What a handler that works on a stored window may change of it: its status and its clock.\<close>

definition same_window :: "EvictionGuardWindow \<Rightarrow> EvictionGuardWindow \<Rightarrow> bool" where
  "same_window v w \<longleftrightarrow> win_namespace v = win_namespace w \<and> win_name v = win_name w \<and>
     (win_spec v)\<lparr>ws_windowUntil := None\<rparr> = (win_spec w)\<lparr>ws_windowUntil := None\<rparr>"

lemma same_window_refl [simp]: "same_window w w"
  by (simp add: same_window_def)

lemma same_window_trans: "same_window u v \<Longrightarrow> same_window v w \<Longrightarrow> same_window u w"
  by (simp add: same_window_def)

lemma same_window_spec:
  assumes "same_window v w"
  shows "ws_actions (win_spec v) = ws_actions (win_spec w)" and "ws_baseline (win_spec v) = ws_baseline (win_spec w)"
    and "ws_target (win_spec v) = ws_target (win_spec w)" and "ws_policyName (win_spec v) = ws_policyName (win_spec w)"
    and "ws_vulnerableNodes (win_spec v) = ws_vulnerableNodes (win_spec w)"
  using assms by (cases "win_spec v"; cases "win_spec w"; simp add: same_window_def)+


section \<open>Handlers on a stored window\<close>

text \<open>\<open>writeStatus\<close> is a status update, or nothing when nothing changed.\<close>

lemma writeStatus_run:
  assumes counts: "spareCounts E c (cluster s) win dep = Inr (ready, safe)"
  obtains t win1 msg' s1 where "win_spec win1 = win_spec win" and "win_namespace win1 = win_namespace win" and "win_name win1 = win_name win"
    and "wst_phase (win_status win1) = wst_phase (win_status win)" and "wst_forcedCool (win_status win1) = wst_forcedCool (win_status win)"
    and "cluster s1 = cluster s" and "run_state (writeStatus E c win dep phase msg) s =
      run_state (if wst_phase (win_status win1) = phase \<and> wst_message (win_status win1) = msg' \<and> \<not> t \<and>
          wst_readyReplicas (win_status win) = ready \<and> wst_safeReadyReplicas (win_status win) = safe
       then ok win1
       else mutate (Update_WindowStatus c (win1\<lparr>win_status := (win_status win1)\<lparr>wst_phase := phase, wst_message := msg'\<rparr>\<rparr>))) s1"
proof -
  obtain t win1 s1 where sp: "run_state (applySpareStatus E win ready safe (Now c (cluster s))) s = ((t, win1), s1)"
    by (metis prod.exhaust)
  note fr = applySpareStatus_frame [OF sp]
  define msg' where "msg' = (if capacityAppliedBlocked E (Some win1) \<and> (msg = msgWaitingSpare \<or> msg = msgNodesVulnerable)
    then applyErrorMessage E msg (Some win1) else msg)"
  have quiet: "\<exists>s3. run_state (if b then emitf c obj et reason detail else State_Monad.return ()) s2 = ((), s3) \<and> cluster s3 = cluster s2"
    for b obj et reason detail s2
    by (simp add: run_emitf)
  obtain s2 where e1: "run_state (if t \<and> wst_spareReady (win_status win1) \<and> \<not> wst_spareReady (win_status win)
      then emitf c (window_object win1) EventTypeNormal reasonSpareReady
        (''spare capacity Ready off vulnerable nodes'' @ spare_text safe (ws_baseline (win_spec win)))
      else State_Monad.return ()) s1 = ((), s2)" and c1: "cluster s2 = cluster s1"
    using quiet by blast
  obtain s3 where e2: "run_state (if t \<and> \<not> wst_spareReady (win_status win1)
      then emitf c (window_object win1) EventTypeNormal reasonSpareWait
        (''waiting for Ready pods off vulnerable nodes'' @ spare_text safe (ws_baseline (win_spec win)))
      else State_Monad.return ()) s2 = ((), s3)" and c2: "cluster s3 = cluster s2"
    using quiet by blast
  have "run_state (writeStatus E c win dep phase msg) s =
      run_state (if wst_phase (win_status win1) = phase \<and> wst_message (win_status win1) = msg' \<and> \<not> t \<and>
          wst_readyReplicas (win_status win) = ready \<and> wst_safeReadyReplicas (win_status win) = safe
       then ok win1
       else mutate (Update_WindowStatus c (win1\<lparr>win_status := (win_status win1)\<lparr>wst_phase := phase, wst_message := msg'\<rparr>\<rparr>))) s3"
    unfolding writeStatus_def
    by (simp only: run_and_then run_query counts sum.case prod.case run_state_bind sp Let_def e1 e2 msg'_def [symmetric])
  with fr c1 c2 show thesis using that [of win1 s3 msg' t] by simp
qed

lemma writeStatus_ok:
  assumes run: "run_state (writeStatus E c win dep phase msg) s = (Inr win', s')"
  obtains (unchanged) win1 where "win' = win1" and "cluster s' = cluster s" and "wst_phase (win_status win) = phase"
      and "win_spec win1 = win_spec win" and "win_namespace win1 = win_namespace win" and "win_name win1 = win_name win"
      and "wst_phase (win_status win1) = phase" and "wst_forcedCool (win_status win1) = wst_forcedCool (win_status win)"
  | (update) win1 where "Update_WindowStatus c win1 (cluster s) = (Inr win', cluster s')"
      and "win_namespace win1 = win_namespace win" and "win_name win1 = win_name win"
      and "wst_phase (win_status win1) = phase" and "wst_forcedCool (win_status win1) = wst_forcedCool (win_status win)"
proof -
  obtain ready safe where counts: "spareCounts E c (cluster s) win dep = Inr (ready, safe)"
    using run by (auto simp: writeStatus_def run_and_then split: sum.splits)
  show ?thesis
  proof (rule writeStatus_run [OF counts, of phase msg])
    fix t msg' s1 and win1 :: EvictionGuardWindow
    let ?w = "win1\<lparr>win_status := (win_status win1)\<lparr>wst_phase := phase, wst_message := msg'\<rparr>\<rparr>"
      and ?same = "wst_phase (win_status win1) = phase \<and> wst_message (win_status win1) = msg' \<and> \<not> t \<and>
          wst_readyReplicas (win_status win) = ready \<and> wst_safeReadyReplicas (win_status win) = safe"
    assume fr: "win_spec win1 = win_spec win" "win_namespace win1 = win_namespace win" "win_name win1 = win_name win"
        "wst_phase (win_status win1) = wst_phase (win_status win)" "wst_forcedCool (win_status win1) = wst_forcedCool (win_status win)"
        "cluster s1 = cluster s"
      and eq: "run_state (writeStatus E c win dep phase msg) s = run_state (if ?same then ok win1 else mutate (Update_WindowStatus c ?w)) s1"
    show ?thesis
    proof (cases ?same)
      case True
      with run eq fr show ?thesis by (intro unchanged [of win1]) auto
    next
      case False
      with run eq fr have "Update_WindowStatus c ?w (cluster s) = (Inr win', cluster s')" by (simp only: if_False) (auto simp: prod_eq_iff)
      with fr show ?thesis by (intro update [of ?w]) auto
    qed
  qed
qed

lemma writeStatus_succeeds:
  assumes "spareCounts E c (cluster s) win dep = Inr (ready, safe)"
    and "\<And>v. win_namespace v = win_namespace win \<Longrightarrow> win_name v = win_name win \<Longrightarrow> wst_phase (win_status v) = phase \<Longrightarrow> \<not> isl (fst (Update_WindowStatus c v (cluster s)))"
  shows "\<exists>win' s'. run_state (writeStatus E c win dep phase msg) s = (Inr win', s')"
proof (rule writeStatus_run [OF assms(1), of phase msg])
  fix t msg' s1 and win1 :: EvictionGuardWindow
  let ?w = "win1\<lparr>win_status := (win_status win1)\<lparr>wst_phase := phase, wst_message := msg'\<rparr>\<rparr>"
    and ?same = "wst_phase (win_status win1) = phase \<and> wst_message (win_status win1) = msg' \<and> \<not> t \<and>
          wst_readyReplicas (win_status win) = ready \<and> wst_safeReadyReplicas (win_status win) = safe"
  assume fr: "win_namespace win1 = win_namespace win" "win_name win1 = win_name win" "cluster s1 = cluster s"
    and eq: "run_state (writeStatus E c win dep phase msg) s = run_state (if ?same then ok win1 else mutate (Update_WindowStatus c ?w)) s1"
  have "\<not> isl (fst (Update_WindowStatus c ?w (cluster s)))" by (rule assms(2)) (simp_all add: fr)
  then obtain r where "fst (Update_WindowStatus c ?w (cluster s)) = Inr r" by (metis isl_def sum.exhaust)
  with eq fr(3) show ?thesis by (cases ?same) (simp_all only: if_True if_False run_ok run_mutate, auto)
qed

lemma writeStatus_stored:
  assumes doc: "window_api_documented c" and holds: "holds c (cluster s) win"
    and run: "run_state (writeStatus E c win dep phase msg) s = (Inr win', s')"
  obtains stored where "holds c (cluster s') stored" and "same_window stored win"
    and "machine_of stored = (machine_of win)\<lparr>mach_phase := phase\<rparr>"
  using run
proof (cases rule: writeStatus_ok)
  case (unchanged win1)
  with holds show ?thesis by (intro that [of win]) (auto simp: machine_of_def)
next
  case (update win1)
  note st = documented_status [OF doc holds update(2,3,1)]
  with update show ?thesis by (intro that [of win']) (auto simp: machine_of_def same_window_def until_of_def)
qed

lemma force_cool_stored:
  assumes doc: "window_api_documented c" and holds: "holds c (cluster s) win"
    and run: "run_state (force_cool c win policy b) s = (Inr win', s')"
  shows "holds c (cluster s') win' \<and> same_window win' win \<and>
     machine_of win' = (machine_of win)\<lparr>mach_forced := mach_forced (machine_of win) \<or> b\<rparr>"
proof (cases "b \<and> \<not> wst_forcedCool (win_status win)")
  case True
  let ?w = "win\<lparr>win_status := (win_status win)\<lparr>wst_forcedCool := True\<rparr>\<rparr>"
  have "Update_WindowStatus c ?w (cluster s) = (Inr win', cluster s')"
    using run True by (auto simp: force_cool_def Let_def run_emitf prod_eq_iff split: if_splits)
  from documented_status [OF doc holds _ _ this] True show ?thesis
    by (simp add: machine_of_def same_window_def until_of_def)
next
  case False
  with run holds show ?thesis by (auto simp: force_cool_def machine_of_def)
qed

lemma abortCooldown_stored:
  assumes doc: "window_api_documented c" and holds: "holds c (cluster s) win"
    and kinds: "\<forall>a \<in> set (ws_actions (win_spec win)). sa_kind a \<noteq> window_kind"
    and run: "run_state (abortCooldown E c win policy dep) s = (Inr win', s')"
  shows "holds c (cluster s') win' \<and> same_window win' win \<and> machine_of win' = (machine_of win)\<lparr>mach_until := 0\<rparr>"
proof (cases "ws_windowUntil (win_spec win) = None")
  case True
  with run holds show ?thesis by (auto simp: abortCooldown_def machine_of_def until_of_def)
next
  case False
  let ?w = "win\<lparr>win_spec := (win_spec win)\<lparr>ws_windowUntil := None\<rparr>\<rparr>"
  from run False obtain w1 where patch: "Patch_Window c win ?w (cluster s) = (Inr win', w1)"
    and stamp: "run_state (stampCooldown E c policy dep win' 0) (s\<lparr>cluster := w1\<rparr>) = (Inr (), s')"
    by (auto simp: abortCooldown_def run_and_then prod_eq_iff split: sum.splits prod.splits)
  note st = documented_patch [OF doc holds _ _ _ patch]
  have same: "same_window win' win" using st(2,3,8) by (simp add: same_window_def)
  have "keeps (Get_Window c) (stampCooldown E c policy dep win' 0)"
    using keeps_stampCooldown [OF documented_ignores [OF doc]] kinds same_window_spec(1) [OF same] by simp
  from keepsD [OF this stamp] st(1) have "holds c (cluster s') win'" by (simp add: holds_def)
  moreover have "ws_windowUntil (win_spec win') = None"
    using st(7) by (cases "ws_windowUntil (win_spec win')") (auto simp: stored_time_def)
  ultimately show ?thesis using same st(4) by (simp add: machine_of_def until_of_def)
qed

lemma begin_scale_back_elim:
  assumes run: "run_state (begin_scale_back E c win policy dep now b) s = (Inr d, s')"
  obtains u s1 win' s2 v s3 win'' where "run_state (scaleBackIfAllowed E c win) s = (Inr u, s1)"
    and "Patch_Window c win (win\<lparr>win_spec := (win_spec win)\<lparr>ws_windowUntil := Some (now + scaleBackAfter policy dep)\<rparr>\<rparr>) (cluster s1)
      = (Inr win', cluster s2)"
    and "run_state (stampCooldown E c policy dep win' (now + scaleBackAfter policy dep)) s2 = (Inr v, s3)"
    and "run_state (writeStatus E c win' dep WindowPhaseCooling (coolingMessage b (wst_forcedCool (win_status win')))) s3 = (Inr win'', s')"
proof -
  let ?w = "win\<lparr>win_spec := (win_spec win)\<lparr>ws_windowUntil := Some (now + scaleBackAfter policy dep)\<rparr>\<rparr>"
  from run obtain u s1 win' s2 v s3 win'' where "run_state (scaleBackIfAllowed E c win) s = (Inr u, s1)"
    and put: "run_state (mutate (Patch_Window c win ?w)) s1 = (Inr win', s2)"
    and "run_state (stampCooldown E c policy dep win' (now + scaleBackAfter policy dep)) s2 = (Inr v, s3)"
    and "run_state (writeStatus E c win' dep WindowPhaseCooling (coolingMessage b (wst_forcedCool (win_status win')))) s3 = (Inr win'', s')"
    unfolding begin_scale_back_def Let_def by (elim and_then_Inr_elim) simp
  moreover from put have "Patch_Window c win ?w (cluster s1) = (Inr win', cluster s2)" by (auto simp: prod_eq_iff)
  ultimately show thesis using that by blast
qed

lemma begin_scale_back_stored:
  assumes doc: "window_api_documented c" and holds: "holds c (cluster s) win"
    and kinds: "\<forall>a \<in> set (ws_actions (win_spec win)). sa_kind a \<noteq> window_kind"
    and run: "run_state (begin_scale_back E c win policy dep now b) s = (Inr d, s')"
  shows "\<exists>stored early. holds c (cluster s') stored \<and> same_window stored win \<and> 0 \<le> early \<and> early < second \<and>
     machine_of stored = (machine_of win)\<lparr>mach_phase := WindowPhaseCooling, mach_until := now + (scaleBackAfter policy dep - early)\<rparr>"
proof -
  let ?until = "now + scaleBackAfter policy dep"
  let ?w = "win\<lparr>win_spec := (win_spec win)\<lparr>ws_windowUntil := Some ?until\<rparr>\<rparr>"
  from run obtain u s1 win' s2 v s3 win'' where restored: "run_state (scaleBackIfAllowed E c win) s = (Inr u, s1)"
    and patch: "Patch_Window c win ?w (cluster s1) = (Inr win', cluster s2)"
    and stamp: "run_state (stampCooldown E c policy dep win' ?until) s2 = (Inr v, s3)"
    and wrote: "run_state (writeStatus E c win' dep WindowPhaseCooling (coolingMessage b (wst_forcedCool (win_status win')))) s3 = (Inr win'', s')"
    by (rule begin_scale_back_elim)
  have "keeps (Get_Window c) (scaleBackIfAllowed E c win)"
    unfolding scaleBackIfAllowed_def clear_window_metrics_def clearWorkloadPlanMetrics_def Let_def emitf_def
    by (intro keeps_intros keeps_restoreActions [OF documented_ignores [OF doc]] kinds)
  from keepsD [OF this restored] holds have holds1: "holds c (cluster s1) win" by (simp add: holds_def)
  note st = documented_patch [OF doc holds1 _ _ _ patch]
  have same: "same_window win' win" using st(2,3,8) by (simp add: same_window_def)
  have "keeps (Get_Window c) (stampCooldown E c policy dep win' ?until)"
    using keeps_stampCooldown [OF documented_ignores [OF doc]] kinds same_window_spec(1) [OF same] by simp
  from keepsD [OF this stamp] st(1) have holds3: "holds c (cluster s3) win'" by (simp add: holds_def)
  obtain stored where stored: "holds c (cluster s') stored" "same_window stored win'"
      "machine_of stored = (machine_of win')\<lparr>mach_phase := WindowPhaseCooling\<rparr>"
    using writeStatus_stored [OF doc holds3 wrote] by blast
  obtain got where got: "ws_windowUntil (win_spec win') = Some got" "got \<le> ?until" "?until < got + second"
    using st(7) by (cases "ws_windowUntil (win_spec win')") (auto simp: stored_time_def)
  have "machine_of win' = (machine_of win)\<lparr>mach_until := got\<rparr>" using st(4) got(1) by (simp add: machine_of_def until_of_def)
  with stored got(2,3) same_window_trans [OF stored(2) same] show ?thesis
    by (intro exI [of _ stored] exI [of _ "?until - got"]) simp
qed

text \<open>The decision carried out: the machine after the step, its cooldown shortened by the rounding of the wire format.\<close>

definition after_step :: "windowPhaseDecision \<Rightarrow> time \<Rightarrow> duration \<Rightarrow> machine \<Rightarrow> machine" where
  "after_step dec now cooldown m =
     (case Step dec of
        stepBeginScaleBack \<Rightarrow> m\<lparr>mach_phase := WindowPhaseCooling, mach_until := now + cooldown\<rparr>
      | stepStayCooling \<Rightarrow> m\<lparr>mach_phase := Phase dec\<rparr>
      | stepClose \<Rightarrow> m\<lparr>mach_phase := Phase dec\<rparr>
      | _ \<Rightarrow> m\<lparr>mach_phase := Phase dec, mach_until := 0\<rparr>)"

lemma tick_after_step:
  "tick b ob m = after_step (decideWindowStep (machine_input b m ob)) (obs_now ob) (obs_cooldown ob)
     (m\<lparr>mach_forced := mach_forced m \<or> obs_exceeded ob\<rparr>)"
  by (simp add: tick_def after_step_def Let_def)

lemma decide_open_aborts:
  "Step (decideWindowStep i) \<in> {stepStayOpenVulnerable, stepStayOpenWaitingSpare} \<Longrightarrow> AbortCooldown (decideWindowStep i)"
  by (auto simp: decideWindowStep_def Let_def split: if_splits)

definition stored_as :: "'w client \<Rightarrow> 'w \<Rightarrow> EvictionGuardWindow \<Rightarrow> machine \<Rightarrow> bool" where
  "stored_as c w win m \<longleftrightarrow> (\<exists>stored. holds c w stored \<and> same_window stored win \<and> machine_of stored = m)"

lemma perform_open:
  assumes doc: "window_api_documented c" and holds: "holds c (cluster s) win"
    and kinds: "\<forall>a \<in> set (ws_actions (win_spec win)). sa_kind a \<noteq> window_kind"
    and run: "run_state (and_then (abortCooldown E c win policy dep) (\<lambda>win'.
      and_then (writeStatus E c win' dep phase msg) (\<lambda>win''. ok (openRequeue policy win'' now)))) s = (Inr d, s')"
  shows "stored_as c (cluster s') win ((machine_of win)\<lparr>mach_phase := phase, mach_until := 0\<rparr>)"
proof -
  from run obtain win' s1 win'' where abort: "run_state (abortCooldown E c win policy dep) s = (Inr win', s1)"
    and wrote: "run_state (writeStatus E c win' dep phase msg) s1 = (Inr win'', s')"
    by (elim and_then_Inr_elim) simp
  note ab = abortCooldown_stored [OF doc holds kinds abort]
  obtain stored where "holds c (cluster s') stored" "same_window stored win'" "machine_of stored = (machine_of win')\<lparr>mach_phase := phase\<rparr>"
    using writeStatus_stored [OF doc _ wrote] ab by blast
  with ab show ?thesis unfolding stored_as_def
    by (intro exI [of _ stored]) (auto intro: same_window_trans)
qed

lemma perform_stored:
  assumes doc: "window_api_documented c" and holds: "holds c (cluster s) win"
    and kinds: "\<forall>a \<in> set (ws_actions (win_spec win)). sa_kind a \<noteq> window_kind"
    and run: "run_state (perform E c win policy dep now b until (decideWindowStep i)) s = (Inr d, s')"
  shows "\<exists>early. 0 \<le> early \<and> early < second \<and>
     (Step (decideWindowStep i) = stepClose \<and> \<not> RetainClosed (decideWindowStep i) \<or>
      stored_as c (cluster s') win (after_step (decideWindowStep i) now (scaleBackAfter policy dep - early) (machine_of win)))"
proof -
  let ?dec = "decideWindowStep i"
  have zero: "0 \<le> (0::duration) \<and> 0 < second" by (simp add: second_def)
  have wrote: "stored_as c (cluster s') win ((machine_of win)\<lparr>mach_phase := phase\<rparr>)"
    if "run_state (writeStatus E c win dep phase msg) s = (Inr win', s')" for phase msg win'
    using writeStatus_stored [OF doc holds that] unfolding stored_as_def by metis
  show ?thesis
  proof (cases "Step ?dec")
    case stepBeginScaleBack
    with run have "run_state (begin_scale_back E c win policy dep now b) s = (Inr d, s')" by (simp add: perform_def)
    from begin_scale_back_stored [OF doc holds kinds this] stepBeginScaleBack show ?thesis
      by (auto simp: after_step_def stored_as_def)
  next
    case stepStayCooling
    with run obtain win' where "run_state (writeStatus E c win dep (Phase ?dec) (Message ?dec)) s = (Inr win', s')"
      by (auto simp: perform_def elim: and_then_Inr_elim)
    from wrote [OF this] zero stepStayCooling show ?thesis by (auto simp: after_step_def)
  next
    case stepClose
    show ?thesis
    proof (cases "RetainClosed ?dec")
      case True
      with stepClose run obtain win' where "run_state (writeStatus E c win dep (Phase ?dec) (Message ?dec)) s = (Inr win', s')"
        by (auto simp: perform_def elim: and_then_Inr_elim)
      from wrote [OF this] zero stepClose show ?thesis by (auto simp: after_step_def)
    qed (use stepClose zero in blast)
  next
    case stepStayOpenVulnerable
    with run decide_open_aborts [of i] perform_open [OF doc holds kinds] zero show ?thesis
      by (simp add: perform_def after_step_def) blast
  next
    case stepStayOpenWaitingSpare
    with run decide_open_aborts [of i] perform_open [OF doc holds kinds] zero show ?thesis
      by (simp add: perform_def after_step_def) blast
  qed
qed

lemma liveAtRisk_loop_nonneg:
  "liveAtRisk_loop E c w f p pods cache dying k = Inr (n, ns) \<Longrightarrow> 0 \<le> k \<Longrightarrow> 0 \<le> n"
  by (induction pods arbitrary: cache dying k) (auto simp: sum_bind_eq_Inr_iff split: if_splits prod.splits)

lemma liveAtRiskPods_nonneg: "liveAtRiskPods E c w win p dep = Inr (n, ns) \<Longrightarrow> 0 \<le> n"
  by (auto simp: liveAtRiskPods_def sum_bind_eq_Inr_iff split: option.splits prod.splits dest: liveAtRisk_loop_nonneg)

text \<open>What one reconcile observes of the cluster.\<close>

definition observes ::
  "env \<Rightarrow> 'w client \<Rightarrow> 'w \<Rightarrow> EvictionGuardWindow \<Rightarrow> EvictionGuardPolicy \<Rightarrow> Deployment option \<Rightarrow> observation \<Rightarrow> bool" where
  "observes E c w win policy dep ob \<longleftrightarrow>
     obs_now ob = Now c w \<and> obs_exceeded ob = maxWindowExceeded (Some policy) (Some win) (Now c w) \<and>
     (\<exists>names. liveAtRiskPods E c w (Some win) (Some policy) dep = Inr (int (obs_atRisk ob), names)) \<and>
     (obs_exceeded ob \<or> obs_atRisk ob \<noteq> 0 \<or> (\<exists>ready. spareCounts E c w win dep = Inr (ready, obs_safeReady ob))) \<and>
     obs_cooldown ob \<le> scaleBackAfter policy dep \<and> scaleBackAfter policy dep < obs_cooldown ob + second"

lemma decide_close_retains:
  "Step (decideWindowStep i) = stepClose \<Longrightarrow> RetainClosed (decideWindowStep i) \<longleftrightarrow> ForcedCool i"
  by (auto simp: decideWindowStep_def Let_def split: if_splits)

lemma reconcile_decide_elim:
  assumes run: "run_state (reconcile_decide E c win policy dep) s = (Inr d, s')" and b: "b = maxWindowExceeded (Some policy) (Some win) (Now c (cluster s))"
  obtains k names win1 s1 safe where "liveAtRiskPods E c (cluster s) (Some win) (Some policy) dep = Inr (k, names)"
    and "run_state (force_cool c win policy b) s = (Inr win1, s1)"
    and "if \<not> b \<and> k = 0 then \<exists>ready. spareCounts E c (cluster s) win dep = Inr (ready, safe) else safe = ws_baseline (win_spec win1)"
    and "run_state (perform E c win1 policy dep (Now c (cluster s)) b (until_of win1)
          (decideWindowStep \<lparr>LiveAtRisk = k, ForceCool = b, ForcedCool = wst_forcedCool (win_status win1),
             SafeReady = safe, Baseline = ws_baseline (win_spec win1), WindowUntil = until_of win1, InputNow = Now c (cluster s)\<rparr>)) s1 = (Inr d, s')"
proof -
  from run obtain k names where live: "liveAtRiskPods E c (cluster s) (Some win) (Some policy) dep = Inr (k, names)"
    by (auto simp: reconcile_decide_def run_and_then split: sum.splits)
  from run live obtain win1 s1 where forced: "run_state (force_cool c win policy b) s = (Inr win1, s1)"
    by (auto simp: reconcile_decide_def run_and_then Let_def b split: sum.splits prod.splits)
  have same: "win1 = win \<and> s1 = s" if "\<not> b" using forced that by (simp add: force_cool_def)
  show thesis
  proof (cases "\<not> b \<and> k = 0")
    case True
    with run live forced same obtain ready safe where "spareCounts E c (cluster s) win dep = Inr (ready, safe)"
      by (auto simp: reconcile_decide_def run_and_then Let_def b sum_bind_def split: sum.splits)
    with True run live forced same show thesis
      by (intro that [OF live forced, of safe]) (simp_all add: reconcile_decide_def run_and_then Let_def b)
  next
    case False
    with run live forced show thesis
      by (intro that [OF live forced, of "ws_baseline (win_spec win1)"]) (auto simp: reconcile_decide_def run_and_then Let_def b split: if_splits)
  qed
qed

lemma reconcile_decide_refines:
  assumes doc: "window_api_documented c" and holds: "holds c (cluster s) win"
    and kinds: "\<forall>a \<in> set (ws_actions (win_spec win)). sa_kind a \<noteq> window_kind"
    and run: "run_state (reconcile_decide E c win policy dep) s = (Inr d, s')"
  shows "\<exists>ob. observes E c (cluster s) win policy dep ob \<and>
     (let m = tick (ws_baseline (win_spec win)) ob (machine_of win) in
      mach_phase m = WindowPhaseClosed \<and> \<not> mach_forced m \<or> stored_as c (cluster s') win m)"
proof -
  let ?now = "Now c (cluster s)" and ?base = "ws_baseline (win_spec win)"
  define b where "b = maxWindowExceeded (Some policy) (Some win) ?now"
  obtain k names win1 s1 safe where live: "liveAtRiskPods E c (cluster s) (Some win) (Some policy) dep = Inr (k, names)"
    and forced: "run_state (force_cool c win policy b) s = (Inr win1, s1)"
    and safe: "if \<not> b \<and> k = 0 then \<exists>ready. spareCounts E c (cluster s) win dep = Inr (ready, safe) else safe = ws_baseline (win_spec win1)"
    and perf: "run_state (perform E c win1 policy dep ?now b (until_of win1)
          (decideWindowStep \<lparr>LiveAtRisk = k, ForceCool = b, ForcedCool = wst_forcedCool (win_status win1),
             SafeReady = safe, Baseline = ws_baseline (win_spec win1), WindowUntil = until_of win1, InputNow = ?now\<rparr>)) s1 = (Inr d, s')"
    using reconcile_decide_elim [OF run b_def] by metis
  note fc = force_cool_stored [OF doc holds forced]
  have kinds1: "\<forall>a \<in> set (ws_actions (win_spec win1)). sa_kind a \<noteq> window_kind"
    and base: "ws_baseline (win_spec win1) = ?base"
    using kinds same_window_spec [of win1 win] fc by auto
  obtain early where early: "0 \<le> early" "early < second" and step:
     "let dec = decideWindowStep \<lparr>LiveAtRisk = k, ForceCool = b, ForcedCool = wst_forcedCool (win_status win1),
             SafeReady = safe, Baseline = ?base, WindowUntil = until_of win1, InputNow = ?now\<rparr>
      in Step dec = stepClose \<and> \<not> RetainClosed dec \<or>
      stored_as c (cluster s') win1 (after_step dec ?now (scaleBackAfter policy dep - early) (machine_of win1))"
    using perform_stored [OF doc _ kinds1 perf] fc unfolding base Let_def by blast
  define ob where "ob = \<lparr>obs_now = ?now, obs_atRisk = nat k, obs_safeReady = safe, obs_exceeded = b,
     obs_cooldown = scaleBackAfter policy dep - early\<rparr>"
  have k: "0 \<le> k" using liveAtRiskPods_nonneg [OF live] .
  have obs: "observes E c (cluster s) win policy dep ob"
    using live k safe early unfolding observes_def ob_def b_def [symmetric] by (auto split: if_splits)
  have until: "until_of win1 = mach_until (machine_of win)" "wst_forcedCool (win_status win1) \<longleftrightarrow> mach_forced (machine_of win) \<or> b"
    using fc by (auto simp: machine_of_def)
  have input: "\<lparr>LiveAtRisk = k, ForceCool = b, ForcedCool = wst_forcedCool (win_status win1),
             SafeReady = safe, Baseline = ?base, WindowUntil = until_of win1, InputNow = ?now\<rparr> = machine_input ?base (machine_of win) ob"
    using k safe base until by (simp add: machine_input_def ob_def split: if_splits)
  let ?dec = "decideWindowStep (machine_input ?base (machine_of win) ob)"
  have tick: "tick ?base ob (machine_of win) = after_step ?dec ?now (scaleBackAfter policy dep - early) (machine_of win1)"
    unfolding tick_after_step using fc by (simp add: ob_def)
  have same: "stored_as c (cluster s') win1 m \<Longrightarrow> stored_as c (cluster s') win m" for m
    using fc same_window_trans unfolding stored_as_def by blast
  have closed: "mach_phase (tick ?base ob (machine_of win)) = WindowPhaseClosed \<and> \<not> mach_forced (tick ?base ob (machine_of win))"
    if "Step ?dec = stepClose" "\<not> RetainClosed ?dec"
    using that decide_close_retains [OF that(1)] unfolding tick_after_step
    by (auto simp: after_step_def machine_input_def ob_def decideWindowStep_def Let_def split: if_splits)
  from step [unfolded input Let_def] same closed tick obs show ?thesis unfolding Let_def by metis
qed


section \<open>Properties\<close>

text \<open>
  C14. The window reconciler implements the clock machine. A reconcile of a stored window
  that is not being deleted, has its finalizer, its policy and its Deployment, and is not a
  retained tombstone, when it returns no error, has moved the stored window by exactly one
  tick of the machine for what it observed at its start (the time, the live at-risk pods,
  the ready pods off the recorded nodes, an exceeded maximum, a cooldown that the wire
  format shortens by less than a second); nothing but status and clock of the window has
  changed, and only a closed window that was not forced may be gone from the server.
\<close>

theorem window_reconcile_refines_tick:
  assumes "window_api_documented c" and "holds c (cluster s) win"
    and "time_is_zero (win_deletionTimestamp win)" and "ContainsFinalizer E (win_finalizers win) WindowFinalizer"
    and "Get_Policy c (cluster s) (ws_policyName (win_spec win)) = Inr policy"
    and "wr_kind (ws_target (win_spec win)) = ''Deployment''"
    and "Get_Deployment c (cluster s) (wr_namespace (ws_target (win_spec win))) (wr_name (ws_target (win_spec win))) = Inr dep"
    and "\<not> (wst_phase (win_status win) = WindowPhaseClosed \<and> wst_forcedCool (win_status win))"
    and "\<forall>a \<in> set (ws_actions (win_spec win)). sa_kind a \<noteq> window_kind"
    and "run_state (window_reconcile E c (win_namespace win) (win_name win)) s = (Inr d, s')"
  shows "\<exists>ob. observes E c (cluster s) win policy (Some dep) ob \<and>
     (let m = tick (ws_baseline (win_spec win)) ob (machine_of win) in
      mach_phase m = WindowPhaseClosed \<and> \<not> mach_forced m \<or> stored_as c (cluster s') win m)"
proof -
  have "run_state (window_reconcile E c (win_namespace win) (win_name win)) s = run_state (reconcile_decide E c win policy (Some dep)) s"
    using assms(2-8) by (auto simp: window_reconcile_def holds_def reconcile_window_def reconcile_target_def Let_def)
  with assms(10) have "run_state (reconcile_decide E c win policy (Some dep)) s = (Inr d, s')" by simp
  from reconcile_decide_refines [OF assms(1,2,9) this] show ?thesis .
qed

lemma web_live_count:
  "\<exists>names. liveAtRiskPods std_env mem_client (web_cluster r ns) (Some win) (Some cordon_policy) (Some plain_deployment) = Inr (2, names)"
proof -
  obtain f where f: "FromSpec std_env (spec_nodeFilter (pol_spec cordon_policy)) = Inr f"
    by (auto simp: FromSpec_def empty_node_filter_def cordon_policy_def plain_policy_def)
  have "\<forall>pod \<in> set [web_pod ''web-1'', web_pod ''web-2'']. \<not> isl (lookup_node mem_client (web_cluster r ns) (pod_nodeName pod))"
    using web_lookup_node by (simp add: web_pod_def)
  with liveAtRisk_loop_spec [OF f _ node_memo.coherent_Nil, of "[web_pod ''web-1'', web_pod ''web-2'']" mem_client "web_cluster r ns" "[]" 0]
  obtain dying where "liveAtRisk_loop std_env mem_client (web_cluster r ns) f cordon_policy [web_pod ''web-1'', web_pod ''web-2''] [] [] 0 =
      Inr (0 + int (length (filter (live_at_risk std_env mem_client (web_cluster r ns) cordon_policy) [web_pod ''web-1'', web_pod ''web-2''])), dying)"
    by auto
  then show ?thesis by (simp add: liveAtRiskPods_def f web_workload_pods web_live_at_risk del: liveAtRisk_loop.simps)
qed

lemma web_gets:
  "Get_Window mem_client (web_cluster r ns) ''shop'' (win_name (web_window r ns)) = Inr (web_window r ns)"
  "Get_Policy mem_client (web_cluster r ns) ''p'' = Inr cordon_policy"
  "Get_Deployment mem_client (web_cluster r ns) ''shop'' ''web'' = Inr plain_deployment" "Now mem_client (web_cluster r ns) = 2 * hour"
  by (simp_all add: mem_client_def web_cluster_def web_window_def cordon_policy_def plain_policy_def plain_deployment_def)

lemma web_window_facts:
  "win_namespace (web_window r ns) = ''shop''" "time_is_zero (win_deletionTimestamp (web_window r ns))"
  "ContainsFinalizer std_env (win_finalizers (web_window r ns)) WindowFinalizer" "ws_actions (win_spec (web_window r ns)) = []"
  "ws_policyName (win_spec (web_window r ns)) = ''p''" "wr_kind (ws_target (win_spec (web_window r ns))) = ''Deployment''"
  "wr_namespace (ws_target (win_spec (web_window r ns))) = ''shop''" "wr_name (ws_target (win_spec (web_window r ns))) = ''web''"
  "wst_phase (win_status (web_window r ns)) = WindowPhaseOpen" "ws_windowUntil (win_spec (web_window r ns)) = None"
  by (simp_all add: web_window_def std_env_def time_is_zero_def)

lemma web_not_exceeded: "\<not> maxWindowExceeded (Some cordon_policy) (Some (web_window r ns)) (Now mem_client (web_cluster r' ns'))"
  by (simp add: maxWindowExceeded_iff MaxWindowOrDefault_def cordon_policy_def plain_policy_def windowOpenedAt_def web_window_def web_gets(4)
      empty_status_def time_is_zero_def DefaultMaxWindow_def hour_def minute_def second_def)

lemma web_reconcile_runs:
  "\<exists>d s'. run_state (window_reconcile std_env mem_client ''shop'' (win_name (web_window True [''ip-7''])))
     \<lparr>cluster = web_cluster True [''ip-7''], log = []\<rparr> = (Inr d, s')"
proof -
  let ?c = "web_cluster True [''ip-7'']" and ?win = "web_window True [''ip-7'']"
  obtain names where live: "liveAtRiskPods std_env mem_client ?c (Some ?win) (Some cordon_policy) (Some plain_deployment) = Inr (2, names)"
    using web_live_count by blast
  have "run_state (window_reconcile std_env mem_client ''shop'' (win_name ?win)) \<lparr>cluster = ?c, log = []\<rparr> =
      run_state (and_then (writeStatus std_env mem_client ?win (Some plain_deployment) WindowPhaseOpen msgNodesVulnerable)
        (\<lambda>win''. ok (openRequeue cordon_policy win'' (2 * hour)))) \<lparr>cluster = ?c, log = []\<rparr>"
    using live web_gets [of True "[''ip-7'']"] web_window_facts [of True "[''ip-7'']"] web_not_exceeded [of True "[''ip-7'']" True "[''ip-7'']"]
    by (simp add: window_reconcile_def reconcile_window_def reconcile_target_def reconcile_decide_def run_and_then force_cool_def
        perform_def decideWindowStep_def abortCooldown_def)
  moreover have "\<exists>win' s'. run_state (writeStatus std_env mem_client ?win (Some plain_deployment) WindowPhaseOpen msgNodesVulnerable)
      \<lparr>cluster = ?c, log = []\<rparr> = (Inr win', s')"
  proof (rule writeStatus_succeeds [of _ _ _ _ _ 0 0])
    show "spareCounts std_env mem_client (cluster \<lparr>cluster = ?c, log = []\<rparr>) ?win (Some plain_deployment) = Inr (0, 0)"
      by (simp add: spareCounts_def web_items) (simp add: podReady_def web_pod_def)
  next
    fix v :: EvictionGuardWindow
    assume "win_namespace v = win_namespace ?win" "win_name v = win_name ?win" "wst_phase (win_status v) = WindowPhaseOpen"
    then show "\<not> isl (fst (Update_WindowStatus mem_client v (cluster \<lparr>cluster = ?c, log = []\<rparr>)))"
      by (simp add: mem_client_def put_window_def web_cluster_def window_is_def)
  qed
  ultimately show ?thesis by (auto simp: run_and_then)
qed

theorem window_reconcile_refines_tick_witness:
  "\<exists>d s' m. run_state (window_reconcile std_env mem_client ''shop'' (win_name (web_window True [''ip-7''])))
       \<lparr>cluster = web_cluster True [''ip-7''], log = []\<rparr> = (Inr d, s') \<and>
     stored_as mem_client (cluster s') (web_window True [''ip-7'']) m \<and> mach_phase m = WindowPhaseOpen"
proof -
  let ?c = "web_cluster True [''ip-7'']" and ?win = "web_window True [''ip-7'']"
  obtain d s' where run: "run_state (window_reconcile std_env mem_client ''shop'' (win_name ?win)) \<lparr>cluster = ?c, log = []\<rparr> = (Inr d, s')"
    using web_reconcile_runs by blast
  let ?s = "\<lparr>cluster = ?c, log = [] :: effect list\<rparr>"
  have "\<exists>ob. observes std_env mem_client (cluster ?s) ?win cordon_policy (Some plain_deployment) ob \<and>
     (let m = tick (ws_baseline (win_spec ?win)) ob (machine_of ?win) in
      mach_phase m = WindowPhaseClosed \<and> \<not> mach_forced m \<or> stored_as mem_client (cluster s') ?win m)"
    by (rule window_reconcile_refines_tick [OF mem_window_api, where s = ?s and d = d])
      (use run in \<open>simp_all add: holds_def web_gets web_window_facts\<close>)
  then obtain ob where ob: "observes std_env mem_client ?c ?win cordon_policy (Some plain_deployment) ob" and
    m: "let m = tick (ws_baseline (win_spec ?win)) ob (machine_of ?win) in
      mach_phase m = WindowPhaseClosed \<and> \<not> mach_forced m \<or> stored_as mem_client (cluster s') ?win m" by auto
  obtain names where "liveAtRiskPods std_env mem_client ?c (Some ?win) (Some cordon_policy) (Some plain_deployment) = Inr (2, names)"
    using web_live_count by blast
  with ob web_not_exceeded [of True "[''ip-7'']" True "[''ip-7'']"] have "obs_atRisk ob = 2 \<and> \<not> obs_exceeded ob"
    by (simp add: observes_def)
  then have "mach_phase (tick (ws_baseline (win_spec ?win)) ob (machine_of ?win)) = WindowPhaseOpen"
    by (simp add: tick_cases calm_def Let_def)
  with run m show ?thesis by (auto simp: Let_def)
qed

definition orphan_cluster :: "string list \<Rightarrow> memory" where
  "orphan_cluster finalizers = (web_cluster True [])\<lparr>mc_deployments := [], mc_windows := [(web_window True [])\<lparr>win_finalizers := finalizers\<rparr>]\<rparr>"

definition orphan_step :: "(memory, effect) sys \<Rightarrow> (memory, effect) sys" where
  "orphan_step s = snd (run_state (window_reconcile std_env mem_client ''shop'' (win_name (web_window True []))) s)"

lemma orphan_runs:
  "cluster s = orphan_cluster [WindowFinalizer] \<Longrightarrow> \<exists>d t.
     run_state (window_reconcile std_env mem_client ''shop'' (win_name (web_window True []))) s = (Inr d, t) \<and> cluster t = orphan_cluster []"
  "cluster s = orphan_cluster [] \<Longrightarrow> \<exists>d t.
     run_state (window_reconcile std_env mem_client ''shop'' (win_name (web_window True []))) s = (Inr d, t) \<and> cluster t = orphan_cluster [WindowFinalizer]"
proof -
  let ?win = "\<lambda>fs. (web_window True [])\<lparr>win_finalizers := fs\<rparr>"
  have get: "Get_Window mem_client (orphan_cluster fs) ''shop'' (win_name (web_window True [])) = Inr (?win fs)"
      "Get_Policy mem_client (orphan_cluster fs) ''p'' = Inr cordon_policy"
      "Get_Deployment mem_client (orphan_cluster fs) ''shop'' ''web'' = Inl not_found" for fs
    by (simp_all add: orphan_cluster_def mem_client_def web_cluster_def web_window_def cordon_policy_def plain_policy_def)
  have fin: "ContainsFinalizer std_env fs f \<longleftrightarrow> f \<in> set fs" "AddFinalizer std_env [] f = [f]" "RemoveFinalizer std_env [f] f = []" for fs f
    by (simp_all add: std_env_def)
  have put: "Patch_Window mem_client (?win fs) (?win fs') (orphan_cluster fs) = (Inr (?win fs'), orphan_cluster fs')" for fs fs'
    using merge_window_held(3) [of "?win fs" fs'] web_window_facts(2) [of True "[]"]
    by (simp add: mem_client_def put_window_def finalize_window_def orphan_cluster_def window_is_def time_is_zero_def web_window_def)
  show "\<exists>d t. run_state (window_reconcile std_env mem_client ''shop'' (win_name (web_window True []))) s = (Inr d, t) \<and>
      cluster t = orphan_cluster []" if "cluster s = orphan_cluster [WindowFinalizer]"
    using that put [of "[WindowFinalizer]" "[]"]
    by (simp add: window_reconcile_def get reconcile_window_def web_window_facts fin scaleBackAndClose_def scaleBackAndUnfinalize_def
        restoreActions_def ScaleActions_def remove_window_finalizer_def run_and_then clear_window_metrics_def clearWorkloadPlanMetrics_def Let_def)
  show "\<exists>d t. run_state (window_reconcile std_env mem_client ''shop'' (win_name (web_window True []))) s = (Inr d, t) \<and>
      cluster t = orphan_cluster [WindowFinalizer]" if "cluster s = orphan_cluster []"
    using that put [of "[]" "[WindowFinalizer]"]
    by (simp add: window_reconcile_def get reconcile_window_def web_window_facts fin run_and_then)
qed

lemma orphan_steps:
  "cluster s = orphan_cluster [WindowFinalizer] \<Longrightarrow> cluster (orphan_step s) = orphan_cluster []"
  "cluster s = orphan_cluster [] \<Longrightarrow> cluster (orphan_step s) = orphan_cluster [WindowFinalizer]"
  using orphan_runs [of s] by (auto simp: orphan_step_def)

lemma orphan_succeeds:
  "cluster s = orphan_cluster (if b then [WindowFinalizer] else []) \<Longrightarrow>
     \<exists>d t. run_state (window_reconcile std_env mem_client ''shop'' (win_name (web_window True []))) s = (Inr d, t)"
  using orphan_runs [of s] by (cases b) auto

text \<open>A patch of the finalizers of a window that is not being deleted changes nothing else of it.\<close>

definition finalizer_patch_documented :: "'w client \<Rightarrow> bool" where
  "finalizer_patch_documented c \<longleftrightarrow>
     (\<forall>base fs w r w'. holds c w base \<longrightarrow> win_deletionTimestamp base = None \<longrightarrow>
        Patch_Window c base (base\<lparr>win_finalizers := fs\<rparr>) w = (Inr r, w') \<longrightarrow>
        holds c w' r \<and> win_namespace r = win_namespace base \<and> win_name r = win_name base \<and> win_spec r = win_spec base \<and>
        win_status r = win_status base \<and> win_deletionTimestamp r = win_deletionTimestamp base \<and> set (win_finalizers r) = set fs)"

lemma mem_finalizer_patch: "finalizer_patch_documented mem_client"
  unfolding finalizer_patch_documented_def
proof (intro allI impI)
  fix base fs w r w'
  assume held: "holds mem_client w base" and zero: "win_deletionTimestamp base = None"
    and patch: "Patch_Window mem_client base (base\<lparr>win_finalizers := fs\<rparr>) w = (Inr r, w')"
  let ?new = "base\<lparr>win_finalizers := fs\<rparr>"
  have put: "put_window ?new (merge_window base ?new) w = (Inr r, w')"
    using patch zero by (auto simp: mem_client_def finalize_window_def map_prod_def id_def split: prod.splits if_splits)
  have same: "win_namespace ?new = win_namespace base" "win_name ?new = win_name base" by simp_all
  have "window_is base (merge_window base ?new base)" by (simp add: window_is_def)
  note res = mem_put_window [OF held same put this]
  moreover have "merge_window base ?new base = ?new" by simp
  ultimately show "holds mem_client w' r \<and> win_namespace r = win_namespace base \<and> win_name r = win_name base \<and> win_spec r = win_spec base \<and>
        win_status r = win_status base \<and> win_deletionTimestamp r = win_deletionTimestamp base \<and> set (win_finalizers r) = set fs"
    by simp
qed

text \<open>The window has lost its policy, or its target.\<close>

definition orphaned :: "'w client \<Rightarrow> 'w \<Rightarrow> EvictionGuardWindow \<Rightarrow> bool" where
  "orphaned c w win \<longleftrightarrow>
     (case Get_Policy c w (ws_policyName (win_spec win)) of
        Inl e \<Rightarrow> IsNotFound e
      | Inr _ \<Rightarrow> wr_kind (ws_target (win_spec win)) \<in> {[], ''Deployment''} \<and>
          (case Get_Deployment c w (wr_namespace (ws_target (win_spec win))) (wr_name (ws_target (win_spec win))) of
             Inl e \<Rightarrow> IsNotFound e | Inr _ \<Rightarrow> False))"

lemma orphan_reconcile:
  assumes "finalizer_patch_documented c" and "finalizers_documented E" and "ignores_patches (Get_Window c) c window_kind"
    and "holds c (cluster s) win" and "win_deletionTimestamp win = None" and "orphaned c (cluster s) win"
    and "\<forall>a \<in> set (ws_actions (win_spec win)). sa_kind a \<noteq> window_kind"
    and "run_state (window_reconcile E c (win_namespace win) (win_name win)) s = (Inr d, t)"
  shows "\<exists>v. holds c (cluster t) v \<and> win_namespace v = win_namespace win \<and> win_name v = win_name win \<and> win_spec v = win_spec win \<and>
     win_status v = win_status win \<and> win_deletionTimestamp v = win_deletionTimestamp win \<and>
     (WindowFinalizer \<in> set (win_finalizers v) \<longleftrightarrow> WindowFinalizer \<notin> set (win_finalizers win))"
proof -
  have fin: "ContainsFinalizer E fs f \<longleftrightarrow> f \<in> set fs" "set (AddFinalizer E fs f) = insert f (set fs)"
    "set (RemoveFinalizer E fs f) = set fs - {f}" for fs f
    using assms(2) by (simp_all add: finalizers_documented_def)
  have patched: "\<exists>v. holds c w' v \<and> win_namespace v = win_namespace win \<and> win_name v = win_name win \<and> win_spec v = win_spec win \<and>
     win_status v = win_status win \<and> win_deletionTimestamp v = win_deletionTimestamp win \<and>
     (WindowFinalizer \<in> set (win_finalizers v) \<longleftrightarrow> WindowFinalizer \<in> set fs)"
    if "holds c w win" "Patch_Window c win (win\<lparr>win_finalizers := fs\<rparr>) w = (Inr r, w')" for w r w' fs
    using assms(1) [unfolded finalizer_patch_documented_def, rule_format, OF that(1) assms(5) that(2)] by blast
  have live: "time_is_zero (win_deletionTimestamp win)" using assms(5) by (simp add: time_is_zero_def)
  have run: "run_state (reconcile_window E c win) s = (Inr d, t)"
    using assms(4,8) by (simp add: window_reconcile_def holds_def)
  show ?thesis
  proof (cases "WindowFinalizer \<in> set (win_finalizers win)")
    case False
    then obtain r where "Patch_Window c win (win\<lparr>win_finalizers := AddFinalizer E (win_finalizers win) WindowFinalizer\<rparr>) (cluster s) = (Inr r, cluster t)"
      using run live by (auto simp: reconcile_window_def fin run_and_then prod_eq_iff split: sum.splits)
    from patched [OF assms(4) this] False fin(2) show ?thesis by simp
  next
    case True
    have "run_state (scaleBackAndUnfinalize E c win) s = (Inr d, t)"
      using run live assms(6) True
      by (auto simp: reconcile_window_def fin(1) orphaned_def scaleBackAndClose_def Let_def split: sum.splits if_splits)
    moreover obtain r0 s0 where restored: "run_state (restoreActions E c win) s = (r0, s0)" by fastforce
    ultimately obtain r where patch: "Patch_Window c win
        (win\<lparr>win_finalizers := RemoveFinalizer E (win_finalizers win) WindowFinalizer\<rparr>) (cluster s0) = (Inr r, cluster t)"
      using True
      by (auto simp: scaleBackAndUnfinalize_def clear_window_metrics_def remove_window_finalizer_def run_and_then prod_eq_iff fin(1)
          split: sum.splits prod.splits if_splits)
    from keepsD [OF keeps_restoreActions [OF assms(3,7)] restored] assms(4) have "holds c (cluster s0) win" by (simp add: holds_def)
    from patched [OF this patch] True fin(3) show ?thesis by simp
  qed
qed

text \<open>
  C19. A window whose Deployment (or policy) was deleted is never closed. Take any sequence
  of states in which each is reached from the one before by a reconcile of the window that
  returns no error, followed by changes that leave this window alone, and in all of which
  the target is missing. Then the window stays on the server for ever with its spec and its
  status, so it is neither closed nor deleted; the reconciles remove its finalizer (after
  the restore) and add it again in turn.
\<close>

theorem orphaned_window_never_closes:
  assumes "finalizer_patch_documented c" and "finalizers_documented E" and "ignores_patches (Get_Window c) c window_kind"
    and "holds c (cluster (\<sigma> 0)) win" and "win_deletionTimestamp win = None" and "WindowFinalizer \<in> set (win_finalizers win)"
    and "\<forall>a \<in> set (ws_actions (win_spec win)). sa_kind a \<noteq> window_kind"
    and "\<forall>n. orphaned c (cluster (\<sigma> n)) win"
    and "\<forall>n. \<exists>d t. run_state (window_reconcile E c (win_namespace win) (win_name win)) (\<sigma> n) = (Inr d, t) \<and>
       Get_Window c (cluster (\<sigma> (Suc n))) (win_namespace win) (win_name win) = Get_Window c (cluster t) (win_namespace win) (win_name win)"
  shows "\<exists>v. Get_Window c (cluster (\<sigma> n)) (win_namespace win) (win_name win) = Inr v \<and> win_spec v = win_spec win \<and>
     win_status v = win_status win \<and> win_deletionTimestamp v = None \<and> (WindowFinalizer \<in> set (win_finalizers v) \<longleftrightarrow> even n)"
proof -
  have "\<exists>v. holds c (cluster (\<sigma> n)) v \<and> win_namespace v = win_namespace win \<and> win_name v = win_name win \<and> win_spec v = win_spec win \<and>
     win_status v = win_status win \<and> win_deletionTimestamp v = win_deletionTimestamp win \<and>
     (WindowFinalizer \<in> set (win_finalizers v) \<longleftrightarrow> even n)"
  proof (induction n)
    case 0
    with assms(4,6) show ?case by auto
  next
    case (Suc n)
    then obtain v where v: "holds c (cluster (\<sigma> n)) v" "win_namespace v = win_namespace win" "win_name v = win_name win"
      "win_spec v = win_spec win" "win_status v = win_status win" "win_deletionTimestamp v = win_deletionTimestamp win"
      "WindowFinalizer \<in> set (win_finalizers v) \<longleftrightarrow> even n" by blast
    obtain d t where t: "run_state (window_reconcile E c (win_namespace win) (win_name win)) (\<sigma> n) = (Inr d, t)"
      "Get_Window c (cluster (\<sigma> (Suc n))) (win_namespace win) (win_name win) = Get_Window c (cluster t) (win_namespace win) (win_name win)"
      using assms(9) by blast
    have "orphaned c (cluster (\<sigma> n)) v" using assms(8) unfolding orphaned_def v(4) by blast
    from orphan_reconcile [OF assms(1-3) v(1) _ this] v assms(5,7) t(1)
    obtain u where u: "holds c (cluster t) u" "win_namespace u = win_namespace win" "win_name u = win_name win" "win_spec u = win_spec win"
      "win_status u = win_status win" "win_deletionTimestamp u = win_deletionTimestamp win"
      "WindowFinalizer \<in> set (win_finalizers u) \<longleftrightarrow> odd n" by auto
    with t(2) show ?case by (intro exI [of _ u]) (simp add: holds_def)
  qed
  with assms(5) show ?thesis unfolding holds_def by metis
qed

definition orphan_run :: "nat \<Rightarrow> (memory, effect) sys" where
  "orphan_run n = (orphan_step ^^ n) \<lparr>cluster = orphan_cluster [WindowFinalizer], log = []\<rparr>"

lemma orphan_run_cluster: "cluster (orphan_run n) = orphan_cluster (if even n then [WindowFinalizer] else [])"
  by (induction n) (auto simp: orphan_run_def orphan_steps)

theorem orphaned_window_never_closes_witness:
  "\<forall>n. \<exists>v. Get_Window mem_client (cluster (orphan_run n)) ''shop'' (win_name (web_window True [])) = Inr v \<and>
     wst_phase (win_status v) = WindowPhaseOpen \<and> (WindowFinalizer \<in> set (win_finalizers v) \<longleftrightarrow> even n)"
proof
  fix n
  let ?win = "(web_window True [])\<lparr>win_finalizers := [WindowFinalizer]\<rparr>"
  have facts: "win_namespace ?win = ''shop''" "win_name ?win = win_name (web_window True [])" "wst_phase (win_status ?win) = WindowPhaseOpen"
    "win_deletionTimestamp ?win = None" "ws_actions (win_spec ?win) = []"
    using web_window_facts [of True "[]"] by (simp_all add: web_window_def)
  have start: "holds mem_client (cluster (orphan_run 0)) ?win"
    by (simp add: orphan_run_cluster orphan_cluster_def holds_def mem_client_def web_window_def)
  have lost: "\<forall>n. orphaned mem_client (cluster (orphan_run n)) ?win"
    by (simp add: orphan_run_cluster orphan_cluster_def orphaned_def mem_client_def web_window_facts web_cluster_def cordon_policy_def plain_policy_def)
  have runs: "\<forall>n. \<exists>d t. run_state (window_reconcile std_env mem_client (win_namespace ?win) (win_name ?win)) (orphan_run n) = (Inr d, t) \<and>
       Get_Window mem_client (cluster (orphan_run (Suc n))) (win_namespace ?win) (win_name ?win) =
       Get_Window mem_client (cluster t) (win_namespace ?win) (win_name ?win)"
  proof
    fix n
    have "orphan_run (Suc n) = snd (run_state (window_reconcile std_env mem_client (win_namespace ?win) (win_name ?win)) (orphan_run n))"
      by (simp add: orphan_run_def orphan_step_def facts(1))
    moreover have "\<exists>d t. run_state (window_reconcile std_env mem_client (win_namespace ?win) (win_name ?win)) (orphan_run n) = (Inr d, t)"
      using orphan_succeeds [OF orphan_run_cluster] by (simp add: facts(1,2))
    ultimately show "\<exists>d t. run_state (window_reconcile std_env mem_client (win_namespace ?win) (win_name ?win)) (orphan_run n) = (Inr d, t) \<and>
       Get_Window mem_client (cluster (orphan_run (Suc n))) (win_namespace ?win) (win_name ?win) =
       Get_Window mem_client (cluster t) (win_namespace ?win) (win_name ?win)" by auto
  qed
  have ignores: "ignores_patches (Get_Window mem_client) mem_client window_kind" by (rule documented_ignores [OF mem_window_api])
  from orphaned_window_never_closes [OF mem_finalizer_patch std_env_finalizers ignores start facts(4) _ _ lost runs, of n]
  show "\<exists>v. Get_Window mem_client (cluster (orphan_run n)) ''shop'' (win_name (web_window True [])) = Inr v \<and>
     wst_phase (win_status v) = WindowPhaseOpen \<and> (WindowFinalizer \<in> set (win_finalizers v) \<longleftrightarrow> even n)"
    using facts by auto
qed

end
