(* ===== verification/Policy_Workloads.thy ===== *)
theory Policy_Workloads
  imports Evict_Gate
begin

text \<open>
  The first half of \<open>internal/controller/policy_controller.go\<close>: from the vulnerable nodes
  of a policy to the workloads that it has to scale. \<open>collectWorkloads\<close> walks the pods of
  these nodes with three caches (owner by replica set, labels by namespace, ownership by
  deployment). \<open>count_pods\<close> is the same walk without caches; the walk with caches equals it
  on clusters whose objects carry the names they are stored under. The maps of the Go code
  are association lists; the set of nodes of a workload is the list of its keys.
\<close>


section \<open>Definitions\<close>

record workloadState =
  wl_deploy :: Deployment
  wl_atRisk :: int
  wl_nodes :: "string list"

definition podsOnNode :: "'w client \<Rightarrow> 'w \<Rightarrow> string \<Rightarrow> goerror + Pod list" where
  "podsOnNode c w nodeName = List_PodsByNode c w nodeName"

definition namespaceLabels ::
  "'w client \<Rightarrow> 'w \<Rightarrow> string \<Rightarrow> (string, strmap) gomap \<Rightarrow> goerror + strmap \<times> (string, strmap) gomap" where
  "namespaceLabels c w nsName cache =
     (case map_of cache nsName of
        Some cached \<Rightarrow> Inr (cached, cache)
      | None \<Rightarrow> sum_bind (NamespaceLabels c w nsName) (\<lambda>labels. Inr (labels, AList.update nsName labels cache)))"

fun controlling_replicaset :: "OwnerReference list \<Rightarrow> string" where
  "controlling_replicaset [] = []"
| "controlling_replicaset (oo # refs) =
     (if or_kind oo = ''ReplicaSet'' \<and> or_controller oo = Some True then or_name oo else controlling_replicaset refs)"

definition owner_key :: "Pod \<Rightarrow> string" where
  "owner_key pod = pod_namespace pod @ ''/'' @ controlling_replicaset (pod_ownerReferences pod)"

definition ownerDeploymentCached ::
  "'w client \<Rightarrow> 'w \<Rightarrow> Pod \<Rightarrow> (string, Deployment option) gomap \<Rightarrow>
   goerror + Deployment option \<times> (string, Deployment option) gomap" where
  "ownerDeploymentCached c w pod cache =
     (if controlling_replicaset (pod_ownerReferences pod) = [] then Inr (None, cache)
      else case map_of cache (owner_key pod) of
        Some dep \<Rightarrow> Inr (dep, cache)
      | None \<Rightarrow> sum_bind (OwnerDeployment c w (Some pod)) (\<lambda>dep. Inr (dep, AList.update (owner_key pod) dep cache)))"

definition workloadProtected :: "Deployment option \<Rightarrow> Pod option \<Rightarrow> bool" where
  "workloadProtected dep pod =
     (case pod of
        None \<Rightarrow> False
      | Some p \<Rightarrow>
          if mget (pod_labels p) ProtectedLabel \<noteq> ''true'' then False
          else (case dep of None \<Rightarrow> False | Some d \<Rightarrow> mget (dep_templateLabels d) ProtectedLabel = ''true''))"

definition deployment_key :: "Deployment \<Rightarrow> string" where
  "deployment_key dep = dep_namespace dep @ ''/'' @ dep_name dep"

record collect_caches =
  cc_ns :: "(string, strmap) gomap"
  cc_ownerByRS :: "(string, Deployment option) gomap"
  cc_ownsByDep :: "(string, bool) gomap"

text \<open>The entry of a workload, created on its first pod, and one more pod at risk on a node.\<close>

definition add_at_risk :: "string \<Rightarrow> Deployment \<Rightarrow> (string, workloadState) gomap \<Rightarrow> (string, workloadState) gomap" where
  "add_at_risk node dep out =
     (let st = (case map_of out (deployment_key dep) of
            Some st \<Rightarrow> st
          | None \<Rightarrow> \<lparr>wl_deploy = dep, wl_atRisk = 0, wl_nodes = []\<rparr>)
      in AList.update (deployment_key dep)
           (st\<lparr>wl_atRisk := int32 (wl_atRisk st + 1), wl_nodes := List.insert node (wl_nodes st)\<rparr>) out)"

definition owns_cached ::
  "env \<Rightarrow> 'w client \<Rightarrow> 'w \<Rightarrow> EvictionGuardPolicy \<Rightarrow> EvictionGuardPolicy list \<Rightarrow> Pod \<Rightarrow> Deployment \<Rightarrow> collect_caches \<Rightarrow>
   goerror + bool \<times> collect_caches" where
  "owns_cached E c w policy all pod dep cc =
     (case map_of (cc_ownsByDep cc) (deployment_key dep) of
        Some owns \<Rightarrow> Inr (owns, cc)
      | None \<Rightarrow>
          sum_bind (namespaceLabels c w (pod_namespace pod) (cc_ns cc)) (\<lambda>(nsLabels, ns').
            let owns = Owns E (Some policy) (Some dep) nsLabels (map Some all) in
            Inr (owns, cc\<lparr>cc_ns := ns', cc_ownsByDep := AList.update (deployment_key dep) owns (cc_ownsByDep cc)\<rparr>)))"

fun collect_pods ::
  "env \<Rightarrow> 'w client \<Rightarrow> 'w \<Rightarrow> EvictionGuardPolicy \<Rightarrow> EvictionGuardPolicy list \<Rightarrow> string \<Rightarrow> Pod list \<Rightarrow> collect_caches \<Rightarrow>
   (string, workloadState) gomap \<Rightarrow> goerror + collect_caches \<times> (string, workloadState) gomap" where
  "collect_pods E c w policy all node [] cc out = Inr (cc, out)"
| "collect_pods E c w policy all node (pod # pods) cc out =
     (if pod_deletionTimestamp pod \<noteq> None then collect_pods E c w policy all node pods cc out
      else sum_bind (ownerDeploymentCached c w pod (cc_ownerByRS cc)) (\<lambda>(owner, rs').
        let cc1 = cc\<lparr>cc_ownerByRS := rs'\<rparr> in
        case owner of
          None \<Rightarrow> collect_pods E c w policy all node pods cc1 out
        | Some dep \<Rightarrow>
            if \<not> workloadProtected (Some dep) (Some pod) then collect_pods E c w policy all node pods cc1 out
            else sum_bind (owns_cached E c w policy all pod dep cc1) (\<lambda>(owns, cc2).
              collect_pods E c w policy all node pods cc2 (if owns then add_at_risk node dep out else out))))"

fun collect_nodes ::
  "env \<Rightarrow> 'w client \<Rightarrow> 'w \<Rightarrow> EvictionGuardPolicy \<Rightarrow> EvictionGuardPolicy list \<Rightarrow> Node list \<Rightarrow> collect_caches \<Rightarrow>
   (string, workloadState) gomap \<Rightarrow> goerror + (string, workloadState) gomap" where
  "collect_nodes E c w policy all [] cc out = Inr out"
| "collect_nodes E c w policy all (n # vulnerable) cc out =
     sum_bind (podsOnNode c w (node_name n)) (\<lambda>pods.
     sum_bind (collect_pods E c w policy all (node_name n) pods cc out) (\<lambda>(cc', out').
       collect_nodes E c w policy all vulnerable cc' out'))"

definition collectWorkloads ::
  "env \<Rightarrow> 'w client \<Rightarrow> 'w \<Rightarrow> EvictionGuardPolicy \<Rightarrow> Node list \<Rightarrow> goerror + (string, workloadState) gomap" where
  "collectWorkloads E c w policy vulnerable =
     sum_bind (List_Policies c w) (\<lambda>all.
       collect_nodes E c w policy all vulnerable \<lparr>cc_ns = [], cc_ownerByRS = [], cc_ownsByDep = []\<rparr> [])"

definition sortedWorkloadKeys :: "(string, workloadState) gomap \<Rightarrow> string list" where
  "sortedWorkloadKeys m = sort (mkeys m)"

definition workloadRef :: "Deployment \<Rightarrow> WorkloadReference" where
  "workloadRef dep =
     \<lparr>wr_apiVersion = ''apps/v1'', wr_kind = ''Deployment'', wr_name = dep_name dep, wr_namespace = dep_namespace dep\<rparr>"

text \<open>The node loop of \<open>Reconcile\<close>: the filtered nodes and, of these, the vulnerable ones.\<close>

fun match_nodes ::
  "env \<Rightarrow> specFilter \<Rightarrow> EvictionGuardPolicy \<Rightarrow> Node list \<Rightarrow> Node list \<Rightarrow> Node list \<Rightarrow> goerror + Node list \<times> Node list" where
  "match_nodes E fil policy [] matched vulnerable = Inr (matched, vulnerable)"
| "match_nodes E fil policy (n # nodes) matched vulnerable =
     sum_bind (Matches fil (Some n)) (\<lambda>ok.
       if \<not> ok then match_nodes E fil policy nodes matched vulnerable
       else match_nodes E fil policy nodes (matched @ [n])
         (if Vulnerable (registry E) n (Some policy) then vulnerable @ [n] else vulnerable))"


section \<open>Specification\<close>

text \<open>The deployment that a pod puts at risk for the policy, without caches.\<close>

definition pod_workload ::
  "env \<Rightarrow> 'w client \<Rightarrow> 'w \<Rightarrow> EvictionGuardPolicy \<Rightarrow> EvictionGuardPolicy list \<Rightarrow> Pod \<Rightarrow> goerror + Deployment option" where
  "pod_workload E c w policy all pod =
     (if pod_deletionTimestamp pod \<noteq> None then Inr None
      else sum_bind (OwnerDeployment c w (Some pod)) (\<lambda>owner.
        case owner of
          None \<Rightarrow> Inr None
        | Some dep \<Rightarrow>
            if \<not> workloadProtected (Some dep) (Some pod) then Inr None
            else sum_bind (NamespaceLabels c w (pod_namespace pod)) (\<lambda>labels.
              Inr (if Owns E (Some policy) (Some dep) labels (map Some all) then Some dep else None))))"

fun count_pods ::
  "env \<Rightarrow> 'w client \<Rightarrow> 'w \<Rightarrow> EvictionGuardPolicy \<Rightarrow> EvictionGuardPolicy list \<Rightarrow> string \<Rightarrow> Pod list \<Rightarrow>
   (string, workloadState) gomap \<Rightarrow> goerror + (string, workloadState) gomap" where
  "count_pods E c w policy all node [] out = Inr out"
| "count_pods E c w policy all node (pod # pods) out =
     sum_bind (pod_workload E c w policy all pod) (\<lambda>d.
       count_pods E c w policy all node pods (case d of None \<Rightarrow> out | Some dep \<Rightarrow> add_at_risk node dep out))"

fun count_nodes ::
  "env \<Rightarrow> 'w client \<Rightarrow> 'w \<Rightarrow> EvictionGuardPolicy \<Rightarrow> EvictionGuardPolicy list \<Rightarrow> Node list \<Rightarrow>
   (string, workloadState) gomap \<Rightarrow> goerror + (string, workloadState) gomap" where
  "count_nodes E c w policy all [] out = Inr out"
| "count_nodes E c w policy all (n # vulnerable) out =
     sum_bind (podsOnNode c w (node_name n)) (\<lambda>pods.
     sum_bind (count_pods E c w policy all (node_name n) pods out) (\<lambda>out'.
       count_nodes E c w policy all vulnerable out'))"

text \<open>
  What Kubernetes guarantees of its objects: a deployment carries the name it is stored
  under, namespaces contain no slash, owner references have names and at most one of them is
  the controller.
\<close>

definition named_deployments :: "'w client \<Rightarrow> 'w \<Rightarrow> bool" where
  "named_deployments c w \<longleftrightarrow>
     (\<forall>ns n d. Get_Deployment c w ns n = Inr d \<longrightarrow> dep_namespace d = ns \<and> dep_name d = n)"

definition pod_ok :: "Pod \<Rightarrow> bool" where
  "pod_ok pod \<longleftrightarrow> CHR ''/'' \<notin> set (pod_namespace pod) \<and> list_all (\<lambda>r. or_name r \<noteq> []) (pod_ownerReferences pod) \<and>
     length (filter (\<lambda>r. or_controller r = Some True) (pod_ownerReferences pod)) \<le> 1"


definition pods_ok :: "'w client \<Rightarrow> 'w \<Rightarrow> bool" where
  "pods_ok c w \<longleftrightarrow> (\<forall>n pods. podsOnNode c w n = Inr pods \<longrightarrow> list_all pod_ok pods)"


section \<open>The caches\<close>

lemma slash_split:
  "CHR ''/'' \<notin> set a \<Longrightarrow> CHR ''/'' \<notin> set a' \<Longrightarrow> a @ CHR ''/'' # b = a' @ CHR ''/'' # b' \<longleftrightarrow> a = a' \<and> b = b'"
proof (induction a arbitrary: a')
  case Nil
  then show ?case by (cases a') auto
next
  case (Cons x a)
  then show ?case by (cases a') auto
qed

lemma controls_iff: "controls kind r \<longleftrightarrow> or_kind r = kind \<and> or_controller r = Some True"
  by (auto simp: controls_def)

lemma no_controller_no_owner:
  "filter (\<lambda>r. or_controller r = Some True) refs = [] \<Longrightarrow> replicaset_loop c w ns refs = Inr None"
  by (induction refs) (auto simp: controls_iff split: if_splits)

definition owner_by_name :: "'w client \<Rightarrow> 'w \<Rightarrow> string \<Rightarrow> string \<Rightarrow> goerror + Deployment option" where
  "owner_by_name c w ns rs =
     (if rs = [] then Inr None
      else case Get_ReplicaSet c w ns rs of
        Inl e \<Rightarrow> nil_or_error e
      | Inr x \<Rightarrow> (case deployment_loop c w ns (rs_ownerReferences x) of Some res \<Rightarrow> res | None \<Rightarrow> Inr None))"

lemma replicaset_loop_by_name:
  assumes "list_all (\<lambda>r. or_name r \<noteq> []) refs" and "length (filter (\<lambda>r. or_controller r = Some True) refs) \<le> 1"
  shows "replicaset_loop c w ns refs = owner_by_name c w ns (controlling_replicaset refs)"
  using assms
proof (induction refs)
  case (Cons r refs)
  show ?case
  proof (cases "controls ''ReplicaSet'' r")
    case True
    with Cons.prems have "filter (\<lambda>r. or_controller r = Some True) refs = []" by (simp add: controls_iff)
    with True Cons.prems show ?thesis
      by (auto simp: owner_by_name_def controls_iff no_controller_no_owner split: sum.split option.split)
  next
    case False
    with Cons show ?thesis by (auto simp: controls_iff split: if_splits)
  qed
qed (simp add: owner_by_name_def)

lemma OwnerDeployment_by_name:
  "pod_ok pod \<Longrightarrow> OwnerDeployment c w (Some pod) = owner_by_name c w (pod_namespace pod) (controlling_replicaset (pod_ownerReferences pod))"
  by (simp add: OwnerDeployment_def pod_ok_def replicaset_loop_by_name)

lemma owner_key_inj:
  "pod_ok p \<Longrightarrow> pod_ok q \<Longrightarrow> owner_key p = owner_key q \<longleftrightarrow>
     pod_namespace p = pod_namespace q \<and> controlling_replicaset (pod_ownerReferences p) = controlling_replicaset (pod_ownerReferences q)"
  by (simp add: owner_key_def pod_ok_def slash_split)

definition has_replicaset :: "Pod \<Rightarrow> bool" where
  "has_replicaset pod \<longleftrightarrow> pod_ok pod \<and> controlling_replicaset (pod_ownerReferences pod) \<noteq> []"

interpretation owner_memo: memo_table has_replicaset owner_key "\<lambda>pod. OwnerDeployment c w (Some pod)"
    "\<lambda>cache pod. ownerDeploymentCached c w pod cache" for c w
  by unfold_locales
    (auto simp: has_replicaset_def ownerDeploymentCached_def OwnerDeployment_by_name owner_key_inj)

interpretation ns_memo: memo_table "\<lambda>_. True" "\<lambda>n. n" "NamespaceLabels c w" "\<lambda>cache n. namespaceLabels c w n cache" for c w
  by unfold_locales (auto simp: namespaceLabels_def)

text \<open>
  The ownership cache is keyed by the deployment and filled from a pod: its queries are the
  pods together with the deployment that owns them.
\<close>

definition owned_pod :: "'w client \<Rightarrow> 'w \<Rightarrow> Pod \<times> Deployment \<Rightarrow> bool" where
  "owned_pod c w = (\<lambda>(pod, dep). pod_ok pod \<and> named_deployments c w \<and> OwnerDeployment c w (Some pod) = Inr (Some dep))"

definition owns_query ::
  "env \<Rightarrow> 'w client \<Rightarrow> 'w \<Rightarrow> EvictionGuardPolicy \<Rightarrow> EvictionGuardPolicy list \<Rightarrow> Pod \<times> Deployment \<Rightarrow> goerror + bool" where
  "owns_query E c w policy all = (\<lambda>(pod, dep).
     sum_bind (NamespaceLabels c w (pod_namespace pod)) (\<lambda>labels. Inr (Owns E (Some policy) (Some dep) labels (map Some all))))"

definition owns_fetch ::
  "env \<Rightarrow> 'w client \<Rightarrow> 'w \<Rightarrow> EvictionGuardPolicy \<Rightarrow> EvictionGuardPolicy list \<Rightarrow> (string, bool) gomap \<Rightarrow> Pod \<times> Deployment \<Rightarrow>
   goerror + bool \<times> (string, bool) gomap" where
  "owns_fetch E c w policy all m q =
     (case map_of m (deployment_key (snd q)) of
        Some owns \<Rightarrow> Inr (owns, m)
      | None \<Rightarrow> sum_bind (owns_query E c w policy all q) (\<lambda>owns. Inr (owns, AList.update (deployment_key (snd q)) owns m)))"

lemma owned_pod_names:
  assumes "owned_pod c w (pod, dep)"
  shows "Get_Deployment c w (pod_namespace pod) (dep_name dep) = Inr dep" and "dep_namespace dep = pod_namespace pod"
proof -
  obtain n where "Get_Deployment c w (pod_namespace pod) n = Inr dep"
    using assms OwnerDeployment_found [of c w pod dep] by (auto simp: owned_pod_def)
  moreover from this have "dep_namespace dep = pod_namespace pod \<and> dep_name dep = n"
    using assms by (simp add: owned_pod_def named_deployments_def)
  ultimately show "Get_Deployment c w (pod_namespace pod) (dep_name dep) = Inr dep" and "dep_namespace dep = pod_namespace pod"
    by simp_all
qed

lemma deployment_key_determines:
  assumes "owned_pod c w (pod, dep)" and "owned_pod c w (pod', dep')" and "deployment_key dep = deployment_key dep'"
  shows "dep = dep' \<and> pod_namespace pod = pod_namespace pod'"
proof -
  note n = owned_pod_names [OF assms(1)] owned_pod_names [OF assms(2)]
  have "CHR ''/'' \<notin> set (pod_namespace pod)" "CHR ''/'' \<notin> set (pod_namespace pod')"
    using assms(1,2) by (simp_all add: owned_pod_def pod_ok_def)
  with assms(3) n(2,4) have "pod_namespace pod = pod_namespace pod' \<and> dep_name dep = dep_name dep'"
    by (simp add: deployment_key_def slash_split)
  with n(1,3) show ?thesis by (metis sum.inject(2))
qed

interpretation owns_memo: memo_table "owned_pod c w" "\<lambda>q. deployment_key (snd q)" "owns_query E c w policy all"
    "owns_fetch E c w policy all" for E c w policy all
proof
  fix q q' assume "owned_pod c w q" "owned_pod c w q'" "deployment_key (snd q) = deployment_key (snd q')"
  then show "owns_query E c w policy all q = owns_query E c w policy all q'"
    using deployment_key_determines [of c w "fst q" "snd q" "fst q'" "snd q'"]
    by (simp add: owns_query_def case_prod_beta)
qed (auto simp: owns_fetch_def)

definition coherent_caches ::
  "env \<Rightarrow> 'w client \<Rightarrow> 'w \<Rightarrow> EvictionGuardPolicy \<Rightarrow> EvictionGuardPolicy list \<Rightarrow> collect_caches \<Rightarrow> bool" where
  "coherent_caches E c w policy all cc \<longleftrightarrow>
     memo_table.coherent (\<lambda>_. True) (\<lambda>n. n) (NamespaceLabels c w) (cc_ns cc) \<and>
     memo_table.coherent has_replicaset owner_key (\<lambda>pod. OwnerDeployment c w (Some pod)) (cc_ownerByRS cc) \<and>
     memo_table.coherent (owned_pod c w) (\<lambda>q. deployment_key (snd q)) (owns_query E c w policy all) (cc_ownsByDep cc)"

lemma owner_cached_spec:
  assumes "memo_table.coherent has_replicaset owner_key (\<lambda>pod. OwnerDeployment c w (Some pod)) cache" and "pod_ok pod"
  shows "case OwnerDeployment c w (Some pod) of
       Inl e \<Rightarrow> ownerDeploymentCached c w pod cache = Inl e
     | Inr d \<Rightarrow> \<exists>cache'. ownerDeploymentCached c w pod cache = Inr (d, cache') \<and>
         memo_table.coherent has_replicaset owner_key (\<lambda>pod. OwnerDeployment c w (Some pod)) cache'"
proof (cases "has_replicaset pod")
  case True
  show ?thesis
  proof (cases "OwnerDeployment c w (Some pod)")
    case (Inl e)
    with owner_memo.fetch_err_iff [OF assms(1) True] show ?thesis by simp
  next
    case (Inr d)
    with owner_memo.fetch_of_compute [OF assms(1) True Inr] show ?thesis by simp
  qed
next
  case False
  with assms show ?thesis
    by (simp add: has_replicaset_def ownerDeploymentCached_def OwnerDeployment_by_name owner_by_name_def)
qed

lemma owns_cached_spec:
  assumes "coherent_caches E c w policy all cc" and "owned_pod c w (pod, dep)"
  shows "case owns_query E c w policy all (pod, dep) of
       Inl e \<Rightarrow> owns_cached E c w policy all pod dep cc = Inl e
     | Inr b \<Rightarrow> \<exists>cc'. owns_cached E c w policy all pod dep cc = Inr (b, cc') \<and> coherent_caches E c w policy all cc'"
proof (cases "map_of (cc_ownsByDep cc) (deployment_key dep)")
  case (Some b)
  then have "owns_query E c w policy all (pod, dep) = Inr b"
    using assms owns_memo.coherent_def [of c w E policy all "cc_ownsByDep cc"] by (fastforce simp: coherent_caches_def)
  with Some assms(1) show ?thesis by (simp add: owns_cached_def)
next
  case None
  have ns: "memo_table.coherent (\<lambda>_. True) (\<lambda>n. n) (NamespaceLabels c w) (cc_ns cc)"
    using assms(1) by (simp add: coherent_caches_def)
  show ?thesis
  proof (cases "NamespaceLabels c w (pod_namespace pod)")
    case (Inl e)
    then have "namespaceLabels c w (pod_namespace pod) (cc_ns cc) = Inl e" using ns_memo.fetch_err_iff [OF ns] by simp
    with Inl None show ?thesis by (simp add: owns_cached_def owns_query_def)
  next
    case (Inr labels)
    let ?owns = "Owns E (Some policy) (Some dep) labels (map Some all)"
    obtain m where m: "namespaceLabels c w (pod_namespace pod) (cc_ns cc) = Inr (labels, m)"
        "memo_table.coherent (\<lambda>_. True) (\<lambda>n. n) (NamespaceLabels c w) m"
      using ns_memo.fetch_of_compute [OF ns _ Inr] by auto
    have q: "owns_query E c w policy all (pod, dep) = Inr ?owns" using Inr by (simp add: owns_query_def)
    have "memo_table.coherent (owned_pod c w) (\<lambda>q. deployment_key (snd q)) (owns_query E c w policy all)
        (AList.update (deployment_key dep) ?owns (cc_ownsByDep cc))"
      using owns_memo.coherent_update [OF _ assms(2) q] assms(1) by (simp add: coherent_caches_def)
    with None m q assms(1) show ?thesis by (simp add: owns_cached_def coherent_caches_def Let_def)
  qed
qed

lemma collect_pods_spec:
  assumes "named_deployments c w" and "list_all pod_ok pods" and "coherent_caches E c w policy all cc"
  shows "case count_pods E c w policy all node pods out of
       Inl e \<Rightarrow> collect_pods E c w policy all node pods cc out = Inl e
     | Inr out' \<Rightarrow> \<exists>cc'. collect_pods E c w policy all node pods cc out = Inr (cc', out') \<and> coherent_caches E c w policy all cc'"
  using assms(2,3)
proof (induction pods arbitrary: cc out)
  case (Cons pod pods)
  have ok: "pod_ok pod" and rest: "list_all pod_ok pods" using Cons.prems(1) by simp_all
  note IH = Cons.IH [OF rest]
  show ?case
  proof (cases "pod_deletionTimestamp pod \<noteq> None")
    case True
    with IH [OF Cons.prems(2), of out] show ?thesis by (simp add: pod_workload_def split: sum.splits)
  next
    case alive: False
    have own: "memo_table.coherent has_replicaset owner_key (\<lambda>pod. OwnerDeployment c w (Some pod)) (cc_ownerByRS cc)"
      using Cons.prems(2) by (simp add: coherent_caches_def)
    show ?thesis
    proof (cases "OwnerDeployment c w (Some pod)")
      case (Inl e)
      with alive owner_cached_spec [OF own ok] show ?thesis by (simp add: pod_workload_def)
    next
      case (Inr d)
      with owner_cached_spec [OF own ok] obtain m where fetch: "ownerDeploymentCached c w pod (cc_ownerByRS cc) = Inr (d, m)"
        and m: "memo_table.coherent has_replicaset owner_key (\<lambda>pod. OwnerDeployment c w (Some pod)) m" by auto
      let ?cc = "cc\<lparr>cc_ownerByRS := m\<rparr>"
      have coh: "coherent_caches E c w policy all ?cc" using Cons.prems(2) m by (simp add: coherent_caches_def)
      show ?thesis
      proof (cases "\<exists>dep. d = Some dep \<and> workloadProtected (Some dep) (Some pod)")
        case False
        with Inr fetch alive IH [OF coh, of out] show ?thesis by (cases d) (auto simp: pod_workload_def split: sum.splits)
      next
        case True
        then obtain dep where dep: "d = Some dep" "workloadProtected (Some dep) (Some pod)" by blast
        have "owned_pod c w (pod, dep)" using Inr dep ok assms(1) by (simp add: owned_pod_def)
        note owns = owns_cached_spec [OF coh this]
        show ?thesis
        proof (cases "NamespaceLabels c w (pod_namespace pod)")
          case (Inl e)
          with Inr dep fetch alive owns show ?thesis by (simp add: pod_workload_def owns_query_def)
        next
          case (Inr labels)
          let ?b = "Owns E (Some policy) (Some dep) labels (map Some all)"
          from Inr owns obtain cc' where "owns_cached E c w policy all pod dep ?cc = Inr (?b, cc')"
              and "coherent_caches E c w policy all cc'"
            by (auto simp: owns_query_def)
          with \<open>OwnerDeployment c w (Some pod) = Inr d\<close> Inr dep fetch alive IH [of cc' "if ?b then add_at_risk node dep out else out"]
          show ?thesis by (auto simp: pod_workload_def split: sum.splits)
        qed
      qed
    qed
  qed
qed simp

lemma collect_nodes_spec:
  assumes "named_deployments c w" and "pods_ok c w"
    and "coherent_caches E c w policy all cc"
  shows "collect_nodes E c w policy all vulnerable cc out = count_nodes E c w policy all vulnerable out"
  using assms(3)
proof (induction vulnerable arbitrary: cc out)
  case (Cons n vulnerable)
  show ?case
  proof (cases "podsOnNode c w (node_name n)")
    case (Inr pods)
    have "list_all pod_ok pods" using assms(2) Inr by (simp add: pods_ok_def)
    note step = collect_pods_spec [OF assms(1) this Cons.prems, of "node_name n" out]
    show ?thesis
    proof (cases "count_pods E c w policy all (node_name n) pods out")
      case (Inl e)
      with Inr step show ?thesis by simp
    next
      case (Inr out')
      with step obtain cc' where "collect_pods E c w policy all (node_name n) pods cc out = Inr (cc', out')"
          and "coherent_caches E c w policy all cc'" by auto
      with Inr \<open>podsOnNode c w (node_name n) = Inr pods\<close> Cons.IH show ?thesis by simp
    qed
  qed simp
qed simp

lemma empty_caches_coherent: "coherent_caches E c w policy all \<lparr>cc_ns = [], cc_ownerByRS = [], cc_ownsByDep = []\<rparr>"
  by (simp add: coherent_caches_def ns_memo.coherent_Nil owner_memo.coherent_Nil owns_memo.coherent_Nil)


section \<open>Counting\<close>

text \<open>The pods at risk of one workload, in the order of the walk: the node and the pod.\<close>

definition at_risk_for ::
  "env \<Rightarrow> 'w client \<Rightarrow> 'w \<Rightarrow> EvictionGuardPolicy \<Rightarrow> EvictionGuardPolicy list \<Rightarrow> string \<Rightarrow> Pod \<Rightarrow> bool" where
  "at_risk_for E c w policy all key pod \<longleftrightarrow>
     (case pod_workload E c w policy all pod of Inr (Some dep) \<Rightarrow> deployment_key dep = key | _ \<Rightarrow> False)"

definition pods_at :: "'w client \<Rightarrow> 'w \<Rightarrow> string \<Rightarrow> Pod list" where
  "pods_at c w node = (case podsOnNode c w node of Inl _ \<Rightarrow> [] | Inr pods \<Rightarrow> pods)"

definition tally :: "(string, workloadState) gomap \<Rightarrow> string \<Rightarrow> int \<times> string set" where
  "tally out key = (case map_of out key of None \<Rightarrow> (0, {}) | Some st \<Rightarrow> (wl_atRisk st, set (wl_nodes st)))"

lemma int32_add_left: "int32 (int32 x + y) = int32 (x + y)"
proof -
  have "take_bit 32 (int32 x) = take_bit 32 x"
    using signed_take_bit_eq_iff_take_bit_eq [of 31 "int32 x" x] by (simp add: int32_def)
  then have "take_bit 32 (int32 x + y) = take_bit 32 (x + y)" by (metis take_bit_add)
  then show ?thesis using signed_take_bit_eq_iff_take_bit_eq [of 31 "int32 x + y" "x + y"] by (simp add: int32_def)
qed

lemma tally_add:
  "tally (add_at_risk node dep out) key =
     (if key = deployment_key dep then (int32 (fst (tally out key) + 1), insert node (snd (tally out key))) else tally out key)"
  by (auto simp: tally_def add_at_risk_def Let_def update_conv split: option.split)

lemma count_pods_tally:
  assumes "count_pods E c w policy all node pods out = Inr out'" and "in_int32 (fst (tally out key))"
  shows "tally out' key = (int32 (fst (tally out key) + int (length (filter (at_risk_for E c w policy all key) pods))),
     snd (tally out key) \<union> (if \<exists>pod \<in> set pods. at_risk_for E c w policy all key pod then {node} else {}))"
  using assms
proof (induction pods arbitrary: out)
  case (Cons pod pods)
  from Cons.prems obtain d where d: "pod_workload E c w policy all pod = Inr d"
    and rest: "count_pods E c w policy all node pods (case d of None \<Rightarrow> out | Some dep \<Rightarrow> add_at_risk node dep out) = Inr out'"
    by (auto simp: sum_bind_eq_Inr_iff)
  let ?out = "case d of None \<Rightarrow> out | Some dep \<Rightarrow> add_at_risk node dep out"
  have risk: "tally ?out key = (if at_risk_for E c w policy all key pod
      then (int32 (fst (tally out key) + 1), insert node (snd (tally out key))) else tally out key)"
    by (auto simp: at_risk_for_def d tally_add split: option.split)
  then have "in_int32 (fst (tally ?out key))" using Cons.prems(2) by auto
  from Cons.IH [OF rest this] risk show ?case by (auto simp: int32_add_left algebra_simps)
qed (simp add: int32_id)

lemma count_nodes_tally:
  assumes "count_nodes E c w policy all vulnerable out = Inr out'" and "in_int32 (fst (tally out key))"
  shows "tally out' key =
     (int32 (fst (tally out key) + int (length (filter (at_risk_for E c w policy all key) (concat (map (pods_at c w \<circ> node_name) vulnerable))))),
      snd (tally out key) \<union> {n. \<exists>v \<in> set vulnerable. n = node_name v \<and> (\<exists>pod \<in> set (pods_at c w n). at_risk_for E c w policy all key pod)})"
  using assms
proof (induction vulnerable arbitrary: out)
  case (Cons v vulnerable)
  from Cons.prems obtain pods out1 where pods: "podsOnNode c w (node_name v) = Inr pods"
    and one: "count_pods E c w policy all (node_name v) pods out = Inr out1"
    and rest: "count_nodes E c w policy all vulnerable out1 = Inr out'"
    by (auto simp: sum_bind_eq_Inr_iff)
  note t = count_pods_tally [OF one Cons.prems(2)]
  have at: "pods_at c w (node_name v) = pods" using pods by (simp add: pods_at_def)
  have "in_int32 (fst (tally out1 key))" by (simp add: t)
  from Cons.IH [OF rest this] show ?case by (auto simp: t at int32_add_left algebra_simps)
qed (simp add: int32_id)

lemma collectWorkloads_eq:
  assumes "named_deployments c w" and "pods_ok c w"
  shows "collectWorkloads E c w policy vulnerable =
     sum_bind (List_Policies c w) (\<lambda>all. count_nodes E c w policy all vulnerable [])"
  by (simp add: collectWorkloads_def collect_nodes_spec [OF assms empty_caches_coherent])


section \<open>Properties\<close>

lemma web_named: "named_deployments mem_client (web_cluster r ns)"
  by (auto simp: named_deployments_def mem_client_def web_cluster_def or_not_found_def split: if_splits)

lemma web_pods_ok: "pods_ok mem_client (web_cluster r ns)"
  by (auto simp: pods_ok_def podsOnNode_def mem_client_def web_cluster_def web_pod_def pod_ok_def list_all_iff split: if_splits)

lemma web_risk: "pod_workload std_env mem_client (web_cluster r ns) cordon_policy [cordon_policy] (web_pod n) = Inr (Some plain_deployment)"
proof -
  have "Owns std_env (Some cordon_policy) (Some plain_deployment) [] [Some cordon_policy]"
    by (simp add: Owns_def Pin_def plain_deployment_def FirstByName_def time_is_zero_def SelectorMatch_def
        NamespaceSelectorMatch_def WorkloadSelectorMatch_def cordon_policy_def plain_policy_def)
  moreover have "NamespaceLabels mem_client (web_cluster r ns) (pod_namespace (web_pod n)) = Inr []"
    by (simp add: mem_client_def web_cluster_def web_pod_def NamespaceLabels_def)
  moreover have "workloadProtected (Some plain_deployment) (Some (web_pod n))" "pod_deletionTimestamp (web_pod n) = None"
    by (simp_all add: workloadProtected_def plain_deployment_def web_pod_def ProtectedLabel_def)
  ultimately show ?thesis by (simp add: pod_workload_def web_owner)
qed

lemma web_pods_at: "podsOnNode mem_client (web_cluster r ns) ''ip-7'' = Inr [web_pod ''web-1'', web_pod ''web-2'']"
  by (simp add: podsOnNode_def mem_client_def web_cluster_def IndexPodNodeName_def)

lemma web_policies: "List_Policies mem_client (web_cluster r ns) = Inr [cordon_policy]"
  by (simp add: mem_client_def web_cluster_def)

text \<open>
  C17. What the policy controller counts is exact, and its three caches change nothing. On a
  cluster whose deployments carry the names they are stored under, whose namespaces have no
  slash and whose pods have at most one controller, \<open>collectWorkloads\<close> returns what the walk
  returns that looks up the owner, the namespace and the ownership of every pod anew, errors
  included; and for every deployment \<open>atRisk\<close> is the number (as an int32) of the pods on the
  vulnerable nodes that are not being deleted, are opted in by pod and template and belong to
  it while the policy owns it, and the recorded nodes are exactly the vulnerable nodes that
  carry such a pod.
\<close>

theorem collectWorkloads_exact:
  assumes "named_deployments c w" and "pods_ok c w" and "List_Policies c w = Inr all"
  shows "collectWorkloads E c w policy vulnerable = count_nodes E c w policy all vulnerable [] \<and>
     (case collectWorkloads E c w policy vulnerable of
        Inl _ \<Rightarrow> True
      | Inr out \<Rightarrow> tally out key =
          (int32 (int (length (filter (at_risk_for E c w policy all key) (concat (map (pods_at c w \<circ> node_name) vulnerable))))),
           {n. \<exists>v \<in> set vulnerable. n = node_name v \<and> (\<exists>pod \<in> set (pods_at c w n). at_risk_for E c w policy all key pod)}))"
proof -
  have eq: "collectWorkloads E c w policy vulnerable = count_nodes E c w policy all vulnerable []"
    by (simp add: collectWorkloads_eq [OF assms(1,2)] assms(3))
  show ?thesis
  proof (cases "count_nodes E c w policy all vulnerable []")
    case (Inr out)
    from count_nodes_tally [OF this, of key] show ?thesis by (simp add: eq Inr tally_def in_int32_def)
  qed (simp add: eq)
qed

theorem collectWorkloads_exact_witness:
  "\<exists>out. collectWorkloads std_env mem_client (web_cluster True []) cordon_policy [spot_node] = Inr out \<and>
     tally out ''shop/web'' = (2, {''ip-7''})"
proof -
  have key: "deployment_key plain_deployment = ''shop/web''" by (simp add: deployment_key_def plain_deployment_def)
  have node: "node_name spot_node = ''ip-7''" by (simp add: spot_node_def)
  have risk: "at_risk_for std_env mem_client (web_cluster True []) cordon_policy [cordon_policy] ''shop/web'' (web_pod n)" for n
    by (simp add: at_risk_for_def web_risk key)
  have at: "pods_at mem_client (web_cluster True []) ''ip-7'' = [web_pod ''web-1'', web_pod ''web-2'']"
    by (simp add: pods_at_def web_pods_at)
  note exact = collectWorkloads_exact [OF web_named [of True "[]"] web_pods_ok [of True "[]"] web_policies [of True "[]"],
      where E = std_env and policy = cordon_policy and vulnerable = "[spot_node]" and key = "''shop/web''"]
  then obtain out where out: "collectWorkloads std_env mem_client (web_cluster True []) cordon_policy [spot_node] = Inr out"
    by (simp add: web_pods_at web_risk node)
  have "{n. \<exists>v \<in> set [spot_node]. n = node_name v \<and> (\<exists>pod \<in> set (pods_at mem_client (web_cluster True []) n).
      at_risk_for std_env mem_client (web_cluster True []) cordon_policy [cordon_policy] ''shop/web'' pod)} = {''ip-7''}"
    by (auto simp: node at risk)
  with exact [THEN conjunct2] have "tally out ''shop/web'' = (2, {''ip-7''})"
    by (simp only: out sum.case) (simp add: node at risk int32_id in_int32_def)
  with out show ?thesis by blast
qed

end
