(* ===== verification/Policy_Controller.thy ===== *)
theory Policy_Controller
  imports Policy_Workloads Window_Controller
begin

text \<open>
  The second half of \<open>internal/controller/policy_controller.go\<close>: the reconciler that opens
  windows. \<open>ensureWindow\<close> and \<open>ensureDeferredWindow\<close> are cut where the window is fetched:
  \<open>open_window\<close> and \<open>defer_window\<close> work on the window found, if any. \<open>record_window\<close> is the
  create-or-patch in \<open>ensureWindow\<close> and \<open>finish_open\<close> its status update. \<open>workload_step\<close> is
  the body of the loop over the workloads in \<open>Reconcile\<close>; its state is the number of active
  windows, the number of deferred workloads and the errors so far. Log lines and the type
  metadata that \<open>SetGroupVersionKind\<close> sets are not modelled.
\<close>


section \<open>Definitions\<close>

definition reasonScaledUp :: string where [go_simps]: "reasonScaledUp = ''ScaledUp''"
definition reasonPolicyReady :: string where [go_simps]: "reasonPolicyReady = ''Ready''"
definition reasonPolicyError :: string where [go_simps]: "reasonPolicyError = ''ReconcileError''"
definition reasonWindowOpened :: string where [go_simps]: "reasonWindowOpened = ''WindowOpened''"
definition reasonWindowsCapped :: string where [go_simps]: "reasonWindowsCapped = ''WindowsCapped''"
definition reasonScaleUpFailed :: string where [go_simps]: "reasonScaleUpFailed = ''ScaleUpFailed''"

definition workload_window_name :: "EvictionGuardPolicy \<Rightarrow> Deployment \<Rightarrow> string" where
  "workload_window_name policy dep = WindowName (pol_name policy) (dep_namespace dep) (dep_name dep)"

definition getWindow ::
  "'w client \<Rightarrow> 'w \<Rightarrow> EvictionGuardPolicy \<Rightarrow> workloadState \<Rightarrow> goerror + EvictionGuardWindow option" where
  "getWindow c x policy w =
     (case Get_Window c x (dep_namespace (wl_deploy w)) (workload_window_name policy (wl_deploy w)) of
        Inl e \<Rightarrow> if IsNotFound e then Inr None else Inl e
      | Inr win \<Rightarrow> Inr (Some win))"

definition isDeferredWindow :: "EvictionGuardWindow option \<Rightarrow> bool" where
  "isDeferredWindow win = (case win of None \<Rightarrow> False | Some v \<Rightarrow> mget (win_labels v) DeferredLabel = ''true'')"

subsection \<open>Creating a window\<close>

definition window_labels :: "EvictionGuardPolicy \<Rightarrow> Deployment \<Rightarrow> strmap" where
  "window_labels policy dep =
     [(PolicyLabel, pol_name policy), (WorkloadNameLabel, dep_name dep), (WorkloadNamespaceLabel, dep_namespace dep)]"

definition fresh_window ::
  "EvictionGuardPolicy \<Rightarrow> Deployment \<Rightarrow> strmap \<Rightarrow> ScaleAction list \<Rightarrow> int \<Rightarrow> int \<Rightarrow> string list \<Rightarrow> EvictionGuardWindow" where
  "fresh_window policy dep labels actions baseline scaledTo nodes =
     \<lparr>win_name = workload_window_name policy dep, win_namespace = dep_namespace dep, win_labels = labels, win_finalizers = [],
      win_deletionTimestamp = None, win_creationTimestamp = 0, win_generation = 0, win_controller = None,
      win_spec = \<lparr>ws_policyName = pol_name policy, ws_target = workloadRef dep, ws_actions = actions, ws_baseline = baseline,
        ws_scaledTo = scaledTo, ws_vulnerableNodes = nodes, ws_windowUntil = None\<rparr>,
      win_status = \<lparr>wst_phase = WindowPhaseUnset, wst_lastScaleTime = None, wst_spareReady = False, wst_readyReplicas = 0,
        wst_safeReadyReplicas = 0, wst_message = [], wst_forcedCool = False, wst_conditions = []\<rparr>\<rparr>"

definition create_window :: "env \<Rightarrow> 'w client \<Rightarrow> EvictionGuardPolicy \<Rightarrow> EvictionGuardWindow \<Rightarrow> ('w, EvictionGuardWindow) fallible" where
  "create_window E c policy win =
     (case SetControllerReference E policy (win\<lparr>win_finalizers := AddFinalizer E (win_finalizers win) WindowFinalizer\<rparr>) of
        Inl e \<Rightarrow> fail (WrapError ''ownerref: '' e [])
      | Inr win' \<Rightarrow> mutate (Create_Window c win'))"

text \<open>The status assignments of both functions, with the dirty flag.\<close>

definition open_status ::
  "env \<Rightarrow> EvictionGuardWindow \<Rightarrow> string \<Rightarrow> time \<Rightarrow> goerror option \<Rightarrow> ('w, bool \<times> EvictionGuardWindow) io" where
  "open_status E win msg now err =
     (let st = win_status win;
          dirty = (wst_phase st \<noteq> WindowPhaseOpen \<or> wst_lastScaleTime st = None \<or> wst_message st \<noteq> msg);
          st' = st\<lparr>wst_phase := WindowPhaseOpen, wst_message := msg,
            wst_lastScaleTime := (if wst_lastScaleTime st = None then Some now else wst_lastScaleTime st)\<rparr>
      in State_Monad.bind (applyCapacityApplied E (win\<lparr>win_status := st'\<rparr>) err now) (\<lambda>(changed, win').
           State_Monad.return (dirty \<or> changed, win')))"

subsection \<open>\<open>ensureDeferredWindow\<close>\<close>

definition msgDeferred :: string where
  "msgDeferred = ''deferred: waiting for maxConcurrentWindows slot; eviction fail-opens after maxWindow''"

definition at_risk_metric :: "EvictionGuardPolicy \<Rightarrow> workloadState \<Rightarrow> effect" where
  "at_risk_metric policy w =
     GaugeSet metric_AtRiskPods [pol_name policy, dep_namespace (wl_deploy w), dep_name (wl_deploy w)] (wl_atRisk w)"

definition defer_fresh ::
  "env \<Rightarrow> 'w client \<Rightarrow> EvictionGuardPolicy \<Rightarrow> workloadState \<Rightarrow> ('w, unit) fallible" where
  "defer_fresh E c policy w =
     (let dep = wl_deploy w; baseline = deployReplicas (Some dep) in
      and_then (create_window E c policy (fresh_window policy dep (window_labels policy dep @ [(DeferredLabel, ''true'')]) []
        baseline baseline (sortedKeys (wl_nodes w)))) (\<lambda>win.
      State_Monad.bind (query (Now c)) (\<lambda>now.
      State_Monad.bind (applyCapacityApplied E (win\<lparr>win_status := (win_status win)\<lparr>wst_phase := WindowPhaseOpen,
        wst_message := msgDeferred, wst_lastScaleTime := Some now\<rparr>\<rparr>) None now) (\<lambda>(_, win').
      and_then (mutate (Update_WindowStatus c win')) (\<lambda>win''.
      State_Monad.bind (emitf c (pol_name policy) EventTypeNormal reasonWindowOpened
        (''opened deferred window '' @ window_object win'' @ '' for '' @ dep_name dep @ '' (waiting for slot)'')) (\<lambda>_. ok ()))))))"

definition defer_existing ::
  "env \<Rightarrow> 'w client \<Rightarrow> workloadState \<Rightarrow> EvictionGuardWindow \<Rightarrow> ('w, unit) fallible" where
  "defer_existing E c w win =
     (let baseline = (if ws_baseline (win_spec win) > 0 then ws_baseline (win_spec win) else deployReplicas (Some (wl_deploy w)));
          new = win\<lparr>win_labels := AList.update DeferredLabel ''true'' (win_labels win),
            win_spec := (win_spec win)\<lparr>ws_vulnerableNodes := sortedKeys (wl_nodes w), ws_scaledTo := baseline,
              ws_baseline := baseline, ws_actions := [], ws_windowUntil := None\<rparr>\<rparr>
      in and_then (mutate (Patch_Window c win new)) (\<lambda>win1.
         State_Monad.bind (query (Now c)) (\<lambda>now.
         State_Monad.bind (open_status E win1 msgDeferred now None) (\<lambda>(dirty, win2).
           if dirty then and_then (mutate (Update_WindowStatus c win2)) (\<lambda>_. ok ()) else ok ()))))"

definition defer_window ::
  "env \<Rightarrow> 'w client \<Rightarrow> EvictionGuardPolicy \<Rightarrow> workloadState \<Rightarrow> EvictionGuardWindow option \<Rightarrow> ('w, unit) fallible" where
  "defer_window E c policy w existing =
     State_Monad.bind (emit (at_risk_metric policy w)) (\<lambda>_.
       case existing of None \<Rightarrow> defer_fresh E c policy w | Some win \<Rightarrow> defer_existing E c w win)"

text \<open>Both functions fetch the window of the workload and leave a held one alone.\<close>

definition unless_held ::
  "'w client \<Rightarrow> EvictionGuardPolicy \<Rightarrow> workloadState \<Rightarrow> (EvictionGuardWindow option \<Rightarrow> ('w, unit) fallible) \<Rightarrow> ('w, unit) fallible" where
  "unless_held c policy w body =
     and_then (query (\<lambda>x. getWindow c x policy w)) (\<lambda>existing.
     State_Monad.bind (query (Now c)) (\<lambda>now.
       if existing \<noteq> None \<and> holdMaxWindow (Some policy) existing now then ok () else body existing))"

definition ensureDeferredWindow :: "env \<Rightarrow> 'w client \<Rightarrow> EvictionGuardPolicy \<Rightarrow> workloadState \<Rightarrow> ('w, unit) fallible" where
  "ensureDeferredWindow E c policy w = unless_held c policy w (defer_window E c policy w)"

subsection \<open>\<open>ensureWindow\<close>\<close>

definition record_window ::
  "env \<Rightarrow> 'w client \<Rightarrow> EvictionGuardPolicy \<Rightarrow> workloadState \<Rightarrow> EvictionGuardWindow option \<Rightarrow> scalePlan \<Rightarrow>
   ('w, EvictionGuardWindow) fallible" where
  "record_window E c policy w existing plan =
     (let dep = wl_deploy w; nodeNames = sortedKeys (wl_nodes w); actions = plan_actions plan (ScaleActions existing) in
      case existing of
        None \<Rightarrow>
          and_then (create_window E c policy (fresh_window policy dep (window_labels policy dep) actions
            (plan_primaryBaseline plan) (plan_desired plan) nodeNames)) (\<lambda>win.
          State_Monad.bind (emitf c (pol_name policy) EventTypeNormal reasonWindowOpened
            (''opened window '' @ window_object win @ '' for '' @ dep_name dep)) (\<lambda>_. ok win))
      | Some win \<Rightarrow>
          mutate (Patch_Window c win (win\<lparr>win_labels := AList.delete DeferredLabel (win_labels win),
            win_spec := (win_spec win)\<lparr>ws_vulnerableNodes := nodeNames, ws_scaledTo := plan_desired plan,
              ws_baseline := plan_primaryBaseline plan, ws_actions := actions, ws_windowUntil := None\<rparr>\<rparr>)))"

definition finish_open ::
  "env \<Rightarrow> 'w client \<Rightarrow> EvictionGuardWindow \<Rightarrow> string \<Rightarrow> goerror option \<Rightarrow> time \<Rightarrow> ('w, unit) fallible" where
  "finish_open E c win msg applyErr now =
     State_Monad.bind (open_status E win msg now applyErr) (\<lambda>(dirty, win').
     State_Monad.bind (if dirty then mutate (Update_WindowStatus c win') else ok win') (\<lambda>r.
       case r of
         Inl e \<Rightarrow> (case applyErr of
             Some a \<Rightarrow> fail (WrapError (''window status after apply error: '' @ Error e @ ''; apply: '') a [])
           | None \<Rightarrow> fail e)
       | Inr _ \<Rightarrow> (case applyErr of Some a \<Rightarrow> fail a | None \<Rightarrow> ok ())))"

definition open_message :: "scalePlan \<Rightarrow> goerror option \<Rightarrow> string" where
  "open_message plan applyErr =
     (case applyErr of
        Some e \<Rightarrow> ''capacity apply failed; eviction fail-opens after maxWindow: '' @ Error e
      | None \<Rightarrow>
          if length (plan_steps plan) = 0 then ''opened window for external scaler (no capacity patches)''
          else ''scaled up ahead of node disruption'')"

definition open_window ::
  "env \<Rightarrow> 'w client \<Rightarrow> EvictionGuardPolicy \<Rightarrow> workloadState \<Rightarrow> EvictionGuardWindow option \<Rightarrow> ('w, unit) fallible" where
  "open_window E c policy w existing =
     (let dep = wl_deploy w; sticky = (case existing of None \<Rightarrow> 0 | Some win \<Rightarrow> ws_baseline (win_spec win)) in
      State_Monad.bind (emit (at_risk_metric policy w)) (\<lambda>_.
      and_then (query (\<lambda>x. buildPlan E c x (Some policy) (Some dep) (wl_atRisk w) (ScaleActions existing) sticky)) (\<lambda>plan.
      State_Monad.bind (setWorkloadPlanMetrics (pol_name policy) (dep_namespace dep) (dep_name dep) (wl_atRisk w)
        (plan_desired plan) (plan_primaryBaseline plan)) (\<lambda>_.
      and_then (record_window E c policy w existing plan) (\<lambda>win.
      State_Monad.bind (plan_apply E c plan (pol_name policy)) (\<lambda>(scaled, applyErr).
      State_Monad.bind (query (Now c)) (\<lambda>now.
      State_Monad.bind
        (if applyErr = None \<and> scaled
         then emitf c (deployment_key dep) EventTypeNormal reasonScaledUp
           (''policy '' @ quote (pol_name policy) @ '' scaled replicas to '' @ FormatInt (plan_desired plan) @
            '' (baseline '' @ FormatInt (plan_primaryBaseline plan) @ '') ahead of disruption on nodes ['' @
            JoinStr '' '' (sortedKeys (wl_nodes w)) @ '']'')
         else State_Monad.return ()) (\<lambda>_.
        finish_open E c win (open_message plan applyErr) applyErr now))))))))"

definition ensureWindow :: "env \<Rightarrow> 'w client \<Rightarrow> EvictionGuardPolicy \<Rightarrow> workloadState \<Rightarrow> ('w, unit) fallible" where
  "ensureWindow E c policy w = unless_held c policy w (open_window E c policy w)"

definition publishWorkloadMetrics :: "env \<Rightarrow> 'w client \<Rightarrow> EvictionGuardPolicy \<Rightarrow> workloadState \<Rightarrow> ('w, unit) fallible" where
  "publishWorkloadMetrics E c policy w =
     (let dep = wl_deploy w in
      and_then (query (\<lambda>x. getWindow c x policy w)) (\<lambda>existing.
      and_then (query (\<lambda>x. buildPlan E c x (Some policy) (Some dep) (wl_atRisk w) (ScaleActions existing)
        (case existing of None \<Rightarrow> 0 | Some win \<Rightarrow> ws_baseline (win_spec win)))) (\<lambda>plan.
      State_Monad.bind (setWorkloadPlanMetrics (pol_name policy) (dep_namespace dep) (dep_name dep) (wl_atRisk w)
        (plan_desired plan) (plan_primaryBaseline plan)) (\<lambda>_. ok ()))))"

subsection \<open>Windows of the policy\<close>

fun any_still_vulnerable ::
  "env \<Rightarrow> 'w client \<Rightarrow> 'w \<Rightarrow> specFilter \<Rightarrow> EvictionGuardPolicy \<Rightarrow> string list \<Rightarrow> goerror + bool" where
  "any_still_vulnerable E c x fil policy [] = Inr False"
| "any_still_vulnerable E c x fil policy (name # names) =
     (case Get_Node c x name of
        Inl e \<Rightarrow> if IsNotFound e then any_still_vulnerable E c x fil policy names else Inl e
      | Inr n \<Rightarrow>
          sum_bind (Matches fil (Some n)) (\<lambda>ok.
            if ok \<and> Vulnerable (registry E) n (Some policy) then Inr True
            else any_still_vulnerable E c x fil policy names))"

definition nodesStillVulnerable :: "env \<Rightarrow> 'w client \<Rightarrow> 'w \<Rightarrow> EvictionGuardPolicy \<Rightarrow> string list \<Rightarrow> goerror + bool" where
  "nodesStillVulnerable E c x policy names =
     (if length names = 0 then Inr False
      else sum_bind (FromSpec E (spec_nodeFilter (pol_spec policy))) (\<lambda>fil. any_still_vulnerable E c x fil policy names))"

fun sync_loop ::
  "env \<Rightarrow> 'w client \<Rightarrow> EvictionGuardPolicy \<Rightarrow> (string, workloadState) gomap \<Rightarrow> EvictionGuardWindow list \<Rightarrow> ('w, unit) fallible" where
  "sync_loop E c policy active [] = ok ()"
| "sync_loop E c policy active (win # items) =
     (let target = ws_target (win_spec win) in
      if mhas active (wr_namespace target @ ''/'' @ wr_name target) then sync_loop E c policy active items
      else State_Monad.bind (emit (GaugeSet metric_AtRiskPods [pol_name policy, wr_namespace target, wr_name target] 0)) (\<lambda>_.
        if length (ws_vulnerableNodes (win_spec win)) = 0 then sync_loop E c policy active items
        else and_then (query (\<lambda>x. nodesStillVulnerable E c x policy (ws_vulnerableNodes (win_spec win)))) (\<lambda>dying.
          if dying then sync_loop E c policy active items
          else and_then (mutate (Patch_Window c win (win\<lparr>win_spec := (win_spec win)\<lparr>ws_vulnerableNodes := []\<rparr>\<rparr>))) (\<lambda>_.
            sync_loop E c policy active items))))"

definition syncClearedWindows ::
  "env \<Rightarrow> 'w client \<Rightarrow> EvictionGuardPolicy \<Rightarrow> (string, workloadState) gomap \<Rightarrow> ('w, unit) fallible" where
  "syncClearedWindows E c policy active =
     and_then (query (\<lambda>x. List_WindowsByPolicy c x (pol_name policy))) (\<lambda>items. sync_loop E c policy active items)"

definition countActiveWindows :: "'w client \<Rightarrow> 'w \<Rightarrow> EvictionGuardPolicy \<Rightarrow> goerror + int" where
  "countActiveWindows c x policy =
     sum_bind (List_WindowsByPolicy c x (pol_name policy)) (\<lambda>items.
       Inr (fold (\<lambda>win n. if IsActive win \<and> \<not> isDeferredWindow (Some win) then int32 (n + 1) else n) items 0))"

fun delete_loop :: "'w client \<Rightarrow> EvictionGuardWindow list \<Rightarrow> ('w, unit) fallible" where
  "delete_loop c [] = ok ()"
| "delete_loop c (win # items) =
     State_Monad.bind (mutate (Delete_Window c win)) (\<lambda>r.
       case r of
         Inl e \<Rightarrow> (case IgnoreNotFound e of Some e' \<Rightarrow> fail e' | None \<Rightarrow> delete_loop c items)
       | Inr _ \<Rightarrow> delete_loop c items)"

definition cleanup :: "env \<Rightarrow> 'w client \<Rightarrow> EvictionGuardPolicy \<Rightarrow> ('w, duration) fallible" where
  "cleanup E c policy =
     and_then (query (\<lambda>x. List_WindowsByPolicy c x (pol_name policy))) (\<lambda>items.
       if length items > 0 then and_then (delete_loop c items) (\<lambda>_. ok requeuePolicyCleanup)
       else if ContainsFinalizer E (pol_finalizers policy) PolicyFinalizer then
         and_then (mutate (Patch_Policy c policy
           (policy\<lparr>pol_finalizers := RemoveFinalizer E (pol_finalizers policy) PolicyFinalizer\<rparr>))) (\<lambda>_. ok 0)
       else ok 0)"

subsection \<open>Status of the policy\<close>

definition policy_condition :: "string \<Rightarrow> bool \<Rightarrow> string \<Rightarrow> string \<Rightarrow> time \<Rightarrow> Condition" where
  "policy_condition typ status reason msg now =
     \<lparr>cond_type = typ, cond_status = (if status then ConditionTrue else ConditionFalse), cond_observedGeneration = 0,
      cond_lastTransitionTime = now, cond_reason = reason, cond_message = msg\<rparr>"

definition policy_ready_condition :: "int \<Rightarrow> goerror option \<Rightarrow> time \<Rightarrow> Condition" where
  "policy_ready_condition deferred recErr now =
     (case recErr of
        None \<Rightarrow> policy_condition reasonPolicyReady True reasonPolicyReady
          (if deferred > 0 then ''watching filtered nodes; '' @ FormatInt deferred @ '' workload(s) waiting for a window slot''
           else ''watching filtered nodes'') now
      | Some e \<Rightarrow> policy_condition reasonPolicyReady False reasonPolicyError (Error e) now)"

definition backends_condition :: "goerror option \<Rightarrow> time \<Rightarrow> Condition" where
  "backends_condition recErr now =
     (case recErr of
        Some e \<Rightarrow>
          if isMissingBackendRBAC e then policy_condition ConditionBackendsAuthorized False ReasonMissingRBAC (Error e) now
          else policy_condition ConditionBackendsAuthorized True ReasonAuthorized ''catalog backend access ok'' now
      | None \<Rightarrow> policy_condition ConditionBackendsAuthorized True ReasonAuthorized ''catalog backend access ok'' now)"

definition updateStatus ::
  "env \<Rightarrow> 'w client \<Rightarrow> EvictionGuardPolicy \<Rightarrow> int \<Rightarrow> int \<Rightarrow> int \<Rightarrow> int \<Rightarrow> goerror option \<Rightarrow> ('w, duration) fallible" where
  "updateStatus E c policy matched vuln windows deferred recErr =
     State_Monad.bind (query (Now c)) (\<lambda>now.
     (let conds = SetStatusCondition E (SetStatusCondition E (ps_conditions (pol_status policy)) (policy_ready_condition deferred recErr now))
            (backends_condition recErr now);
          new = policy\<lparr>pol_status := (pol_status policy)\<lparr>ps_observedGeneration := pol_generation policy, ps_matchedNodes := matched,
            ps_vulnerableNodes := vuln, ps_activeWindows := windows, ps_deferredWorkloads := deferred, ps_conditions := conds\<rparr>\<rparr>
      in and_then (mutate (Update_PolicyStatus c new)) (\<lambda>_. ok (if deferred > 0 then requeueDeferred else 0))))"

subsection \<open>\<open>Reconcile\<close>\<close>

record loop_state =
  ls_active :: int
  ls_deferred :: int
  ls_errs :: "goerror list"

definition scale_up_failed ::
  "'w client \<Rightarrow> EvictionGuardPolicy \<Rightarrow> Deployment \<Rightarrow> goerror \<Rightarrow> ('w, unit) io" where
  "scale_up_failed c policy dep e =
     State_Monad.bind (emit (CounterInc metric_ScaleActions
       [pol_name policy, ''up'', backendLabel (Some dep) (Some policy), ''error''])) (\<lambda>_.
     State_Monad.bind (emitf c (deployment_key dep) EventTypeWarning reasonScaleUpFailed (Error e)) (\<lambda>_.
     emitf c (pol_name policy) EventTypeWarning reasonScaleUpFailed
       (''scale-up '' @ deployment_key dep @ '' failed: '' @ Error e)))"

definition workload_step ::
  "env \<Rightarrow> 'w client \<Rightarrow> EvictionGuardPolicy \<Rightarrow> int \<Rightarrow> workloadState \<Rightarrow> loop_state \<Rightarrow> ('w, loop_state) fallible" where
  "workload_step E c policy windowCap w ls =
     and_then (query (\<lambda>x. getWindow c x policy w)) (\<lambda>win.
     (let dep = wl_deploy w;
          held = (case win of None \<Rightarrow> False | Some v \<Rightarrow> IsActive v);
          waiting = (\<not> held \<or> isDeferredWindow win)
      in if waiting \<and> windowCap > 0 \<and> ls_active ls \<ge> windowCap then
           (let ls' = ls\<lparr>ls_deferred := int32 (ls_deferred ls + 1)\<rparr> in
            State_Monad.bind (ensureDeferredWindow E c policy w) (\<lambda>r.
              case r of
                Inl e \<Rightarrow> ok (ls'\<lparr>ls_errs := ls_errs ls' @ [WrapError (deployment_key dep @ '' deferred: '') e []]\<rparr>)
              | Inr _ \<Rightarrow> State_Monad.bind (publishWorkloadMetrics E c policy w) (\<lambda>_. ok ls')))
         else State_Monad.bind (ensureWindow E c policy w) (\<lambda>r.
           case r of
             Inl e \<Rightarrow> State_Monad.bind (scale_up_failed c policy dep e) (\<lambda>_.
               ok (ls\<lparr>ls_errs := ls_errs ls @ [WrapError (deployment_key dep @ '': '') e []]\<rparr>))
           | Inr _ \<Rightarrow> ok (if waiting then ls\<lparr>ls_active := int32 (ls_active ls + 1)\<rparr> else ls))))"

fun workload_loop ::
  "env \<Rightarrow> 'w client \<Rightarrow> EvictionGuardPolicy \<Rightarrow> int \<Rightarrow> workloadState list \<Rightarrow> loop_state \<Rightarrow> ('w, loop_state) fallible" where
  "workload_loop E c policy windowCap [] ls = ok ls"
| "workload_loop E c policy windowCap (w # ws) ls =
     and_then (workload_step E c policy windowCap w ls) (\<lambda>ls'. workload_loop E c policy windowCap ws ls')"

definition workloads_in_order :: "(string, workloadState) gomap \<Rightarrow> workloadState list" where
  "workloads_in_order m = map (\<lambda>k. the (map_of m k)) (sortedWorkloadKeys m)"

definition workload_error :: "goerror list \<Rightarrow> goerror option" where
  "workload_error errs =
     (case errs of
        [] \<Rightarrow> None
      | [e] \<Rightarrow> Some e
      | e # _ \<Rightarrow> Some (WrapError (FormatInt (int (length errs)) @ '' workloads failed scale-up; first: '') e []))"

definition reconcile_workloads ::
  "env \<Rightarrow> 'w client \<Rightarrow> EvictionGuardPolicy \<Rightarrow> Node list \<Rightarrow> Node list \<Rightarrow> ('w, duration) fallible" where
  "reconcile_workloads E c policy matched vulnerable =
     and_then (query (\<lambda>x. collectWorkloads E c x policy vulnerable)) (\<lambda>workloads.
     and_then (query (\<lambda>x. countActiveWindows c x policy)) (\<lambda>active.
     (let windowCap = MaxConcurrentWindowsOrDefault policy in
      and_then (workload_loop E c policy windowCap (workloads_in_order workloads)
        \<lparr>ls_active = active, ls_deferred = 0, ls_errs = []\<rparr>) (\<lambda>ls.
      State_Monad.bind
        (if ls_deferred ls > 0
         then emitf c (pol_name policy) EventTypeNormal reasonWindowsCapped
           (FormatInt (ls_deferred ls) @ '' workload(s) waiting for a window slot (active '' @ FormatInt (ls_active ls) @
            '', maxConcurrentWindows '' @ FormatInt windowCap @ '')'')
         else State_Monad.return ()) (\<lambda>_.
      State_Monad.bind (emit (GaugeSet metric_DeferredWorkloads [pol_name policy] (ls_deferred ls))) (\<lambda>_.
      and_then (syncClearedWindows E c policy workloads) (\<lambda>_.
      and_then (query (\<lambda>x. countActiveWindows c x policy)) (\<lambda>active'.
      (let workloadErr = workload_error (ls_errs ls) in
       and_then (updateStatus E c policy (int32 (int (length matched))) (int32 (int (length vulnerable))) active'
         (ls_deferred ls) workloadErr) (\<lambda>res.
         ok (if workloadErr \<noteq> None \<or> ls_deferred ls > 0 then requeueDeferred else res)))))))))))"

definition reconcile_policy :: "env \<Rightarrow> 'w client \<Rightarrow> EvictionGuardPolicy \<Rightarrow> ('w, duration) fallible" where
  "reconcile_policy E c policy =
     (if \<not> time_is_zero (pol_deletionTimestamp policy) then cleanup E c policy
      else if \<not> ContainsFinalizer E (pol_finalizers policy) PolicyFinalizer then
        and_then (mutate (Patch_Policy c policy
          (policy\<lparr>pol_finalizers := AddFinalizer E (pol_finalizers policy) PolicyFinalizer\<rparr>))) (\<lambda>_. ok 0)
      else case FromSpec E (spec_nodeFilter (pol_spec policy)) of
        Inl e \<Rightarrow> and_then (updateStatus E c policy 0 0 0 0 (Some e)) (\<lambda>_. fail e)
      | Inr fil \<Rightarrow>
          and_then (query (List_Nodes c)) (\<lambda>nodes.
          and_then (query (\<lambda>_. match_nodes E fil policy nodes [] [])) (\<lambda>(matched, vulnerable).
          State_Monad.bind (emit (GaugeSet metric_MatchedNodes [pol_name policy] (int (length matched)))) (\<lambda>_.
          State_Monad.bind (emit (GaugeSet metric_VulnerableNodes [pol_name policy] (int (length vulnerable)))) (\<lambda>_.
            reconcile_workloads E c policy matched vulnerable)))))"

definition policy_reconcile :: "env \<Rightarrow> 'w client \<Rightarrow> string \<Rightarrow> ('w, duration) fallible" where
  "policy_reconcile E c name =
     State_Monad.bind (query (\<lambda>x. Get_Policy c x name)) (\<lambda>r.
       case r of
         Inl e \<Rightarrow> (case IgnoreNotFound e of None \<Rightarrow> ok 0 | Some e' \<Rightarrow> fail e')
       | Inr policy \<Rightarrow> reconcile_policy E c policy)"

end
