(* ===== verification/Policy_Theorems.thy ===== *)
theory Policy_Theorems
  imports Policy_Controller Window_Refinement Scale_Theorems
begin

text \<open>
  Theorems on the policy controller and on its interplay with the window controller: the
  slot accounting of \<open>Reconcile\<close>, the order of \<open>ensureWindow\<close> (the window is stored before
  capacity changes) and the round trip from opening a window to its scale-back.
\<close>


section \<open>Held windows and slots\<close>

lemma unless_held_holds:
  assumes "getWindow c (cluster s) policy w = Inr (Some win)" and "holdMaxWindow (Some policy) (Some win) (Now c (cluster s))"
  shows "run_state (unless_held c policy w body) s = (Inr (), s)"
  using assms by (simp add: unless_held_def run_and_then)

lemma workload_step_slots:
  assumes "run_state (workload_step E c policy windowCap w ls) s = (Inr ls', s')"
    and "0 < windowCap" and "in_int32 windowCap" and "in_int32 (ls_active ls)"
  shows "ls_active ls' = ls_active ls \<and> (ls_deferred ls' \<noteq> ls_deferred ls \<longrightarrow> windowCap \<le> ls_active ls) \<or>
     ls_active ls < windowCap \<and> ls_active ls' = ls_active ls + 1 \<and> ls_deferred ls' = ls_deferred ls"
proof -
  have "in_int32 (ls_active ls + 1)" if "ls_active ls < windowCap"
    using that assms(3,4) by (simp add: in_int32_def)
  then have inc: "int32 (ls_active ls + 1) = ls_active ls + 1" if "ls_active ls < windowCap" using that by (simp add: int32_id)
  from assms(1) obtain win where "getWindow c (cluster s) policy w = Inr win"
    by (auto simp: workload_step_def run_and_then split: sum.splits)
  with assms(1,2) inc show ?thesis
    by (auto simp: workload_step_def run_and_then Let_def split: if_splits sum.splits prod.splits option.splits)
qed

lemma workload_loop_slots:
  assumes "run_state (workload_loop E c policy windowCap ws ls) s = (Inr ls', s')"
    and "0 < windowCap" and "in_int32 windowCap" and "in_int32 (ls_active ls)"
  shows "ls_active ls \<le> ls_active ls' \<and> ls_active ls' \<le> max (ls_active ls) windowCap \<and>
     (ls_deferred ls' \<noteq> ls_deferred ls \<longrightarrow> windowCap \<le> ls_active ls')"
  using assms(1,4)
proof (induction ws arbitrary: ls s)
  case (Cons w ws)
  from Cons.prems(1) obtain ls1 s1 where step: "run_state (workload_step E c policy windowCap w ls) s = (Inr ls1, s1)"
    and rest: "run_state (workload_loop E c policy windowCap ws ls1) s1 = (Inr ls', s')"
    by (auto elim: and_then_Inr_elim)
  note one = workload_step_slots [OF step assms(2,3) Cons.prems(2)]
  have "in_int32 (ls_active ls1)" using one Cons.prems(2) assms(3) by (auto simp: in_int32_def)
  from Cons.IH [OF rest this] one show ?case by auto
qed simp

definition capped_policy :: EvictionGuardPolicy where
  "capped_policy = cordon_policy\<lparr>pol_spec := (pol_spec cordon_policy)\<lparr>spec_maxConcurrentWindows := Some 1\<rparr>\<rparr>"

definition web_workload :: workloadState where
  "web_workload = \<lparr>wl_deploy = plain_deployment, wl_atRisk = 2, wl_nodes = [''ip-7'']\<rparr>"

lemma capped_cap: "MaxConcurrentWindowsOrDefault capped_policy = 1"
  by (simp add: MaxConcurrentWindowsOrDefault_def capped_policy_def)

text \<open>
  C20. A tombstone takes a slot: for a workload whose window is closed (kept after a forced
  cooldown), the loop changes nothing in the cluster, because \<open>ensureWindow\<close> holds, but counts
  one more active window, although such a window is not active. Other workloads are then
  deferred below the cap.
\<close>

theorem tombstone_takes_a_slot:
  assumes "getWindow c (cluster s) policy w = Inr (Some win)" and "wst_phase (win_status win) = WindowPhaseClosed"
    and "0 < windowCap" and "in_int32 windowCap" and "in_int32 (ls_active ls)" and "ls_active ls < windowCap"
  shows "run_state (workload_step E c policy windowCap w ls) s = (Inr (ls\<lparr>ls_active := ls_active ls + 1\<rparr>), s) \<and> \<not> IsActive win"
proof -
  have "holdMaxWindow (Some policy) (Some win) (Now c (cluster s))" using assms(2) by (simp add: holdMaxWindow_def)
  from unless_held_holds [OF assms(1) this]
  have "run_state (ensureWindow E c policy w) s = (Inr (), s)" by (simp add: ensureWindow_def)
  moreover have "int32 (ls_active ls + 1) = ls_active ls + 1" using assms(4-6) by (intro int32_id) (simp add: in_int32_def)
  moreover have "\<not> IsActive win" using assms(2) by (simp add: IsActive_def)
  ultimately show ?thesis using assms(1,6) by (simp add: workload_step_def run_and_then Let_def)
qed

definition tombstone_cluster :: memory where
  "tombstone_cluster = (web_cluster True [])\<lparr>mc_windows :=
     [(web_window True [])\<lparr>win_status := (win_status (web_window True []))\<lparr>wst_phase := WindowPhaseClosed, wst_forcedCool := True\<rparr>\<rparr>]\<rparr>"

theorem tombstone_takes_a_slot_witness:
  "run_state (workload_step std_env mem_client capped_policy 1 web_workload \<lparr>ls_active = 0, ls_deferred = 0, ls_errs = []\<rparr>)
     \<lparr>cluster = tombstone_cluster, log = []\<rparr> =
   (Inr \<lparr>ls_active = 1, ls_deferred = 0, ls_errs = []\<rparr>, \<lparr>cluster = tombstone_cluster, log = []\<rparr>)"
proof -
  let ?win = "(web_window True [])\<lparr>win_status := (win_status (web_window True []))\<lparr>wst_phase := WindowPhaseClosed, wst_forcedCool := True\<rparr>\<rparr>"
  have "getWindow mem_client (cluster \<lparr>cluster = tombstone_cluster, log = [] :: effect list\<rparr>) capped_policy web_workload = Inr (Some ?win)"
    by (simp add: getWindow_def mem_client_def tombstone_cluster_def web_workload_def workload_window_name_def capped_policy_def
        cordon_policy_def plain_policy_def plain_deployment_def web_window_def)
  from tombstone_takes_a_slot [OF this, of 1 "\<lparr>ls_active = 0, ls_deferred = 0, ls_errs = []\<rparr>" std_env] show ?thesis
    by (simp add: in_int32_def)
qed


section \<open>Opening a window\<close>

text \<open>\<open>controllerutil.SetControllerReference\<close> sets the owner of the window and nothing else.\<close>

definition controller_ref_documented :: "env \<Rightarrow> bool" where
  "controller_ref_documented E \<longleftrightarrow> (\<forall>p w w'. SetControllerReference E p w = Inr w' \<longrightarrow> (\<exists>owner. w' = w\<lparr>win_controller := owner\<rparr>))"

text \<open>The server returns a window under the name that was asked for.\<close>

definition named_windows :: "'w client \<Rightarrow> 'w \<Rightarrow> bool" where
  "named_windows c w \<longleftrightarrow> (\<forall>ns n win. Get_Window c w ns n = Inr win \<longrightarrow> win_namespace win = ns \<and> win_name win = n)"

definition existing_baseline :: "EvictionGuardWindow option \<Rightarrow> int" where
  "existing_baseline existing = (case existing of None \<Rightarrow> 0 | Some win \<Rightarrow> ws_baseline (win_spec win))"

lemma mem_named_windows: "named_windows mem_client m"
  by (auto simp: named_windows_def mem_client_def or_not_found_def find_Some_iff split: option.splits)

lemma open_window_cases:
  assumes run: "run_state (open_window E c policy w existing) s = (r, s')"
  obtains (no_plan) e where "cluster s' = cluster s" and "r = Inl e"
    | (no_record) plan s0 e where "cluster s0 = cluster s" and "r = Inl e"
        and "run_state (record_window E c policy w existing plan) s0 = (Inl e, s')"
        and "buildPlan E c (cluster s) (Some policy) (Some (wl_deploy w)) (wl_atRisk w) (ScaleActions existing) (existing_baseline existing) = Inr plan"
    | (opened) plan s0 win s1 scaled err s2 s3 where "cluster s0 = cluster s"
        and "buildPlan E c (cluster s) (Some policy) (Some (wl_deploy w)) (wl_atRisk w) (ScaleActions existing) (existing_baseline existing) = Inr plan"
        and "run_state (record_window E c policy w existing plan) s0 = (Inr win, s1)"
        and "run_state (plan_apply E c plan (pol_name policy)) s1 = ((scaled, err), s2)" and "cluster s3 = cluster s2"
        and "run_state (finish_open E c win (open_message plan err) err (Now c (cluster s2))) s3 = (r, s')"
proof -
  let ?plan = "buildPlan E c (cluster s) (Some policy) (Some (wl_deploy w)) (wl_atRisk w) (ScaleActions existing) (existing_baseline existing)"
  show ?thesis
  proof (cases ?plan)
    case (Inl e)
    with run no_plan show ?thesis by (auto simp: open_window_def Let_def run_and_then existing_baseline_def)
  next
    case (Inr plan)
    let ?s = "s\<lparr>log := sys.log s @ [at_risk_metric policy w]\<rparr>"
    have clog: "cluster ?s = cluster s" by simp
    obtain s0 where s0: "run_state (setWorkloadPlanMetrics (pol_name policy) (dep_namespace (wl_deploy w)) (dep_name (wl_deploy w)) (wl_atRisk w)
        (plan_desired plan) (plan_primaryBaseline plan)) ?s = ((), s0)"
      by (metis prod.exhaust unit.exhaust)
    then have c0: "cluster s0 = cluster s"
      using cluster_setWorkloadPlanMetrics [of "pol_name policy" "dep_namespace (wl_deploy w)" "dep_name (wl_deploy w)" "wl_atRisk w"
        "plan_desired plan" "plan_primaryBaseline plan" ?s] by simp
    obtain x s1 where rec: "run_state (record_window E c policy w existing plan) s0 = (x, s1)" by (metis prod.exhaust)
    show ?thesis
    proof (cases x)
      case (Inl e)
      have "r = Inl e \<and> s1 = s'"
        using run \<open>?plan = Inr plan\<close> s0 rec Inl by (simp add: open_window_def Let_def run_and_then existing_baseline_def)
      with rec Inl no_record [OF c0, of e plan] \<open>?plan = Inr plan\<close> show ?thesis by simp
    next
      case (Inr win)
      obtain scaled err s2 where app: "run_state (plan_apply E c plan (pol_name policy)) s1 = ((scaled, err), s2)" by (metis prod.exhaust)
      let ?note = "if err = None \<and> scaled
         then emitf c (deployment_key (wl_deploy w)) EventTypeNormal reasonScaledUp
           (''policy '' @ quote (pol_name policy) @ '' scaled replicas to '' @ FormatInt (plan_desired plan) @
            '' (baseline '' @ FormatInt (plan_primaryBaseline plan) @ '') ahead of disruption on nodes ['' @
            JoinStr '' '' (sortedKeys (wl_nodes w)) @ '']'')
         else State_Monad.return ()"
      have "\<exists>s3. run_state ?note s2 = ((), s3) \<and> cluster s3 = cluster s2" by (simp add: run_emitf)
      then obtain s3 where s3: "run_state ?note s2 = ((), s3)" and c3: "cluster s3 = cluster s2" by blast
      have "run_state (open_window E c policy w existing) s =
          run_state (finish_open E c win (open_message plan err) err (Now c (cluster s2))) s3"
        using \<open>?plan = Inr plan\<close> unfolding open_window_def Let_def existing_baseline_def
        by (simp only: run_state_bind run_emit run_and_then run_query prod.case sum.case clog s0 rec Inr app s3)
      with run opened [OF c0 \<open>?plan = Inr plan\<close> rec [unfolded Inr] app c3] show ?thesis by simp
    qed
  qed
qed

lemma keeps_create_window:
  assumes "window_api_documented c"
  shows "keeps (objects c) (create_window E c policy win)"
  unfolding create_window_def by (intro keeps_intros keeps_window_writes [OF assms])

lemma keeps_record_window:
  assumes "window_api_documented c"
  shows "keeps (objects c) (record_window E c policy w existing plan)"
  unfolding record_window_def Let_def
  by (intro keeps_intros keeps_create_window [OF assms] keeps_window_writes [OF assms])

lemma keeps_finish_open:
  assumes "window_api_documented c"
  shows "keeps (objects c) (finish_open E c win msg err now)"
  unfolding finish_open_def open_status_def Let_def
  by (intro keeps_intros keeps_window_writes [OF assms])

lemma spec_until_eq:
  "(u :: EvictionGuardWindowSpec)\<lparr>ws_windowUntil := None\<rparr> = v\<lparr>ws_windowUntil := None\<rparr> \<Longrightarrow>
     ws_actions u = ws_actions v \<and> ws_baseline u = ws_baseline v \<and> ws_target u = ws_target v \<and> ws_policyName u = ws_policyName v \<and>
     ws_vulnerableNodes u = ws_vulnerableNodes v"
  by (cases u; cases v) simp

lemma record_window_stored:
  assumes doc: "window_api_documented c" and ref: "controller_ref_documented E"
    and ex: "\<And>old. existing = Some old \<Longrightarrow> holds c (cluster s) old \<and> win_namespace old = dep_namespace (wl_deploy w) \<and>
      win_name old = workload_window_name policy (wl_deploy w)"
    and run: "run_state (record_window E c policy w existing plan) s = (Inr win, s')"
  shows "holds c (cluster s') win \<and> win_namespace win = dep_namespace (wl_deploy w) \<and>
     win_name win = workload_window_name policy (wl_deploy w) \<and>
     ws_actions (win_spec win) = plan_actions plan (ScaleActions existing) \<and>
     ws_vulnerableNodes (win_spec win) = sortedKeys (wl_nodes w) \<and> \<not> isDeferredWindow (Some win)"
proof (cases existing)
  case None
  let ?new = "fresh_window policy (wl_deploy w) (window_labels policy (wl_deploy w)) (plan_actions plan [])
      (plan_primaryBaseline plan) (plan_desired plan) (sortedKeys (wl_nodes w))"
  from run None obtain s1 where "run_state (create_window E c policy ?new) s = (Inr win, s1)" and s1: "cluster s1 = cluster s'"
    by (auto simp: record_window_def Let_def ScaleActions_def run_and_then run_emitf split: sum.splits prod.splits if_splits)
  then obtain new' where ref': "SetControllerReference E policy (?new\<lparr>win_finalizers := AddFinalizer E (win_finalizers ?new) WindowFinalizer\<rparr>) = Inr new'"
    and create: "Create_Window c new' (cluster s) = (Inr win, cluster s1)"
    by (auto simp: create_window_def prod_eq_iff split: sum.splits)
  from ref ref' obtain owner where "new' = ?new\<lparr>win_finalizers := AddFinalizer E (win_finalizers ?new) WindowFinalizer, win_controller := owner\<rparr>"
    unfolding controller_ref_documented_def by blast
  with documented_create [OF doc create] spec_until_eq [OF documented_create(6) [OF doc create]] None s1 show ?thesis
    by (simp add: fresh_window_def ScaleActions_def isDeferredWindow_def window_labels_def go_simps)
next
  case (Some old)
  let ?new = "old\<lparr>win_labels := AList.delete DeferredLabel (win_labels old),
     win_spec := (win_spec old)\<lparr>ws_vulnerableNodes := sortedKeys (wl_nodes w), ws_scaledTo := plan_desired plan,
       ws_baseline := plan_primaryBaseline plan, ws_actions := plan_actions plan (ScaleActions existing), ws_windowUntil := None\<rparr>\<rparr>"
  have patch: "Patch_Window c old ?new (cluster s) = (Inr win, cluster s')"
    using run Some by (auto simp: record_window_def Let_def prod_eq_iff)
  have held: "holds c (cluster s) old" using ex [OF Some] by simp
  note st = documented_patch [OF doc held _ _ _ patch]
  from st spec_until_eq [OF st(8)] ex [OF Some] show ?thesis by (simp add: isDeferredWindow_def mget_def delete_conv')
qed

lemma getWindow_held:
  assumes "named_windows c (cluster s)" and "getWindow c (cluster s) policy w = Inr (Some old)"
  shows "holds c (cluster s) old \<and> win_namespace old = dep_namespace (wl_deploy w) \<and> win_name old = workload_window_name policy (wl_deploy w)"
proof -
  have "Get_Window c (cluster s) (dep_namespace (wl_deploy w)) (workload_window_name policy (wl_deploy w)) = Inr old"
    using assms(2) by (auto simp: getWindow_def split: sum.splits if_splits)
  with assms(1) show ?thesis by (auto simp: named_windows_def holds_def)
qed

end
