(* ===== verification/Enqueue.thy ===== *)
theory Enqueue
  imports Evict_Gate
begin

text \<open>
  \<open>internal/controller/enqueue.go\<close> and the watch predicates of \<open>policy_controller.go\<close>: which
  events wake which policies. A \<open>client.Object\<close> is a \<open>kobject\<close>; a failed type assertion on it
  gives a nil pointer, \<open>None\<close>. A request is the name of a policy; the work queue is the list
  of the requests added to it.
\<close>


section \<open>Definitions\<close>

datatype kobject = ObjNode Node | ObjPod Pod | ObjOther

fun as_node :: "kobject \<Rightarrow> Node option" where
  "as_node (ObjNode n) = Some n"
| "as_node _ = None"

fun as_pod :: "kobject \<Rightarrow> Pod option" where
  "as_pod (ObjPod p) = Some p"
| "as_pod _ = None"

subsection \<open>\<open>enqueue.go\<close>\<close>

fun policies_loop :: "env \<Rightarrow> Node \<Rightarrow> bool \<Rightarrow> EvictionGuardPolicy list \<Rightarrow> string list" where
  "policies_loop E node onlyVulnerable [] = []"
| "policies_loop E node onlyVulnerable (p # items) =
     (case FromSpec E (spec_nodeFilter (pol_spec p)) of
        Inl _ \<Rightarrow> policies_loop E node onlyVulnerable items
      | Inr f \<Rightarrow>
          (case Matches f (Some node) of
             Inl _ \<Rightarrow> policies_loop E node onlyVulnerable items
           | Inr matched \<Rightarrow>
               if \<not> matched then policies_loop E node onlyVulnerable items
               else if onlyVulnerable \<and> \<not> Vulnerable (registry E) node (Some p) then policies_loop E node onlyVulnerable items
               else pol_name p # policies_loop E node onlyVulnerable items))"

definition policiesForNode :: "env \<Rightarrow> 'w client \<Rightarrow> 'w \<Rightarrow> Node option \<Rightarrow> bool \<Rightarrow> string list" where
  "policiesForNode E c w node onlyVulnerable =
     (case node of
        None \<Rightarrow> []
      | Some n \<Rightarrow> (case List_Policies c w of Inl _ \<Rightarrow> [] | Inr items \<Rightarrow> policies_loop E n onlyVulnerable items))"

definition policiesForObject :: "env \<Rightarrow> 'w client \<Rightarrow> 'w \<Rightarrow> kobject \<Rightarrow> string list" where
  "policiesForObject E c w obj =
     (case as_node obj of None \<Rightarrow> [] | Some n \<Rightarrow> policiesForNode E c w (Some n) False)"

fun union_loop :: "string list \<Rightarrow> string list \<Rightarrow> string list \<Rightarrow> string list \<times> string list" where
  "union_loop [] seen out = (seen, out)"
| "union_loop (req # reqs) seen out =
     (if req \<in> set seen then union_loop reqs seen out else union_loop reqs (req # seen) (out @ [req]))"

definition policiesForNodeUpdate :: "env \<Rightarrow> 'w client \<Rightarrow> 'w \<Rightarrow> Node option \<Rightarrow> Node option \<Rightarrow> string list" where
  "policiesForNodeUpdate E c w oldN newN =
     (case union_loop (policiesForNode E c w oldN False) [] [] of (seen, out) \<Rightarrow>
        snd (union_loop (policiesForNode E c w newN False) seen out))"

definition mapPodToPolicies :: "env \<Rightarrow> 'w client \<Rightarrow> 'w \<Rightarrow> kobject \<Rightarrow> string list" where
  "mapPodToPolicies E c w obj =
     (case as_pod obj of
        None \<Rightarrow> []
      | Some pod \<Rightarrow>
          if pod_nodeName pod = [] then []
          else (case Get_Node c w (pod_nodeName pod) of Inl _ \<Rightarrow> [] | Inr node \<Rightarrow> policiesForNode E c w (Some node) True))"

definition enqueuePolicies :: "string list \<Rightarrow> string list \<Rightarrow> string list" where
  "enqueuePolicies q reqs = q @ reqs"

text \<open>The handlers of \<open>nodePolicyHandler\<close>: create, delete, generic and update events.\<close>

datatype watch_event = CreateEvent kobject | DeleteEvent kobject | GenericEvent kobject | UpdateEvent kobject kobject

fun nodePolicyHandler :: "env \<Rightarrow> 'w client \<Rightarrow> 'w \<Rightarrow> watch_event \<Rightarrow> string list \<Rightarrow> string list" where
  "nodePolicyHandler E c w (CreateEvent obj) q = enqueuePolicies q (policiesForObject E c w obj)"
| "nodePolicyHandler E c w (DeleteEvent obj) q = enqueuePolicies q (policiesForObject E c w obj)"
| "nodePolicyHandler E c w (GenericEvent obj) q = enqueuePolicies q (policiesForObject E c w obj)"
| "nodePolicyHandler E c w (UpdateEvent old new) q =
     enqueuePolicies q (policiesForNodeUpdate E c w (as_node old) (as_node new))"

subsection \<open>Predicates of \<open>policy_controller.go\<close>\<close>

text \<open>The comparison of two maps: their lengths, and the values of the first in the second.\<close>

definition map_changed :: "strmap \<Rightarrow> strmap \<Rightarrow> bool" where
  "map_changed a b \<longleftrightarrow> mlen a \<noteq> mlen b \<or> list_ex (\<lambda>k. mget b k \<noteq> mget a k) (mkeys a)"

definition deletionTimestampSet :: "time option \<Rightarrow> time option \<Rightarrow> bool" where
  "deletionTimestampSet oldTS newTS =
     (if oldTS = None \<and> newTS \<noteq> None then True else if oldTS \<noteq> None \<and> newTS = None then True else False)"

definition podMembershipChanged :: "Pod \<Rightarrow> Pod \<Rightarrow> bool" where
  "podMembershipChanged a b =
     (if pod_nodeName a \<noteq> pod_nodeName b then True
      else if map_changed (pod_labels a) (pod_labels b) then True
      else deletionTimestampSet (pod_deletionTimestamp a) (pod_deletionTimestamp b))"

definition taintsOrLabelsChanged :: "Node \<Rightarrow> Node \<Rightarrow> bool" where
  "taintsOrLabelsChanged a b =
     (if node_unschedulable a \<noteq> node_unschedulable b then True
      else if length (node_taints a) \<noteq> length (node_taints b) then True
      else if list_ex (\<lambda>i. node_taints a ! i \<noteq> node_taints b ! i) [0..<length (node_taints a)] then True
      else if map_changed (node_labels a) (node_labels b) then True
      else map_changed (node_annotations a) (node_annotations b))"

fun nodeDisruptionPredicate :: "watch_event \<Rightarrow> bool" where
  "nodeDisruptionPredicate (CreateEvent obj) = (as_node obj \<noteq> None)"
| "nodeDisruptionPredicate (UpdateEvent old new) =
     (case (as_node old, as_node new) of (Some a, Some b) \<Rightarrow> taintsOrLabelsChanged a b | _ \<Rightarrow> False)"
| "nodeDisruptionPredicate (DeleteEvent obj) = True"
| "nodeDisruptionPredicate (GenericEvent obj) = True"

fun podPolicyPredicate :: "watch_event \<Rightarrow> bool" where
  "podPolicyPredicate (CreateEvent obj) = (as_pod obj \<noteq> None)"
| "podPolicyPredicate (UpdateEvent old new) =
     (case (as_pod old, as_pod new) of (Some a, Some b) \<Rightarrow> podMembershipChanged a b | _ \<Rightarrow> False)"
| "podPolicyPredicate (DeleteEvent obj) = True"
| "podPolicyPredicate (GenericEvent obj) = True"


section \<open>Specification\<close>

text \<open>The node as a policy sees it: filtered and vulnerable.\<close>

definition in_danger :: "env \<Rightarrow> EvictionGuardPolicy \<Rightarrow> Node \<Rightarrow> bool" where
  "in_danger E p n \<longleftrightarrow> filter_accepts E (spec_nodeFilter (pol_spec p)) n \<and> Vulnerable (registry E) n (Some p)"

text \<open>A selector of apimachinery depends on the labels as a map, not on their order.\<close>

definition selectors_documented :: "env \<Rightarrow> bool" where
  "selectors_documented E \<longleftrightarrow>
     (\<forall>s f m m'. LabelSelectorAsSelector E s = Inr f \<longrightarrow> map_of m = map_of m' \<longrightarrow> f m = f m')"

definition no_empty_values :: "strmap \<Rightarrow> bool" where
  "no_empty_values m \<longleftrightarrow> list_all (\<lambda>(k, v). v \<noteq> []) m"


section \<open>Lemmas\<close>

lemma mget_cong: "map_of m = map_of m' \<Longrightarrow> mget m = mget m'"
  by (simp add: mget_def fun_eq_iff)

lemma mhas_cong: "map_of m = map_of m' \<Longrightarrow> mhas m = mhas m'"
  by (simp add: mhas_def fun_eq_iff)

lemma map_of_Nil_iff: "map_of m = map_of m' \<Longrightarrow> m = [] \<longleftrightarrow> m' = []"
  by (metis map_of_eq_empty_iff)

lemma mlen_dom: "mlen m = card (dom (map_of m))"
  by (simp add: mlen_def dom_map_of_conv_image_fst distinct_card [symmetric])

lemma unchanged_map:
  assumes "\<not> map_changed a b" and "no_empty_values a"
  shows "map_of a = map_of b"
proof -
  have sub: "map_of a \<subseteq>\<^sub>m map_of b"
    unfolding map_le_def
  proof
    fix k assume "k \<in> dom (map_of a)"
    then obtain v where v: "map_of a k = Some v" by blast
    then have "v \<noteq> []" using assms(2) map_of_SomeD [OF v] by (auto simp: no_empty_values_def list_all_iff)
    moreover have "k \<in> set (mkeys a)" using map_of_SomeD [OF v] by force
    then have "mget b k = mget a k" using assms(1) by (auto simp: map_changed_def list_ex_iff)
    ultimately show "map_of a k = map_of b k" using v by (auto simp: mget_def split: option.splits)
  qed
  have "card (dom (map_of a)) = card (dom (map_of b))" using assms(1) by (simp add: map_changed_def mlen_dom)
  with map_le_implies_dom_le [OF sub] have "dom (map_of a) = dom (map_of b)"
    by (intro card_subset_eq) (auto simp: finite_dom_map_of)
  with sub show ?thesis by (intro map_le_antisym) (auto simp: map_le_def)
qed

lemma unchanged_taints:
  assumes "length (node_taints a) = length (node_taints b)"
    and "\<not> list_ex (\<lambda>i. node_taints a ! i \<noteq> node_taints b ! i) [0..<length (node_taints a)]"
  shows "node_taints a = node_taints b"
  using assms by (intro nth_equalityI) (auto simp: list_ex_iff)

lemma filter_accepts_cong:
  assumes "selectors_documented E" and "map_of (node_labels a) = map_of (node_labels b)" and "node_taints a = node_taints b"
    and "node_name a = node_name b"
  shows "filter_accepts E spec a = filter_accepts E spec b"
proof -
  have "selector_holds E s (node_labels a) = selector_holds E s (node_labels b)" for s
    using assms(1,2) by (auto simp: selectors_documented_def selector_holds_def split: sum.split)
  with mget_cong [OF assms(2)] assms(3,4) show ?thesis by (simp add: filter_accepts_def)
qed

lemma Vulnerable_cong:
  assumes "map_of (node_labels a) = map_of (node_labels b)" and "map_of (node_annotations a) = map_of (node_annotations b)"
    and "node_taints a = node_taints b" and "node_unschedulable a = node_unschedulable b"
  shows "Vulnerable init_registry a p = Vulnerable init_registry b p"
proof -
  note m = mget_cong [OF assms(1)] mget_cong [OF assms(2)] map_of_Nil_iff [OF assms(1)] map_of_Nil_iff [OF assms(2)]
  have det: "det_Vulnerable d a = det_Vulnerable d b" if "Lookup init_registry n = Some d" for n d
    using that m assms(3,4) unfolding Lookup_init_registry
    by (auto simp: nodeCordoned_def spotInterrupted_def outOfService_def karpenterDeleteRequested_def karpenterDisrupted_def
        hasTaint_def split: if_splits)
  have builtin: "IsVulnerable init_registry a ns = IsVulnerable init_registry b ns" for ns
    using det by (auto simp: IsVulnerable_def IsVulnerable_loop_iff)
  have "kvMatch (node_labels a) k = kvMatch (node_labels b) k" "kvMatch (node_annotations a) k = kvMatch (node_annotations b) k" for k
    using assms(1,2) by (cases k; simp add: kvMatch_iff; simp add: kvMatch_def)+
  then have "MatchCustom a sigs = MatchCustom b sigs" for sigs
    by (simp only: MatchCustom_iff customMatches_def assms(3))
  with builtin show ?thesis by (simp add: Vulnerable_def split: option.split)
qed

lemma union_loop_set: "set (snd (union_loop reqs seen out)) = set out \<union> (set reqs - set seen)"
  by (induction reqs seen out rule: union_loop.induct) auto

lemma union_loop_seen: "set (fst (union_loop reqs seen out)) = set seen \<union> set reqs"
  by (induction reqs seen out rule: union_loop.induct) auto

lemma union_loop_distinct: "distinct out \<Longrightarrow> set out \<subseteq> set seen \<Longrightarrow> distinct (snd (union_loop reqs seen out))"
  by (induction reqs seen out rule: union_loop.induct) auto

lemma policiesForNodeUpdate_set:
  "set (policiesForNodeUpdate E c w a b) = set (policiesForNode E c w a False) \<union> set (policiesForNode E c w b False)"
proof -
  obtain seen out where u: "union_loop (policiesForNode E c w a False) [] [] = (seen, out)" by (metis prod.exhaust)
  then have "set seen = set (policiesForNode E c w a False)" "set out = set (policiesForNode E c w a False)"
    using union_loop_seen [of "policiesForNode E c w a False" "[]" "[]"] union_loop_set [of "policiesForNode E c w a False" "[]" "[]"]
    by simp_all
  with u show ?thesis by (simp add: policiesForNodeUpdate_def union_loop_set)
qed

lemma policies_loop_mem:
  "name \<in> set (policies_loop E node v items) \<longleftrightarrow>
     (\<exists>p \<in> set items. name = pol_name p \<and> \<not> isl (FromSpec E (spec_nodeFilter (pol_spec p))) \<and>
        filter_accepts E (spec_nodeFilter (pol_spec p)) node \<and> (v \<longrightarrow> Vulnerable (registry E) node (Some p)))"
  by (induction items) (auto simp: flt.matches_accepts isl_def split: sum.splits)

lemma policiesForNode_mem:
  assumes "List_Policies c w = Inr all"
  shows "name \<in> set (policiesForNode E c w (Some node) v) \<longleftrightarrow>
     (\<exists>p \<in> set all. name = pol_name p \<and> \<not> isl (FromSpec E (spec_nodeFilter (pol_spec p))) \<and>
        filter_accepts E (spec_nodeFilter (pol_spec p)) node \<and> (v \<longrightarrow> Vulnerable (registry E) node (Some p)))"
  using assms by (simp add: policiesForNode_def policies_loop_mem)


section \<open>Properties\<close>

text \<open>
  C18. A disruption is not slept through: when an update of a node makes it in danger for a
  policy, or ends that, the watch predicate lets the event pass and the handler enqueues the
  policy, provided the policy's filter compiles, the detectors are the built-in ones and no
  label or annotation of the node had an empty value. A node that leaves a filter still
  wakes the policy, because old and new node are both matched.
\<close>

theorem node_change_wakes_policy:
  assumes "selectors_documented E" and "registry E = init_registry"
    and "List_Policies c w = Inr all" and "p \<in> set all" and "FromSpec E (spec_nodeFilter (pol_spec p)) = Inr f"
    and "node_name old = node_name new" and "no_empty_values (node_labels old)" and "no_empty_values (node_annotations old)"
    and "in_danger E p old \<noteq> in_danger E p new"
  shows "nodeDisruptionPredicate (UpdateEvent (ObjNode old) (ObjNode new)) \<and>
     pol_name p \<in> set (nodePolicyHandler E c w (UpdateEvent (ObjNode old) (ObjNode new)) q)"
proof
  show "nodeDisruptionPredicate (UpdateEvent (ObjNode old) (ObjNode new))"
  proof (rule ccontr)
    assume "\<not> nodeDisruptionPredicate (UpdateEvent (ObjNode old) (ObjNode new))"
    then have same: "node_unschedulable old = node_unschedulable new" "length (node_taints old) = length (node_taints new)"
        "\<not> list_ex (\<lambda>i. node_taints old ! i \<noteq> node_taints new ! i) [0..<length (node_taints old)]"
        "\<not> map_changed (node_labels old) (node_labels new)" "\<not> map_changed (node_annotations old) (node_annotations new)"
      by (simp_all add: taintsOrLabelsChanged_def split: if_splits)
    note l = unchanged_map [OF same(4) assms(7)] and a = unchanged_map [OF same(5) assms(8)] and t = unchanged_taints [OF same(2,3)]
    have "in_danger E p old = in_danger E p new"
      using filter_accepts_cong [OF assms(1) l t assms(6)] Vulnerable_cong [OF l a t same(1)] assms(2) by (simp add: in_danger_def)
    with assms(9) show False by simp
  qed
  have "filter_accepts E (spec_nodeFilter (pol_spec p)) old \<or> filter_accepts E (spec_nodeFilter (pol_spec p)) new"
    using assms(9) by (auto simp: in_danger_def)
  with assms(3-5) show "pol_name p \<in> set (nodePolicyHandler E c w (UpdateEvent (ObjNode old) (ObjNode new)) q)"
    by (auto simp: enqueuePolicies_def policiesForNodeUpdate_set policiesForNode_mem)
qed

lemma std_env_selectors: "selectors_documented std_env"
  unfolding selectors_documented_def
proof (intro allI impI)
  fix s f and m m' :: strmap
  assume sel: "LabelSelectorAsSelector std_env s = Inr f" and eq: "map_of m = map_of m'"
  have req: "req_matches m = req_matches m'" by (rule ext) (simp add: req_matches_def mget_cong [OF eq] mhas_cong [OF eq])
  show "f m = f m'"
  proof (cases s)
    case None
    with sel show ?thesis by (auto simp: std_env_def std_selector_def)
  next
    case (Some x)
    with sel have "f = (\<lambda>m. list_all (\<lambda>(k, v). mhas m k \<and> mget m k = v) (sel_matchLabels x) \<and>
        list_all (req_matches m) (sel_matchExpressions x))"
      by (simp add: std_env_def std_selector_def split: if_splits)
    then show ?thesis by (simp add: mget_cong [OF eq] mhas_cong [OF eq] req)
  qed
qed

theorem node_change_wakes_policy_witness:
  "''p'' \<in> set (nodePolicyHandler std_env mem_client (web_cluster True [])
     (UpdateEvent (ObjNode (spot_node\<lparr>node_unschedulable := False\<rparr>)) (ObjNode spot_node)) [])"
proof -
  obtain f where f: "FromSpec std_env (spec_nodeFilter (pol_spec cordon_policy)) = Inr f"
    by (auto simp: FromSpec_def empty_node_filter_def cordon_policy_def plain_policy_def)
  have pol: "List_Policies mem_client (web_cluster True []) = Inr [cordon_policy]" "pol_name cordon_policy = ''p''"
    by (simp_all add: mem_client_def web_cluster_def cordon_policy_def plain_policy_def)
  have "in_danger std_env cordon_policy (spot_node\<lparr>node_unschedulable := False\<rparr>) \<noteq> in_danger std_env cordon_policy spot_node"
    by (simp add: in_danger_def filter_accepts_def cordon_policy_def plain_policy_def empty_node_filter_def Vulnerable_def IsVulnerable_def
        go_simps spot_node_def)
  with node_change_wakes_policy [OF std_env_selectors _ pol(1) _ f, of "spot_node\<lparr>node_unschedulable := False\<rparr>" spot_node "[]"] pol(2)
  show ?thesis by (simp add: no_empty_values_def spot_node_def)
qed

definition label_policy :: EvictionGuardPolicy where
  "label_policy = (plain_policy ''p'')\<lparr>pol_spec := (pol_spec (plain_policy ''p''))\<lparr>spec_customSignals :=
     [\<lparr>cs_name = ''maintenance'', cs_taint = None, cs_annotation = None, cs_label = Some \<lparr>kv_key = ''maintenance'', kv_value = []\<rparr>\<rparr>]\<rparr>\<rparr>"

text \<open>
  C21. The restriction to non-empty values is needed. When an update replaces one label of a
  node by another and changes nothing else, the predicate lets it pass if and only if the
  label that goes away had a non-empty value: a missing key reads as the empty string and
  the two maps have the same size. A policy with a custom signal on the presence of the new
  label, whose filter accepts the node, has it in danger all the same; so an update that
  replaces a label of empty value is slept through.
\<close>

theorem empty_label_change_is_missed:
  assumes "node_labels old = (k, u) # rest" and "distinct (map fst ((k, u) # rest))" and "k' \<notin> set (map fst ((k, u) # rest))"
    and "filter_accepts E (spec_nodeFilter (pol_spec p)) (old\<lparr>node_labels := (k', v) # rest\<rparr>)"
    and "cs_label sig = Some \<lparr>kv_key = k', kv_value = []\<rparr>" and "sig \<in> set (spec_customSignals (pol_spec p))"
  shows "(nodeDisruptionPredicate (UpdateEvent (ObjNode old) (ObjNode (old\<lparr>node_labels := (k', v) # rest\<rparr>))) \<longleftrightarrow> u \<noteq> []) \<and>
     in_danger E p (old\<lparr>node_labels := (k', v) # rest\<rparr>)"
proof
  let ?new = "old\<lparr>node_labels := (k', v) # rest\<rparr>"
  have k: "k' \<noteq> k" "k \<notin> fst ` set rest" "k' \<notin> fst ` set rest" using assms(2,3) by auto
  then have "map_of rest k = None" "map_of rest k' = None" by (simp_all add: map_of_eq_None_iff)
  then have "mget ((k', v) # rest) k = []" "mget ((k, u) # rest) k = u" using k by (simp_all add: mget_def)
  moreover have "mget ((k', v) # rest) x = mget ((k, u) # rest) x" if "x \<in> set (mkeys rest)" for x
    using that k by (auto simp: mget_def mkeys_def)
  moreover have "mlen ((k', v) # rest) = mlen ((k, u) # rest)" using k by (simp add: mlen_def mkeys_def card_insert_if)
  ultimately have "map_changed ((k, u) # rest) ((k', v) # rest) \<longleftrightarrow> u \<noteq> []"
    using k by (auto simp: map_changed_def list_ex_iff mkeys_def)
  then show "nodeDisruptionPredicate (UpdateEvent (ObjNode old) (ObjNode ?new)) \<longleftrightarrow> u \<noteq> []"
    using assms(1) by (simp add: taintsOrLabelsChanged_def) (simp add: map_changed_def list_ex_iff)
  have "kvMatch (node_labels ?new) (cs_label sig)" by (simp add: assms(5) kvMatch_iff)
  then have "customMatches ?new sig" using assms(5) by (simp add: customMatches_def)
  then have "MatchCustom ?new (spec_customSignals (pol_spec p))" using assms(6) unfolding MatchCustom_iff by blast
  with assms(4) show "in_danger E p ?new" by (simp add: in_danger_def Vulnerable_def)
qed

theorem empty_label_change_is_missed_witness:
  "\<not> in_danger std_env label_policy (spot_node\<lparr>node_unschedulable := False, node_labels := [(''idle'', [])]\<rparr>) \<and>
   in_danger std_env label_policy (spot_node\<lparr>node_unschedulable := False, node_labels := [(''maintenance'', [])]\<rparr>) \<and>
   \<not> nodeDisruptionPredicate (UpdateEvent (ObjNode (spot_node\<lparr>node_unschedulable := False, node_labels := [(''idle'', [])]\<rparr>))
       (ObjNode (spot_node\<lparr>node_unschedulable := False, node_labels := [(''maintenance'', [])]\<rparr>)))"
proof -
  have "\<not> in_danger std_env label_policy (spot_node\<lparr>node_unschedulable := False, node_labels := [(''idle'', [])]\<rparr>)"
    by (simp add: in_danger_def filter_accepts_def label_policy_def plain_policy_def empty_node_filter_def Vulnerable_def
        IsVulnerable_def customMatches_def kvMatch_def go_simps spot_node_def)
  moreover have "filter_accepts std_env (spec_nodeFilter (pol_spec label_policy)) n" for n
    by (simp add: filter_accepts_def label_policy_def plain_policy_def empty_node_filter_def)
  ultimately show ?thesis
    using empty_label_change_is_missed [of "spot_node\<lparr>node_unschedulable := False, node_labels := [(''idle'', [])]\<rparr>" "''idle''" "[]" "[]"
        "''maintenance''" std_env label_policy "[]" "hd (spec_customSignals (pol_spec label_policy))"]
    by (simp add: label_policy_def mkeys_def)
qed

end
