(* ===== verification/Open_Close.thy ===== *)
theory Open_Close
  imports Policy_Theorems
begin

text \<open>
  Both controllers together: a window that the policy controller opened and that the window
  controller scales back leaves every capacity field as it was. The lemmas follow the window
  through \<open>ensureWindow\<close> and the fields through \<open>begin_scale_back\<close>.
\<close>


section \<open>Applying a plan leaves windows alone\<close>

definition foreign_steps :: "string \<Rightarrow> scaleStep list \<Rightarrow> bool" where
  "foreign_steps k grp \<longleftrightarrow> grp \<noteq> [] \<and> (\<forall>x \<in> set grp. tgt_kind (stp_target x) \<noteq> k)"

lemma keeps_compensate:
  assumes "ignores_patches f c k" and "\<forall>g \<in> set gs. foreign_steps k g"
  shows "keeps f (compensate_loop E c gs first)"
  using assms(2)
proof (induction gs arbitrary: first)
  case (Cons g gs)
  have "\<forall>a \<in> set (map step_action g). sa_kind a \<noteq> k"
    using Cons.prems by (auto simp: foreign_steps_def step_action_def scaleAction_def)
  with Cons.prems have "keeps f (restoreStepGroup E c g)"
    unfolding restoreStepGroup_def by (intro keeps_intros keeps_restore_group [OF assms(1)]) (auto simp: foreign_steps_def)
  with Cons show ?case by (auto intro!: keeps_intros)
qed (auto intro: keeps_intros)

lemma keeps_apply_loop:
  assumes "ignores_patches f c k" and "\<forall>g \<in> set groups. foreign_steps k g" and "\<forall>g \<in> set applied. foreign_steps k g"
  shows "keeps f (apply_loop E c pn groups applied scaled)"
  using assms(2,3)
proof (induction groups arbitrary: applied scaled)
  case (Cons grp groups)
  have failed: "keeps f (apply_failed E c gs b e)" if "\<forall>g \<in> set gs. foreign_steps k g" for gs b e
    unfolding apply_failed_def compensateApply_def by (intro keeps_intros keeps_compensate [OF assms(1)]) (use that in simp)
  have kind: "tgt_kind (stp_target (hd grp)) \<noteq> k" using Cons.prems(1) by (simp add: foreign_steps_def)
  have more: "\<forall>g \<in> set (if b then applied @ [grp] else applied). foreign_steps k g" "\<forall>g \<in> set (applied @ [grp]). foreign_steps k g" for b
    using Cons.prems by auto
  show ?case
    unfolding apply_loop.simps Let_def
    by (intro keeps_intros failed keeps_PatchIntegers [OF assms(1) kind] keeps_PatchAnnotations [OF assms(1) kind] Cons.IH more)
      (use Cons.prems in auto)
qed (auto intro: keeps_intros)

lemma keeps_plan_apply:
  assumes "ignores_patches f c k" and "\<forall>x \<in> set (plan_steps p). tgt_kind (stp_target x) \<noteq> k"
  shows "keeps f (plan_apply E c p pn)"
proof -
  let ?gs = "groups_by same_step_object (plan_steps p)"
  have "foreign_steps k g" if "g \<in> set ?gs" for g
  proof -
    have "set g \<subseteq> set (concat ?gs)" using that by auto
    then show ?thesis using groups_by_member [OF that] assms(2) by (auto simp: foreign_steps_def concat_groups_by)
  qed
  then show ?thesis unfolding plan_apply_def by (intro keeps_apply_loop [OF assms(1)]) auto
qed


section \<open>The window after opening\<close>

lemma finish_open_ok:
  assumes doc: "window_api_documented c" and holds: "holds c (cluster s) win"
    and run: "run_state (finish_open E c win msg err now) s = (Inr (), s')"
  obtains win' where "err = None" and "holds c (cluster s') win'" and "win_spec win' = win_spec win"
    and "win_namespace win' = win_namespace win" and "win_name win' = win_name win"
    and "win_labels win' = win_labels win" and "wst_phase (win_status win') = WindowPhaseOpen"
proof -
  obtain dirty win1 s1 where st: "run_state (open_status E win msg now err) s = ((dirty, win1), s1)" by (metis prod.exhaust)
  then have fr: "cluster s1 = cluster s" "win_spec win1 = win_spec win" "win_namespace win1 = win_namespace win" "win_name win1 = win_name win"
      "wst_phase (win_status win1) = WindowPhaseOpen" "dirty \<or> wst_phase (win_status win) = WindowPhaseOpen"
    by (auto simp: open_status_def Let_def applyCapacityApplied_def)
  show thesis
  proof (cases dirty)
    case True
    with run st obtain r where upd: "Update_WindowStatus c win1 (cluster s1) = (Inr r, cluster s')" and "err = None"
      by (auto simp: finish_open_def prod_eq_iff split: sum.splits option.splits)
    from documented_status [OF doc holds fr(3,4) upd [unfolded fr(1)]] \<open>err = None\<close> fr(5) show thesis by (intro that [of r]) simp_all
  next
    case False
    with run st fr holds show thesis by (intro that [of win]) (auto simp: finish_open_def split: option.splits)
  qed
qed

lemma ensureWindow_fresh:
  assumes doc: "window_api_documented c" and ref: "controller_ref_documented E"
    and none: "getWindow c (cluster s) policy w = Inr None"
    and plan: "buildPlan E c (cluster s) (Some policy) (Some (wl_deploy w)) (wl_atRisk w) [] 0 = Inr plan"
    and kinds: "\<forall>x \<in> set (plan_steps plan). tgt_kind (stp_target x) \<noteq> window_kind"
    and run: "run_state (ensureWindow E c policy w) s = (Inr (), s')"
  obtains s1 scaled s2 win where "objects c (cluster s1) = objects c (cluster s)"
    and "run_state (plan_apply E c plan (pol_name policy)) s1 = ((scaled, None), s2)"
    and "objects c (cluster s') = objects c (cluster s2)"
    and "holds c (cluster s') win" and "win_namespace win = dep_namespace (wl_deploy w)"
    and "win_name win = workload_window_name policy (wl_deploy w)" and "ws_actions (win_spec win) = plan_actions plan []"
proof -
  have "run_state (open_window E c policy w None) s = (Inr (), s')"
    using run none by (simp add: ensureWindow_def unless_held_def run_and_then)
  then show thesis
  proof (cases rule: open_window_cases)
    case (opened plan' s0 win0 s1 scaled err s2 s3)
    have [simp]: "plan' = plan" using opened(2) plan by (simp add: ScaleActions_def existing_baseline_def)
    note rec = record_window_stored [OF doc ref _ opened(3), simplified]
    have "holds c (cluster s3) win0"
      using keepsD [OF keeps_plan_apply [OF documented_ignores [OF doc] kinds] opened(4) [simplified]] conjunct1 [OF rec] opened(5) by (simp add: holds_def)
    from finish_open_ok [OF doc this opened(6)] obtain win where "err = None" and win: "holds c (cluster s') win"
        "win_spec win = win_spec win0" "win_namespace win = win_namespace win0" "win_name win = win_name win0"
      by metis
    show thesis
    proof (rule that [of s1 scaled s2 win])
      show "objects c (cluster s1) = objects c (cluster s)"
        using keepsD [OF keeps_record_window [OF doc] opened(3)] opened(1) by simp
      show "objects c (cluster s') = objects c (cluster s2)"
        using keepsD [OF keeps_finish_open [OF doc] opened(6)] opened(5) by simp
      show "run_state (plan_apply E c plan (pol_name policy)) s1 = ((scaled, None), s2)" using opened(4) \<open>err = None\<close> by simp
    qed (use win rec in \<open>simp_all add: ScaleActions_def\<close>)
  qed simp_all
qed


section \<open>The fields after scale-back\<close>

lemma stamp_loop_updates:
  assumes "run_state (stamp_loop E c ns anns acts) s = (Inr (), s')"
    and "\<forall>a \<in> set acts. \<exists>t \<in> T. same_object (actionTarget (with_namespace ns a)) t"
  shows "field_updates E c T (\<lambda>_ i. i) (cluster s) (cluster s')"
  using assms
proof (induction acts arbitrary: s)
  case Nil
  then show ?case using fs.updates_refl by simp
next
  case (Cons a acts)
  have target: "(let t0 = actionTarget a in if tgt_namespace t0 = [] then t0\<lparr>tgt_namespace := ns\<rparr> else t0) = actionTarget (with_namespace ns a)"
    by (simp add: with_namespace_def actionTarget_def Let_def)
  from Cons.prems(1) obtain u s1 where one: "run_state (PatchAnnotations E c (actionTarget (with_namespace ns a)) anns) s = (Inr u, s1)"
    and rest: "run_state (stamp_loop E c ns anns acts) s1 = (Inr (), s')"
    using target by (auto simp: Let_def elim!: and_then_Inr_elim)
  have "field_updates E c T (\<lambda>_ i. i) (cluster s) (cluster s1)"
    using PatchAnnotations_updates [of E c _ anns s s1 T] one Cons.prems(2) by auto
  from fs.updates_trans [OF this Cons.IH [OF rest]] Cons.prems(2) show ?case by simp
qed

lemma begin_scale_back_lowers:
  assumes "patch_documented c" and "not_found_documented E c" and doc: "window_api_documented c" and holds: "holds c (cluster s) win"
    and foreign: "\<forall>t \<in> T. tgt_kind t \<noteq> window_kind" and kinds: "\<forall>a \<in> set (ws_actions (win_spec win)). sa_kind a \<noteq> window_kind"
    and con: "consistent (window_actions win)"
    and acts: "\<forall>a \<in> set (window_actions win). in_int32 (sa_baseline a) \<and> (\<exists>t \<in> T. same_field (actionTarget a) t)"
    and run: "run_state (begin_scale_back E c win policy dep now b) s = (Inr d, s')"
  shows "field_updates E c T (lowered (window_actions win)) (cluster s) (cluster s')"
  using run
proof (rule begin_scale_back_elim)
  let ?until = "now + scaleBackAfter policy dep"
  let ?w = "win\<lparr>win_spec := (win_spec win)\<lparr>ws_windowUntil := Some ?until\<rparr>\<rparr>"
  fix u s1 win' s2 v s3 win''
  assume restored: "run_state (scaleBackIfAllowed E c win) s = (Inr u, s1)"
    and patch: "Patch_Window c win ?w (cluster s1) = (Inr win', cluster s2)"
    and stamp: "run_state (stampCooldown E c policy dep win' ?until) s2 = (Inr v, s3)"
    and wrote: "run_state (writeStatus E c win' dep WindowPhaseCooling (coolingMessage b (wst_forcedCool (win_status win')))) s3 = (Inr win'', s')"
  from restored obtain s0 where "run_state (restoreActions E c win) s = (Inr (), s0)" and s0: "cluster s0 = cluster s1"
    by (auto simp: scaleBackIfAllowed_def clear_window_metrics_def run_emitf clearWorkloadPlanMetrics_def Let_def split: sum.splits prod.splits if_splits)
  from restoreActions_lowers [OF assms(1,2) con acts this(1)]
  have lower: "field_updates E c T (lowered (window_actions win)) (cluster s) (cluster s1)" by (simp add: s0)
  have "objects c (cluster s2) = objects c (cluster s1)"
    using keepsD [OF keeps_window_writes(1) [OF doc, of win ?w], of s1 "Inr win'" "s1\<lparr>cluster := cluster s2\<rparr>"] patch by simp
  from objects_field_updates [OF this [symmetric] foreign] have p: "field_updates E c T (\<lambda>_ i. i) (cluster s1) (cluster s2)" .
  have "keeps (Get_Window c) (scaleBackIfAllowed E c win)"
    unfolding scaleBackIfAllowed_def clear_window_metrics_def clearWorkloadPlanMetrics_def Let_def emitf_def
    by (intro keeps_intros keeps_restoreActions [OF documented_ignores [OF doc]] kinds)
  from keepsD [OF this restored] holds have "holds c (cluster s1) win" by (simp add: holds_def)
  from documented_patch [OF doc this _ _ _ patch] spec_until_eq [of "win_spec win'" "win_spec ?w"]
  have same: "ws_actions (win_spec win') = ws_actions (win_spec win)" "win_namespace win' = win_namespace win" by simp_all
  have "field_updates E c T (\<lambda>_ i. i) (cluster s2) (cluster s3)"
  proof (cases "rs_enabled (resolveStamp policy dep)")
    case True
    have "\<forall>a \<in> set (ws_actions (win_spec win)). \<exists>t \<in> T. same_object (actionTarget (with_namespace (win_namespace win) a)) t"
      using acts by (auto simp: window_actions_def same_field_def)
    with True stamp same show ?thesis
      by (intro stamp_loop_updates [of E c "win_namespace win" _ "ws_actions (win_spec win)"]) (simp_all add: stampCooldown_def Let_def ScaleActions_def)
  next
    case False
    with stamp fs.updates_refl show ?thesis by (simp add: stampCooldown_def Let_def)
  qed
  moreover have "objects c (cluster s3) = objects c (cluster s')"
    using keepsD [OF keeps_writeStatus [OF doc] wrote] by simp
  from objects_field_updates [OF this foreign] have "field_updates E c T (\<lambda>_ i. i) (cluster s3) (cluster s')" .
  ultimately have "field_updates E c T (\<lambda>_ i. i) (cluster s2) (cluster s')" by (rule fs.updates_trans)
  from fs.updates_trans [OF lower fs.updates_trans [OF p this]] show ?thesis .
qed


section \<open>Example\<close>

definition hpa_workload :: workloadState where
  "hpa_workload = \<lparr>wl_deploy = hpa_deployment, wl_atRisk = 2, wl_nodes = [''ip-7'']\<rparr>"

lemma hpa_store_windows [simp]:
  "mc_windows (hpa_store ws lo hi) = ws" "(hpa_store ws lo hi)\<lparr>mc_windows := vs\<rparr> = hpa_store vs lo hi"
  by (simp_all add: hpa_store_def)

lemma mem_create:
  "Create_Window mem_client win (hpa_store [] lo hi) =
     (let stored = win\<lparr>win_creationTimestamp := mc_now (hpa_store [] lo hi), win_generation := 1, win_status := empty_status\<rparr>
      in (Inr stored, hpa_store [stored] lo hi))"
  by (simp add: mem_client_def)

lemma mem_update:
  "window_is win old \<Longrightarrow> known_phase (wst_phase (win_status win)) \<Longrightarrow> Update_WindowStatus mem_client win (hpa_store [old] lo hi) =
     (Inr (old\<lparr>win_status := win_status win\<rparr>), hpa_store [old\<lparr>win_status := win_status win\<rparr>] lo hi)"
  by (simp add: mem_client_def put_window_def finalize_window_def)

lemma hpa_record:
  "\<exists>win l'. run_state (record_window std_env mem_client catalog_policy hpa_workload None hpa_plan) \<lparr>cluster = hpa_store [] 3 10, log = l\<rparr> =
     (Inr win, \<lparr>cluster = hpa_store [win] 3 10, log = l'\<rparr>) \<and> win_status win = empty_status"
  by (simp add: record_window_def Let_def run_and_then create_window_def std_env_def mem_create run_emitf)

lemma hpa_finish:
  assumes "wst_phase (win_status win) = WindowPhaseUnset"
  shows "\<exists>win' l'. run_state (finish_open std_env mem_client win msg None now) \<lparr>cluster = hpa_store [win] lo hi, log = l\<rparr> =
     (Inr (), \<lparr>cluster = hpa_store [win'] lo hi, log = l'\<rparr>)"
  using assms by (auto simp: finish_open_def open_status_def applyCapacityApplied_def Let_def mem_update window_is_def)

lemma hpa_ensure:
  "\<exists>win l. run_state (ensureWindow std_env mem_client catalog_policy hpa_workload) (hpa_state 3 10) =
     (Inr (), \<lparr>cluster = hpa_store [win] 5 10, log = l\<rparr>)"
proof -
  obtain f g where rec: "\<And>l. run_state (record_window std_env mem_client catalog_policy hpa_workload None hpa_plan)
      \<lparr>cluster = hpa_store [] 3 10, log = l\<rparr> = (Inr (f l), \<lparr>cluster = hpa_store [f l] 3 10, log = g l\<rparr>)"
    and st: "\<And>l. wst_phase (win_status (f l)) = WindowPhaseUnset"
    using hpa_record by (metis empty_status_def EvictionGuardWindowStatus.select_convs(1))
  obtain h where app: "\<And>ws l. run_state (plan_apply std_env mem_client hpa_plan ''p'') \<lparr>cluster = hpa_store ws 3 10, log = l\<rparr> =
      ((True, None), \<lparr>cluster = hpa_store ws 5 10, log = h ws l\<rparr>)"
    using hpa_apply by metis
  have none: "getWindow mem_client (hpa_store [] 3 10) catalog_policy hpa_workload = Inr None"
    by (simp add: getWindow_def mem_client_def)
  have wl: "wl_deploy hpa_workload = hpa_deployment" "wl_atRisk hpa_workload = 2" "pol_name catalog_policy = ''p''"
    by (simp_all add: hpa_workload_def catalog_policy_def)
  show ?thesis
    using hpa_buildPlan [of "[]"] hpa_finish [OF st]
    by (simp add: hpa_state_def ensureWindow_def unless_held_def run_and_then none open_window_def Let_def setWorkloadPlanMetrics_def
        ScaleActions_def wl rec app run_emitf)
qed

lemma std_env_controller_ref: "controller_ref_documented std_env"
  by (auto simp: controller_ref_documented_def std_env_def)

lemma hpa_none: "getWindow mem_client (hpa_store [] lo hi) catalog_policy hpa_workload = Inr None"
  by (simp add: getWindow_def mem_client_def)


section \<open>Properties\<close>

text \<open>
  C7. No capacity without a window: when \<open>ensureWindow\<close> changed any object that is not a
  window, with success or not, it had first stored the window of the workload on the server,
  with the scale actions of the plan recorded, and every such change was made by applying
  that plan afterwards. A failed create or patch of the window leaves capacity alone.
\<close>

theorem window_before_capacity:
  assumes "window_api_documented c" and "controller_ref_documented E" and "named_windows c (cluster s)"
    and "run_state (ensureWindow E c policy w) s = (r, s')" and "objects c (cluster s') \<noteq> objects c (cluster s)"
  shows "\<exists>existing plan win s1 out s2.
     getWindow c (cluster s) policy w = Inr existing \<and>
     buildPlan E c (cluster s) (Some policy) (Some (wl_deploy w)) (wl_atRisk w) (ScaleActions existing) (existing_baseline existing) = Inr plan \<and>
     holds c (cluster s1) win \<and> win_namespace win = dep_namespace (wl_deploy w) \<and>
     win_name win = workload_window_name policy (wl_deploy w) \<and>
     ws_actions (win_spec win) = plan_actions plan (ScaleActions existing) \<and> objects c (cluster s1) = objects c (cluster s) \<and>
     run_state (plan_apply E c plan (pol_name policy)) s1 = (out, s2) \<and> objects c (cluster s') = objects c (cluster s2)"
proof -
  obtain existing where get: "getWindow c (cluster s) policy w = Inr existing"
    using assms(4,5) by (auto simp: ensureWindow_def unless_held_def run_and_then split: sum.splits)
  have run: "run_state (open_window E c policy w existing) s = (r, s')"
    using assms(4,5) get by (auto simp: ensureWindow_def unless_held_def run_and_then split: if_splits)
  from run show ?thesis
  proof (cases rule: open_window_cases)
    case (no_plan e)
    with assms(5) show ?thesis by simp
  next
    case (no_record plan s0 e)
    from keepsD [OF keeps_record_window [OF assms(1)] no_record(3)] no_record(1) assms(5) show ?thesis by simp
  next
    case (opened plan s0 win s1 scaled err s2 s3)
    have "\<And>old. existing = Some old \<Longrightarrow> holds c (cluster s0) old \<and> win_namespace old = dep_namespace (wl_deploy w) \<and>
        win_name old = workload_window_name policy (wl_deploy w)"
      using getWindow_held [OF assms(3)] get opened(1) by simp
    note rec = record_window_stored [OF assms(1,2) this opened(3)]
    have "objects c (cluster s1) = objects c (cluster s)"
      using keepsD [OF keeps_record_window [OF assms(1)] opened(3)] opened(1) by simp
    moreover have "objects c (cluster s') = objects c (cluster s2)"
      using keepsD [OF keeps_finish_open [OF assms(1)] opened(6)] opened(5) by simp
    ultimately show ?thesis using get opened(2,4) rec by blast
  qed
qed

theorem window_before_capacity_witness:
  "\<exists>s' win s1 s2 out. run_state (ensureWindow std_env mem_client catalog_policy hpa_workload) (hpa_state 3 10) = (Inr (), s') \<and>
     holds mem_client (cluster s1) win \<and> ws_actions (win_spec win) = plan_actions hpa_plan [] \<and>
     run_state (plan_apply std_env mem_client hpa_plan ''p'') s1 = (out, s2) \<and>
     objects mem_client (cluster s1) = objects mem_client (hpa_memory 3 10) \<and> objects mem_client (cluster s') = objects mem_client (cluster s2)"
proof -
  obtain win l where run: "run_state (ensureWindow std_env mem_client catalog_policy hpa_workload) (hpa_state 3 10) =
      (Inr (), \<lparr>cluster = hpa_store [win] 5 10, log = l\<rparr>)"
    using hpa_ensure by blast
  let ?g = "(''autoscaling'', ''v2'', ''HorizontalPodAutoscaler'')"
  have "objects mem_client (hpa_store [win] 5 10) ?g ''shop'' ''web'' \<noteq> objects mem_client (hpa_store [] 3 10) ?g ''shop'' ''web''"
    by (simp add: objects_def window_kind_def mem_client_def hpa_store_def hpa_object_def)
  then have "objects mem_client (cluster \<lparr>cluster = hpa_store [win] 5 10, log = l\<rparr>) \<noteq> objects mem_client (cluster (hpa_state 3 10))"
    by (auto simp: hpa_state_def)
  from window_before_capacity [OF mem_window_api std_env_controller_ref mem_named_windows run this]
  obtain existing plan win' s1 out s2 where ex: "getWindow mem_client (hpa_memory 3 10) catalog_policy hpa_workload = Inr existing"
    and plan: "buildPlan std_env mem_client (hpa_memory 3 10) (Some catalog_policy) (Some (wl_deploy hpa_workload)) (wl_atRisk hpa_workload)
      (ScaleActions existing) (existing_baseline existing) = Inr plan"
    and rest: "holds mem_client (cluster s1) win'" "ws_actions (win_spec win') = plan_actions plan (ScaleActions existing)"
      "objects mem_client (cluster s1) = objects mem_client (hpa_memory 3 10)"
      "run_state (plan_apply std_env mem_client plan (pol_name catalog_policy)) s1 = (out, s2)"
      "objects mem_client (hpa_store [win] 5 10) = objects mem_client (cluster s2)"
    by (auto simp: hpa_state_def)
  have e: "existing = None" using ex hpa_none by simp
  have "plan = hpa_plan" using plan hpa_buildPlan [of "[]"] by (simp add: e hpa_workload_def ScaleActions_def existing_baseline_def)
  moreover have "pol_name catalog_policy = ''p''" by (simp add: catalog_policy_def)
  ultimately show ?thesis using run rest e
    by (intro exI [of _ "\<lparr>cluster = hpa_store [win] 5 10, log = l\<rparr>"] exI [of _ win'] exI [of _ s1] exI [of _ s2] exI [of _ out])
      (simp add: ScaleActions_def)
qed

text \<open>
  C8. A window gives back what it took. The policy controller opens a fresh window for a
  workload without error; later, in any state in which the stored window still records the
  same actions and the tracked fields still have the values that opening left, the window
  controller begins the scale-back without error. Then every tracked capacity field (the
  fields of the plan and any others) holds the value it had before the window was opened,
  except that a field marked \<open>skipDownscaling\<close> keeps its raised value. The planned fields
  are set before the window opens and none of them is a field of a window object.
\<close>

theorem open_then_scale_back_restores:
  assumes "nested_documented E" and "patch_documented c" and "not_found_documented E c" and "window_api_documented c"
    and "controller_ref_documented E"
    and "separated T" and "\<forall>t \<in> T. tgt_kind t \<noteq> window_kind"
    and "getWindow c (cluster s) policy w = Inr None"
    and "buildPlan E c (cluster s) (Some policy) (Some (wl_deploy w)) (wl_atRisk w) [] 0 = Inr plan"
    and "stp_target ` set (plan_steps plan) \<subseteq> T"
    and "\<forall>x \<in> set (plan_steps plan). field_value E c (cluster s) (stp_target x) \<noteq> None \<and> tgt_namespace (stp_target x) \<noteq> []"
    and "skips_agree (plan_steps plan)"
    and "run_state (ensureWindow E c policy w) s = (Inr (), s1)"
    and "Get_Window c (cluster s1) (dep_namespace (wl_deploy w)) (workload_window_name policy (wl_deploy w)) = Inr win"
    and "holds c (cluster u) win'" and "win_namespace win' = win_namespace win" and "ws_actions (win_spec win') = ws_actions (win_spec win)"
    and "\<forall>t \<in> T. field_value E c (cluster u) t = field_value E c (cluster s1) t"
    and "run_state (begin_scale_back E c win' policy dep now b) u = (Inr d, s2)"
    and "t \<in> T" and "field_value E c (cluster s) t = Some i"
  shows "field_value E c (cluster s2) t =
     Some (if \<exists>x \<in> set (plan_steps plan). same_field (stp_target x) t \<and> stp_skipDownscaling x
       then max i (plan_desired plan) else i)"
proof -
  have foreign: "\<forall>x \<in> set (plan_steps plan). tgt_kind (stp_target x) \<noteq> window_kind" using assms(7,10) by auto
  show ?thesis
  proof (rule ensureWindow_fresh [OF assms(4,5,8,9) foreign assms(13)])
    fix r1 scaled r2 win0
    assume pre: "objects c (cluster r1) = objects c (cluster s)" and app: "run_state (plan_apply E c plan (pol_name policy)) r1 = ((scaled, None), r2)"
      and post: "objects c (cluster s1) = objects c (cluster r2)"
      and win0: "holds c (cluster s1) win0" "win_namespace win0 = dep_namespace (wl_deploy w)"
        "win_name win0 = workload_window_name policy (wl_deploy w)" "ws_actions (win_spec win0) = plan_actions plan []"
    have "win = win0" using win0 assms(14) by (simp add: holds_def)
    with win0 assms(17) have acts: "ws_actions (win_spec win') = plan_actions plan []" by simp
    note rec = fresh_plan_actions [OF assms(1,9,10,11,12) acts]
    have "\<forall>a \<in> set (ws_actions (win_spec win')). sa_kind a \<noteq> window_kind"
      using foreign by (auto simp: acts plan_actions_def mergeActions_def Let_def step_action_def scaleAction_def)
    note lower = begin_scale_back_lowers [OF assms(2,3,4) assms(15) assms(7) this rec(3,4) assms(19)]
    have up: "field_updates E c T (raised_to (plan_desired plan) (plan_steps plan)) (cluster s) (cluster s1)"
      using fs.updates_trans [OF fs.updates_trans [OF objects_field_updates [OF pre [symmetric] assms(7)]
          fresh_plan_raises [OF assms(9,10) app]] objects_field_updates [OF post [symmetric] assms(7)]] .
    have T: "store_targets E c T = T" using assms(1,2,6) by (simp add: store_targets_def)
    have "field_updates E c T (\<lambda>_ i. i) (cluster s1) (cluster u)"
      unfolding fs.updates_def using assms(18) by (simp add: T)
    note mid = fs.updates_trans [OF up this]
    show ?thesis
      by (rule raise_lower_cancel [OF assms(1,9,10,11,12) acts fs.updates_trans [OF mid lower]]) (use assms(20,21) T in simp_all)
  qed
qed

lemma mem_patch:
  "Patch_Window mem_client win (win\<lparr>win_spec := sp\<rparr>) (hpa_store [win] lo hi) =
     (Inr (win\<lparr>win_spec := sp\<rparr>), hpa_store [win\<lparr>win_spec := sp\<rparr>] lo hi)"
  by (simp add: mem_client_def put_window_def finalize_window_def window_is_def)

lemma hpa_close:
  assumes "window_actions win = window_actions hpa_window"
  shows "\<exists>d s'. run_state (begin_scale_back std_env mem_client win catalog_policy (Some hpa_deployment) now b)
     \<lparr>cluster = hpa_store [win] 5 10, log = l\<rparr> = (Inr d, s')"
proof -
  let ?until = "now + scaleBackAfter catalog_policy (Some hpa_deployment)"
  let ?new = "win\<lparr>win_spec := (win_spec win)\<lparr>ws_windowUntil := Some ?until\<rparr>\<rparr>"
  have "restoreActions std_env mem_client win = restoreActions std_env mem_client hpa_window"
    using assms by (simp add: restoreActions_def ScaleActions_def window_actions_def)
  then have restored: "\<exists>l'. run_state (scaleBackIfAllowed std_env mem_client win) \<lparr>cluster = hpa_store [win] 5 10, log = l\<rparr> =
      (Inr (), \<lparr>cluster = hpa_store [win] 3 10, log = l'\<rparr>)"
    by (simp add: scaleBackIfAllowed_def hpa_restore clear_window_metrics_def clearWorkloadPlanMetrics_def Let_def run_emitf)
  then obtain l' where back': "run_state (scaleBackIfAllowed std_env mem_client win) \<lparr>cluster = hpa_store [win] 5 10, log = l\<rparr> =
      (Inr (), \<lparr>cluster = hpa_store [win] 3 10, log = l'\<rparr>)" by blast
  have "\<exists>win' s'. run_state (writeStatus std_env mem_client ?new (Some hpa_deployment) WindowPhaseCooling
      (coolingMessage b (wst_forcedCool (win_status ?new)))) \<lparr>cluster = hpa_store [?new] 3 10, log = l'\<rparr> = (Inr win', s')"
  proof (rule writeStatus_succeeds)
    show "spareCounts std_env mem_client (cluster \<lparr>cluster = hpa_store [?new] 3 10, log = l'\<rparr>) ?new (Some hpa_deployment) = Inr (0, 0)"
      by (simp add: spareCounts_def hpa_deployment_def web_items(1)) (simp add: mem_client_def hpa_store_def)
  next
    fix v :: EvictionGuardWindow
    assume "win_namespace v = win_namespace ?new" "win_name v = win_name ?new" "wst_phase (win_status v) = WindowPhaseCooling"
    then show "\<not> isl (fst (Update_WindowStatus mem_client v (cluster \<lparr>cluster = hpa_store [?new] 3 10, log = l'\<rparr>)))"
      by (simp add: mem_client_def put_window_def window_is_def)
  qed
  then obtain win' s' where wrote: "run_state (writeStatus std_env mem_client ?new (Some hpa_deployment) WindowPhaseCooling
      (coolingMessage b (wst_forcedCool (win_status ?new)))) \<lparr>cluster = hpa_store [?new] 3 10, log = l'\<rparr> = (Inr win', s')" by blast
  have put: "Patch_Window mem_client win ?new (hpa_store [win] 3 10) = (Inr ?new, hpa_store [?new] 3 10)"
    by (rule mem_patch)
  show ?thesis
    using back' wrote put by (simp add: begin_scale_back_def Let_def run_and_then stampCooldown_def hpa_no_stamp)
qed

theorem open_then_scale_back_restores_witness:
  "\<exists>s1 win d s2. run_state (ensureWindow std_env mem_client catalog_policy hpa_workload) (hpa_state 3 10) = (Inr (), s1) \<and>
     field_value std_env mem_client (cluster s1) (hpa_target ''spec.minReplicas'') = Some 5 \<and>
     run_state (begin_scale_back std_env mem_client win catalog_policy (Some hpa_deployment) hour False) s1 = (Inr d, s2) \<and>
     field_value std_env mem_client (cluster s2) (hpa_target ''spec.minReplicas'') = Some 3"
proof -
  obtain win l where run: "run_state (ensureWindow std_env mem_client catalog_policy hpa_workload) (hpa_state 3 10) =
      (Inr (), \<lparr>cluster = hpa_store [win] 5 10, log = l\<rparr>)"
    using hpa_ensure by blast
  let ?s1 = "\<lparr>cluster = hpa_store [win] 5 10, log = l\<rparr>"
  have wl: "wl_deploy hpa_workload = hpa_deployment" "wl_atRisk hpa_workload = 2" by (simp_all add: hpa_workload_def)
  have plan: "buildPlan std_env mem_client (cluster (hpa_state 3 10)) (Some catalog_policy) (Some (wl_deploy hpa_workload)) (wl_atRisk hpa_workload) [] 0
      = Inr hpa_plan" using hpa_buildPlan by (simp add: hpa_state_def wl)
  have none: "getWindow mem_client (cluster (hpa_state 3 10)) catalog_policy hpa_workload = Inr None" by (simp add: hpa_state_def hpa_none)
  have kinds: "\<forall>t \<in> hpa_targets. tgt_kind t \<noteq> window_kind" by (simp add: hpa_targets_def hpa_target_def window_kind_def)
  with hpa_plan_targets have foreign: "\<forall>x \<in> set (plan_steps hpa_plan). tgt_kind (stp_target x) \<noteq> window_kind" by blast
  obtain win0 where win0: "holds mem_client (cluster ?s1) win0" "win_namespace win0 = dep_namespace hpa_deployment"
      "win_name win0 = workload_window_name catalog_policy hpa_deployment" "ws_actions (win_spec win0) = plan_actions hpa_plan []"
    using ensureWindow_fresh [OF mem_window_api std_env_controller_ref none plan foreign run] unfolding wl by metis
  have "win0 = win" using win0(1) by (simp add: mem_holds_iff split: if_splits)
  note win = win0 [unfolded this]
  have "window_actions win = window_actions hpa_window"
    using win(2,4) by (simp add: window_actions_def hpa_window_def some_window_def hpa_deployment_def plain_deployment_def)
  then obtain d s2 where close: "run_state (begin_scale_back std_env mem_client win catalog_policy (Some hpa_deployment) hour False) ?s1 = (Inr d, s2)"
    using hpa_close by blast
  have "Get_Window mem_client (cluster ?s1) (dep_namespace (wl_deploy hpa_workload)) (workload_window_name catalog_policy (wl_deploy hpa_workload)) = Inr win"
    using win(1-3) by (simp add: holds_def wl)
  moreover have "\<forall>x \<in> set (plan_steps hpa_plan). field_value std_env mem_client (cluster (hpa_state 3 10)) (stp_target x) \<noteq> None \<and>
      tgt_namespace (stp_target x) \<noteq> []"
    using hpa_initial by (simp add: hpa_plan_def hpa_step_def) (simp add: hpa_target_def)
  moreover have "skips_agree (plan_steps hpa_plan)" "\<not> (\<exists>x \<in> set (plan_steps hpa_plan). stp_skipDownscaling x)"
    by (simp_all add: skips_agree_def hpa_plan_def hpa_step_def)
  ultimately have "field_value std_env mem_client (cluster s2) (hpa_target ''spec.minReplicas'') = Some 3"
    using open_then_scale_back_restores [OF std_env_nested mem_patch_documented mem_not_found mem_window_api std_env_controller_ref hpa_separated kinds
        none plan hpa_plan_targets _ _ run _ win(1) refl refl _ close hpa_members(1) hpa_initial(1)] by fastforce
  moreover have "field_value std_env mem_client (cluster ?s1) (hpa_target ''spec.minReplicas'') = Some 5"
    by (simp add: hpa_values in_int32_def)
  ultimately show ?thesis using run close by blast
qed

end
