(* ===== verification/Policy_Deletion.thy ===== *)
theory Policy_Deletion
  imports Policy_Theorems
begin

text \<open>
  The deletion of a policy: \<open>cleanup\<close> of the policy controller asks for the deletion of its
  windows, the window controller restores each and releases its finalizer, and \<open>cleanup\<close>
  releases the finalizer of the policy once no window is left. \<open>deletion_documented\<close> is what
  the API server promises about deletions and finalizers; lists are taken to be up to date.
\<close>


section \<open>Specification\<close>

definition window_key :: "EvictionGuardWindow \<Rightarrow> string \<times> string" where
  "window_key win = (win_namespace win, win_name win)"

definition policy_kind :: string where [go_simps]: "policy_kind = ''EvictionGuardPolicy''"

definition unless_missing :: "goerror + 'a \<Rightarrow> bool" where
  "unless_missing r = (case r of Inl e \<Rightarrow> IsNotFound e | Inr _ \<Rightarrow> True)"

text \<open>A list by policy is complete and exact.\<close>

definition list_documented :: "'w client \<Rightarrow> bool" where
  "list_documented c \<longleftrightarrow>
     (\<forall>w p items win. p \<noteq> [] \<longrightarrow> List_WindowsByPolicy c w p = Inr items \<longrightarrow>
        (win \<in> set items \<longleftrightarrow> holds c w win \<and> ws_policyName (win_spec win) = p))"

text \<open>Between \<open>w\<close> and \<open>w'\<close> the windows with the keys \<open>K\<close> were deleted: they are gone, or marked when they had finalizers.\<close>

definition marked :: "'w client \<Rightarrow> (string \<times> string) set \<Rightarrow> 'w \<Rightarrow> 'w \<Rightarrow> bool" where
  "marked c K w w' \<longleftrightarrow>
     Get_Policy c w' = Get_Policy c w \<and>
     (\<forall>v. window_key v \<notin> K \<longrightarrow> (holds c w' v \<longleftrightarrow> holds c w v)) \<and>
     (\<forall>v. window_key v \<in> K \<longrightarrow> holds c w' v \<longrightarrow>
        \<not> time_is_zero (win_deletionTimestamp v) \<and> win_finalizers v \<noteq> [] \<and>
        (\<exists>old. holds c w old \<and> window_key old = window_key v \<and> win_spec old = win_spec v \<and> win_finalizers old = win_finalizers v))"

definition delete_documented :: "'w client \<Rightarrow> bool" where
  "delete_documented c \<longleftrightarrow>
     (\<forall>win w r w'. Delete_Window c win w = (r, w') \<longrightarrow> unless_missing r \<longrightarrow> marked c {window_key win} w w')"

text \<open>An object that is marked goes with its last finalizer.\<close>

definition finalize_documented :: "'w client \<Rightarrow> bool" where
  "finalize_documented c \<longleftrightarrow>
     (\<forall>base new w r w'. holds c w base \<longrightarrow> window_key new = window_key base \<longrightarrow>
        \<not> time_is_zero (win_deletionTimestamp base) \<longrightarrow> win_deletionTimestamp new = win_deletionTimestamp base \<longrightarrow>
        win_finalizers base \<noteq> [] \<longrightarrow> win_finalizers new = [] \<longrightarrow> Patch_Window c base new w = (Inr r, w') \<longrightarrow>
        Get_Policy c w' = Get_Policy c w \<and> (\<forall>v. holds c w' v \<longleftrightarrow> holds c w v \<and> window_key v \<noteq> window_key base)) \<and>
     (\<forall>base new w r w'. Get_Policy c w (pol_name base) = Inr base \<longrightarrow> pol_name new = pol_name base \<longrightarrow>
        \<not> time_is_zero (pol_deletionTimestamp base) \<longrightarrow> pol_deletionTimestamp new = pol_deletionTimestamp base \<longrightarrow>
        pol_finalizers base \<noteq> [] \<longrightarrow> pol_finalizers new = [] \<longrightarrow> Patch_Policy c base new w = (Inr r, w') \<longrightarrow>
        Get_Window c w' = Get_Window c w \<and> (\<exists>e. Get_Policy c w' (pol_name base) = Inl e \<and> IsNotFound e))"

definition deletion_documented :: "'w client \<Rightarrow> bool" where
  "deletion_documented c \<longleftrightarrow> list_documented c \<and> delete_documented c \<and> finalize_documented c \<and>
     ignores_patches (Get_Policy c) c policy_kind \<and> ignores_patches (Get_Window c) c window_kind \<and> (\<forall>w. named_windows c w)"

text \<open>A window that this program alone keeps from being deleted.\<close>

definition releasable :: "EvictionGuardWindow \<Rightarrow> bool" where
  "releasable win \<longleftrightarrow> set (win_finalizers win) \<subseteq> {WindowFinalizer} \<and>
     (\<forall>a \<in> set (ws_actions (win_spec win)). sa_kind a \<noteq> window_kind \<and> sa_kind a \<noteq> policy_kind)"

text \<open>The windows with the given keys are reconciled in turn, between two reconciles of the policy.\<close>

fun reconcile_each :: "env \<Rightarrow> 'w client \<Rightarrow> (string \<times> string) list \<Rightarrow> ('w, unit) fallible" where
  "reconcile_each E c [] = ok ()"
| "reconcile_each E c (k # ks) = and_then (window_reconcile E c (fst k) (snd k)) (\<lambda>_. reconcile_each E c ks)"

definition deletion_rounds :: "env \<Rightarrow> 'w client \<Rightarrow> string \<Rightarrow> (string \<times> string) list \<Rightarrow> ('w, unit) fallible" where
  "deletion_rounds E c name ks =
     and_then (policy_reconcile E c name) (\<lambda>_.
     and_then (reconcile_each E c ks) (\<lambda>_.
     and_then (policy_reconcile E c name) (\<lambda>_. ok ())))"


section \<open>Lemmas\<close>

lemma holds_key_inject: "holds c w u \<Longrightarrow> holds c w v \<Longrightarrow> window_key u = window_key v \<Longrightarrow> u = v"
  unfolding holds_def window_key_def by (metis Pair_inject sum.inject(2))

lemma marked_refl: "marked c {} w w"
  by (simp add: marked_def)

lemma marked_trans:
  assumes one: "marked c K w w1" and two: "marked c L w1 w2"
  shows "marked c (K \<union> L) w w2"
proof -
  have "\<not> time_is_zero (win_deletionTimestamp v) \<and> win_finalizers v \<noteq> [] \<and>
      (\<exists>old. holds c w old \<and> window_key old = window_key v \<and> win_spec old = win_spec v \<and> win_finalizers old = win_finalizers v)"
    if v: "window_key v \<in> K \<union> L" "holds c w2 v" for v
  proof (cases "window_key v \<in> L")
    case True
    with two v obtain mid where mid: "holds c w1 mid" "window_key mid = window_key v" "win_spec mid = win_spec v"
        "win_finalizers mid = win_finalizers v" and m: "\<not> time_is_zero (win_deletionTimestamp v)" "win_finalizers v \<noteq> []"
      unfolding marked_def by blast
    have "\<exists>old. holds c w old \<and> window_key old = window_key mid \<and> win_spec old = win_spec mid \<and> win_finalizers old = win_finalizers mid"
      using one mid(1) unfolding marked_def by (cases "window_key mid \<in> K") blast+
    with mid m show ?thesis by simp
  next
    case False
    with two v(2) have "holds c w1 v" unfolding marked_def by blast
    with one v(1) False show ?thesis unfolding marked_def by blast
  qed
  moreover have "Get_Policy c w2 = Get_Policy c w" using one two by (simp add: marked_def)
  moreover have "holds c w2 v \<longleftrightarrow> holds c w v" if "window_key v \<notin> K \<union> L" for v
    using one two that unfolding marked_def by blast
  ultimately show ?thesis unfolding marked_def by blast
qed

lemma delete_loop_marks:
  assumes "delete_documented c"
  shows "run_state (delete_loop c items) s = (Inr u, s') \<Longrightarrow> marked c (window_key ` set items) (cluster s) (cluster s')"
proof (induction items arbitrary: s)
  case (Cons win items)
  obtain r w where del: "Delete_Window c win (cluster s) = (r, w)" by fastforce
  have miss: "unless_missing r" and rest: "run_state (delete_loop c items) (s\<lparr>cluster := w\<rparr>) = (Inr u, s')"
    using Cons.prems del
    by (auto simp: unless_missing_def IgnoreNotFound_def split: sum.splits if_splits option.splits)
  from marked_trans [OF assms [unfolded delete_documented_def, rule_format, OF del miss]] Cons.IH [OF rest] show ?case by simp
qed (simp add: marked_refl)

subsection \<open>The window controller releases a marked window\<close>

text \<open>Between \<open>w\<close> and \<open>w'\<close> exactly the windows with the keys \<open>K\<close> have gone.\<close>

definition released :: "'w client \<Rightarrow> (string \<times> string) set \<Rightarrow> 'w \<Rightarrow> 'w \<Rightarrow> bool" where
  "released c K w w' \<longleftrightarrow> Get_Policy c w' = Get_Policy c w \<and> (\<forall>v. holds c w' v \<longleftrightarrow> holds c w v \<and> window_key v \<notin> K)"

definition marked_window :: "EvictionGuardWindow \<Rightarrow> bool" where
  "marked_window win \<longleftrightarrow> \<not> time_is_zero (win_deletionTimestamp win) \<and> win_finalizers win \<noteq> [] \<and> releasable win"

lemma finalize_documentedD:
  assumes "finalize_documented c" and "holds c w base" and "window_key new = window_key base"
    and "\<not> time_is_zero (win_deletionTimestamp base)" and "win_deletionTimestamp new = win_deletionTimestamp base"
    and "win_finalizers base \<noteq> []" and "win_finalizers new = []" and "Patch_Window c base new w = (Inr r, w')"
  shows "Get_Policy c w' = Get_Policy c w \<and> (\<forall>v. holds c w' v \<longleftrightarrow> holds c w v \<and> window_key v \<noteq> window_key base)"
  using assms(1) [unfolded finalize_documented_def, THEN conjunct1, rule_format, OF assms(2-8)] by blast

lemma scaleBackAndUnfinalize_releases:
  assumes doc: "deletion_documented c" and fin: "finalizers_documented E" and held: "holds c (cluster s) win" and m: "marked_window win"
    and run: "run_state (scaleBackAndUnfinalize E c win) s = (Inr d, s')"
  shows "released c {window_key win} (cluster s) (cluster s')"
proof -
  let ?new = "win\<lparr>win_finalizers := RemoveFinalizer E (win_finalizers win) WindowFinalizer\<rparr>"
  have kinds: "\<forall>a \<in> set (ws_actions (win_spec win)). sa_kind a \<noteq> window_kind" "\<forall>a \<in> set (ws_actions (win_spec win)). sa_kind a \<noteq> policy_kind"
    and fs: "set (win_finalizers win) \<subseteq> {WindowFinalizer}" "win_finalizers win \<noteq> []"
    using m by (auto simp: marked_window_def releasable_def)
  then have "WindowFinalizer \<in> set (win_finalizers win)" by (cases "win_finalizers win") auto
  then have contains: "ContainsFinalizer E (win_finalizers win) WindowFinalizer" using fin by (simp add: finalizers_documented_def)
  have "set (win_finalizers ?new) = {}" using fin fs(1) by (auto simp: finalizers_documented_def)
  then have none: "win_finalizers ?new = []" by (simp only: set_empty)
  obtain r s1 where rest: "run_state (restoreActions E c win) s = (r, s1)" by fastforce
  from run rest contains obtain r2 where patch: "Patch_Window c win ?new (cluster s1) = (Inr r2, cluster s')"
    by (auto simp: scaleBackAndUnfinalize_def clear_window_metrics_def remove_window_finalizer_def run_and_then prod_eq_iff
        split: if_splits sum.splits prod.splits)
  have gw: "Get_Window c (cluster s1) = Get_Window c (cluster s)" and gp: "Get_Policy c (cluster s1) = Get_Policy c (cluster s)"
    using keepsD [OF keeps_restoreActions rest] doc kinds by (auto simp: deletion_documented_def)
  have "Get_Policy c (cluster s') = Get_Policy c (cluster s1) \<and>
      (\<forall>v. holds c (cluster s') v \<longleftrightarrow> holds c (cluster s1) v \<and> window_key v \<noteq> window_key win)"
  proof (rule finalize_documentedD [OF _ _ _ _ _ _ none patch])
    show "finalize_documented c" using doc by (simp add: deletion_documented_def)
    show "holds c (cluster s1) win" using held gw by (simp add: holds_def)
  qed (use m in \<open>simp_all add: marked_window_def window_key_def\<close>)
  with gw gp show ?thesis by (simp add: released_def holds_def)
qed

lemma window_reconcile_releases:
  assumes doc: "deletion_documented c" and fin: "finalizers_documented E"
    and m: "\<forall>win. holds c (cluster s) win \<longrightarrow> window_key win = (ns, n) \<longrightarrow> marked_window win"
    and run: "run_state (window_reconcile E c ns n) s = (Inr d, s')"
  shows "released c {(ns, n)} (cluster s) (cluster s')"
proof (cases "Get_Window c (cluster s) ns n")
  case (Inl e)
  with run have "s' = s" by (auto simp: window_reconcile_def split: option.splits)
  with Inl show ?thesis by (auto simp: released_def holds_def window_key_def)
next
  case (Inr win)
  with doc have key: "window_key win = (ns, n)" by (auto simp: deletion_documented_def named_windows_def window_key_def)
  with Inr have held: "holds c (cluster s) win" by (simp add: holds_def window_key_def)
  with m key have "marked_window win" by blast
  moreover from this run Inr have "run_state (scaleBackAndUnfinalize E c win) s = (Inr d, s')"
    by (simp add: window_reconcile_def reconcile_window_def marked_window_def)
  ultimately show ?thesis using scaleBackAndUnfinalize_releases [OF doc fin held] key by simp
qed

lemma reconcile_each_releases:
  assumes doc: "deletion_documented c" and fin: "finalizers_documented E"
  shows "\<forall>win. holds c (cluster s) win \<longrightarrow> window_key win \<in> set ks \<longrightarrow> marked_window win \<Longrightarrow>
    run_state (reconcile_each E c ks) s = (Inr u, s') \<Longrightarrow> released c (set ks) (cluster s) (cluster s')"
proof (induction ks arbitrary: s)
  case (Cons k ks)
  from Cons.prems(2) obtain d s1 where one: "run_state (window_reconcile E c (fst k) (snd k)) s = (Inr d, s1)"
    and rest: "run_state (reconcile_each E c ks) s1 = (Inr u, s')" by (auto elim: and_then_Inr_elim)
  have first: "released c {k} (cluster s) (cluster s1)"
    using window_reconcile_releases [OF doc fin _ one] Cons.prems(1) by simp
  then have "\<forall>win. holds c (cluster s1) win \<longrightarrow> window_key win \<in> set ks \<longrightarrow> marked_window win"
    using Cons.prems(1) by (simp add: released_def)
  from Cons.IH [OF this rest] first show ?case by (auto simp: released_def)
qed (simp add: released_def)

subsection \<open>The policy controller waits for the windows\<close>

lemma finalize_policyD:
  assumes "finalize_documented c" and "Get_Policy c w (pol_name base) = Inr base" and "pol_name new = pol_name base"
    and "\<not> time_is_zero (pol_deletionTimestamp base)" and "pol_deletionTimestamp new = pol_deletionTimestamp base"
    and "pol_finalizers base \<noteq> []" and "pol_finalizers new = []" and "Patch_Policy c base new w = (Inr r, w')"
  shows "Get_Window c w' = Get_Window c w \<and> (\<exists>e. Get_Policy c w' (pol_name base) = Inl e \<and> IsNotFound e)"
  using assms(1) [unfolded finalize_documented_def, THEN conjunct2, rule_format, OF assms(2-8)] by blast

definition deleting_policy :: "EvictionGuardPolicy \<Rightarrow> bool" where
  "deleting_policy policy \<longleftrightarrow> pol_name policy \<noteq> [] \<and> \<not> time_is_zero (pol_deletionTimestamp policy) \<and> set (pol_finalizers policy) = {PolicyFinalizer}"

lemma policy_reconcile_deleting:
  assumes doc: "deletion_documented c" and fin: "finalizers_documented E"
    and get: "Get_Policy c (cluster s) (pol_name policy) = Inr policy" and del: "deleting_policy policy"
    and run: "run_state (policy_reconcile E c (pol_name policy)) s = (Inr d, s')"
  obtains (waits) items where "List_WindowsByPolicy c (cluster s) (pol_name policy) = Inr items" and "items \<noteq> []"
      and "marked c (window_key ` set items) (cluster s) (cluster s')"
    | (ends) e where "List_WindowsByPolicy c (cluster s) (pol_name policy) = Inr []" and "Get_Window c (cluster s') = Get_Window c (cluster s)"
      and "Get_Policy c (cluster s') (pol_name policy) = Inl e" and "IsNotFound e"
proof -
  let ?new = "policy\<lparr>pol_finalizers := RemoveFinalizer E (pol_finalizers policy) PolicyFinalizer\<rparr>"
  have "run_state (cleanup E c policy) s = (Inr d, s')"
    using run get del by (simp add: policy_reconcile_def reconcile_policy_def deleting_policy_def)
  then obtain items where list: "List_WindowsByPolicy c (cluster s) (pol_name policy) = Inr items"
    and rest: "run_state (if length items > 0 then and_then (delete_loop c items) (\<lambda>_. ok requeuePolicyCleanup)
       else if ContainsFinalizer E (pol_finalizers policy) PolicyFinalizer then and_then (mutate (Patch_Policy c policy ?new)) (\<lambda>_. ok 0)
       else ok 0) s = (Inr d, s')"
    unfolding cleanup_def by (elim and_then_Inr_elim) simp
  show thesis
  proof (cases "items = []")
    case False
    with rest obtain u where loop: "run_state (delete_loop c items) s = (Inr u, s')" by (auto elim: and_then_Inr_elim)
    have "delete_documented c" using doc by (simp add: deletion_documented_def)
    from waits [OF list False delete_loop_marks [OF this loop]] show thesis .
  next
    case True
    have contains: "ContainsFinalizer E (pol_finalizers policy) PolicyFinalizer" using fin del by (simp add: finalizers_documented_def deleting_policy_def)
    with rest True obtain r where patch: "Patch_Policy c policy ?new (cluster s) = (Inr r, cluster s')"
      by (auto simp: run_and_then prod_eq_iff split: sum.splits prod.splits)
    have "set (pol_finalizers ?new) = {}" using fin del by (simp add: finalizers_documented_def deleting_policy_def)
    then have none: "pol_finalizers ?new = []" by (simp only: set_empty)
    have "Get_Window c (cluster s') = Get_Window c (cluster s) \<and> (\<exists>e. Get_Policy c (cluster s') (pol_name policy) = Inl e \<and> IsNotFound e)"
    proof (rule finalize_policyD [OF _ get _ _ _ _ none patch])
      show "finalize_documented c" using doc by (simp add: deletion_documented_def)
      show "\<not> time_is_zero (pol_deletionTimestamp policy)" using del by (simp add: deleting_policy_def)
      show "pol_finalizers policy \<noteq> []" using del by (auto simp only: deleting_policy_def set_empty2 [symmetric])
    qed simp_all
    with ends list True show thesis by blast
  qed
qed

lemma listD:
  assumes "deletion_documented c" and "List_WindowsByPolicy c w (pol_name policy) = Inr items" and "deleting_policy policy"
  shows "win \<in> set items \<longleftrightarrow> holds c w win \<and> ws_policyName (win_spec win) = pol_name policy"
  using assms by (auto simp: deletion_documented_def list_documented_def deleting_policy_def)

lemma marked_items:
  assumes m: "marked c (window_key ` set items) w w1" and listed: "\<forall>it \<in> set items. holds c w it" and rel: "\<forall>it \<in> set items. releasable it"
    and win: "holds c w1 win" "window_key win \<in> window_key ` set items"
  shows "marked_window win"
proof -
  from m win obtain old where old: "holds c w old" "window_key old = window_key win" "win_spec old = win_spec win"
      "win_finalizers old = win_finalizers win" and v: "\<not> time_is_zero (win_deletionTimestamp win)" "win_finalizers win \<noteq> []"
    unfolding marked_def by blast
  from win(2) obtain item where it: "item \<in> set items" "window_key item = window_key old" using old(2) by auto
  from it(1) listed have "holds c w item" by blast
  from holds_key_inject [OF this old(1) it(2)] rel it(1) have "releasable old" by blast
  with old v show ?thesis by (simp add: marked_window_def releasable_def)
qed

lemma released_items:
  assumes m: "marked c (window_key ` set items) w w1" and r: "released c (window_key ` set items) w1 w2"
    and listed: "\<And>win. win \<in> set items \<longleftrightarrow> holds c w win \<and> ws_policyName (win_spec win) = p"
  shows "holds c w2 win \<longleftrightarrow> holds c w win \<and> ws_policyName (win_spec win) \<noteq> p"
proof -
  have "holds c w2 win \<longleftrightarrow> holds c w win \<and> window_key win \<notin> window_key ` set items"
    using m r unfolding marked_def released_def by blast
  moreover have "window_key win \<in> window_key ` set items \<longleftrightarrow> win \<in> set items" if "holds c w win"
  proof
    assume "window_key win \<in> window_key ` set items"
    then obtain item where it: "item \<in> set items" "window_key win = window_key item" by blast
    from it(1) have "holds c w item" by (simp only: listed)
    from holds_key_inject [OF that this it(2)] it(1) show "win \<in> set items" by simp
  qed simp
  ultimately show ?thesis using listed by blast
qed


section \<open>Properties\<close>

text \<open>
  C10. Deleting a policy comes to an end. The policy is marked for deletion and holds no
  finalizer but its own, its windows none but theirs. One reconcile of the policy, one of
  each of its windows and one more of the policy, when none of them returns an error, leave
  the server without the policy and without its windows; every other window is there as
  before. No further reconcile is needed, whatever the windows were doing.
\<close>

theorem policy_deletion_completes:
  assumes doc: "deletion_documented c" and fin: "finalizers_documented E"
    and get: "Get_Policy c (cluster s) (pol_name policy) = Inr policy" and del: "deleting_policy policy"
    and list: "List_WindowsByPolicy c (cluster s) (pol_name policy) = Inr items" and rel: "\<forall>win \<in> set items. releasable win"
    and run: "run_state (deletion_rounds E c (pol_name policy) (map window_key items)) s = (Inr (), s')"
  shows "(\<exists>e. Get_Policy c (cluster s') (pol_name policy) = Inl e \<and> IsNotFound e) \<and>
    (\<forall>win. holds c (cluster s') win \<longleftrightarrow> holds c (cluster s) win \<and> ws_policyName (win_spec win) \<noteq> pol_name policy)"
proof -
  from run obtain d1 s1 u s2 d3 where r1: "run_state (policy_reconcile E c (pol_name policy)) s = (Inr d1, s1)"
    and r2: "run_state (reconcile_each E c (map window_key items)) s1 = (Inr u, s2)"
    and r3: "run_state (policy_reconcile E c (pol_name policy)) s2 = (Inr d3, s')"
    unfolding deletion_rounds_def by (auto elim!: and_then_Inr_elim)
  note listed = listD [OF doc list del]
  show ?thesis
  proof (rule policy_reconcile_deleting [OF doc fin get del r1])
    fix e
    assume l: "List_WindowsByPolicy c (cluster s) (pol_name policy) = Inr []" and w: "Get_Window c (cluster s1) = Get_Window c (cluster s)"
      and gone: "Get_Policy c (cluster s1) (pol_name policy) = Inl e" "IsNotFound e"
    have "items = []" using l list by simp
    with r2 r3 gone have "s' = s1" by (auto simp: policy_reconcile_def IgnoreNotFound_def)
    with w gone listed \<open>items = []\<close> show ?thesis by (auto simp: holds_def)
  next
    fix items'
    assume "List_WindowsByPolicy c (cluster s) (pol_name policy) = Inr items'" and m: "marked c (window_key ` set items') (cluster s) (cluster s1)"
    with list have m: "marked c (window_key ` set items) (cluster s) (cluster s1)" by simp
    have "\<forall>win. holds c (cluster s1) win \<longrightarrow> window_key win \<in> set (map window_key items) \<longrightarrow> marked_window win"
      using marked_items [OF m _ rel] listed by simp
    from reconcile_each_releases [OF doc fin this r2]
    have r: "released c (window_key ` set items) (cluster s1) (cluster s2)" by simp
    note left = released_items [OF m r listed]
    have get2: "Get_Policy c (cluster s2) (pol_name policy) = Inr policy" using m r get by (simp add: marked_def released_def)
    show ?thesis
    proof (rule policy_reconcile_deleting [OF doc fin get2 del r3])
      fix items2 assume l2: "List_WindowsByPolicy c (cluster s2) (pol_name policy) = Inr items2" "items2 \<noteq> []"
      then obtain win where "win \<in> set items2" by (cases items2) auto
      with listD [OF doc l2(1) del] left show ?thesis by blast
    next
      fix e assume "Get_Window c (cluster s') = Get_Window c (cluster s2)" "Get_Policy c (cluster s') (pol_name policy) = Inl e" "IsNotFound e"
      with left show ?thesis by (auto simp: holds_def)
    qed
  qed
qed

subsection \<open>A concrete deletion\<close>

lemma mem_holds_key: "holds mem_client m v \<longleftrightarrow> find (\<lambda>x. window_key x = window_key v) (mc_windows m) = Some v"
proof -
  have "(\<lambda>x. window_key x = window_key v) = window_is v" by (auto simp: fun_eq_iff window_is_def window_key_def)
  then show ?thesis by (simp add: mem_holds_iff)
qed

lemma window_is_key: "window_is win = (\<lambda>x. window_key x = window_key win)"
  by (auto simp: fun_eq_iff window_is_def window_key_def)

lemma find_key_filter:
  "find (\<lambda>x. window_key x = k) (filter (\<lambda>x. window_key x \<noteq> k') ws) = (if k = k' then None else find (\<lambda>x. window_key x = k) ws)"
  by (induction ws) auto

lemma find_key_map:
  "(\<And>x. window_key (g x) = window_key x) \<Longrightarrow>
   find (\<lambda>x. window_key x = k) (map (\<lambda>x. if window_key x = k' then g x else x) ws) =
     (if k = k' then map_option g (find (\<lambda>x. window_key x = k) ws) else find (\<lambda>x. window_key x = k) ws)"
  by (induction ws) auto

lemma find_member: "find P xs = Some x \<Longrightarrow> x \<in> set xs"
  by (auto simp: find_Some_iff)

lemma mem_list_documented: "list_documented mem_client"
proof -
  have "List_WindowsByPolicy mem_client m n = Inr (filter (\<lambda>w. n \<in> set (IndexWindowPolicyName w)) (visible_windows m))" for m n
    by (simp add: mem_client_def)
  then show ?thesis
    by (auto simp: list_documented_def mem_holds_iff visible_windows_def IndexWindowPolicyName_def dest: find_member split: if_splits)
qed

lemma mem_delete_documented: "delete_documented mem_client"
  unfolding delete_documented_def
proof (intro allI impI)
  fix win :: EvictionGuardWindow and m r m'
  assume del: "Delete_Window mem_client win m = (r, m')"
  let ?g = "\<lambda>x. x\<lparr>win_deletionTimestamp := Some (max 1 (mc_now m))\<rparr>"
  have g: "window_key (?g x) = window_key x" for x :: EvictionGuardWindow by (simp add: window_key_def)
  consider (missing) "find (\<lambda>x. window_key x = window_key win) (mc_windows m) = None" "m' = m"
    | (removed) "mc_windows m' = filter (\<lambda>x. window_key x \<noteq> window_key win) (mc_windows m)" "mc_policies m' = mc_policies m"
    | (stamped) old where "find (\<lambda>x. window_key x = window_key win) (mc_windows m) = Some old" "win_finalizers old \<noteq> []"
        "mc_windows m' = map (\<lambda>x. if window_key x = window_key win then ?g x else x) (mc_windows m)" "mc_policies m' = mc_policies m"
    using del by (auto simp: mem_client_def window_is_key split: option.splits if_splits)
  then show "marked mem_client {window_key win} m m'"
  proof cases
    case missing
    then show ?thesis by (auto simp: marked_def mem_holds_key)
  next
    case removed
    then show ?thesis by (auto simp: marked_def mem_holds_key find_key_filter) (simp add: mem_client_def)
  next
    case stamped
    have "\<exists>o'. holds mem_client m o' \<and> v = ?g o' \<and> win_finalizers o' \<noteq> []" if "holds mem_client m' v" "window_key v = window_key win" for v
    proof -
      from that have "Some v = map_option ?g (Some old)"
        using stamped(1) by (simp add: mem_holds_key stamped(3) find_key_map [OF g])
      moreover have "holds mem_client m old" using stamped(1) by (auto simp: mem_holds_key find_Some_iff)
      ultimately show ?thesis using stamped(2) by auto
    qed
    moreover have "Get_Policy mem_client m' = Get_Policy mem_client m" using stamped(4) by (simp add: mem_client_def)
    moreover have "holds mem_client m' v \<longleftrightarrow> holds mem_client m v" if "window_key v \<noteq> window_key win" for v
      using that by (simp add: mem_holds_key stamped(3) find_key_map [OF g])
    ultimately show ?thesis unfolding marked_def by (fastforce simp: time_is_zero_def window_key_def)
  qed
qed

lemma mem_finalize_documented: "finalize_documented mem_client"
  unfolding finalize_documented_def
proof (intro conjI allI impI)
  fix base new :: EvictionGuardWindow and m r m'
  assume held: "holds mem_client m base" and key: "window_key new = window_key base" and z: "\<not> time_is_zero (win_deletionTimestamp base)"
    and del: "win_deletionTimestamp new = win_deletionTimestamp base" and fs: "win_finalizers base \<noteq> []" "win_finalizers new = []"
    and patch: "Patch_Window mem_client base new m = (Inr r, m')"
  have stamp: "win_deletionTimestamp new \<noteq> None" using z del by (cases "win_deletionTimestamp base") (simp_all add: time_is_zero_def)
  let ?new = "merge_window base new base"
  have found: "find (window_is new) (mc_windows m) = Some base" using held key by (simp add: mem_holds_key window_is_key)
  have "filter (\<lambda>x. \<not> window_is new x) (map (\<lambda>x. if window_is new x then ?new else x) ws) = filter (\<lambda>x. window_key x \<noteq> window_key base) ws" for ws
    using key by (induction ws) (auto simp: window_is_key window_key_def)
  with patch found stamp fs have m': "mc_windows m' = filter (\<lambda>x. window_key x \<noteq> window_key base) (mc_windows m)" "mc_policies m' = mc_policies m"
    by (auto simp: mem_client_def put_window_def finalize_window_def)
  show "Get_Policy mem_client m' = Get_Policy mem_client m" using m'(2) by (simp add: mem_client_def)
  show "holds mem_client m' v \<longleftrightarrow> holds mem_client m v \<and> window_key v \<noteq> window_key base" for v
    by (auto simp: mem_holds_key m'(1) find_key_filter)
next
  fix base new :: EvictionGuardPolicy and m r m'
  assume z: "\<not> time_is_zero (pol_deletionTimestamp base)" and del: "pol_deletionTimestamp new = pol_deletionTimestamp base"
    and name: "pol_name new = pol_name base"
    and fs: "pol_finalizers base \<noteq> []" "pol_finalizers new = []" and patch: "Patch_Policy mem_client base new m = (Inr r, m')"
  have "pol_deletionTimestamp new \<noteq> None" using z del by (cases "pol_deletionTimestamp base") (simp_all add: time_is_zero_def)
  with patch fs name have m': "mc_windows m' = mc_windows m" "\<forall>x \<in> set (mc_policies m'). pol_name x \<noteq> pol_name base"
    by (auto simp: mem_client_def put_policy_def finalize_policy_def split: option.splits)
  show "Get_Window mem_client m' = Get_Window mem_client m" using m'(1) by (simp add: mem_client_def)
  have "find (\<lambda>x. pol_name x = pol_name base) (mc_policies m') = None" using m'(2) by (simp add: find_None_iff)
  then show "\<exists>e. Get_Policy mem_client m' (pol_name base) = Inl e \<and> IsNotFound e" by (simp add: mem_client_def)
qed

lemma mem_deletion_documented: "deletion_documented mem_client"
  unfolding deletion_documented_def
proof (intro conjI allI)
  show "ignores_patches (Get_Policy mem_client) mem_client policy_kind"
    by (auto simp: ignores_patches_def mem_client_def split: option.splits)
qed (fact mem_list_documented mem_delete_documented mem_finalize_documented documented_ignores [OF mem_window_api] mem_named_windows)+

definition deleted_policy :: EvictionGuardPolicy where
  "deleted_policy = cordon_policy\<lparr>pol_finalizers := [PolicyFinalizer], pol_deletionTimestamp := Some hour\<rparr>"

definition deletion_cluster :: memory where
  "deletion_cluster = (web_cluster True [])\<lparr>mc_policies := [deleted_policy]\<rparr>"

lemma deleted_policy_facts:
  "pol_name deleted_policy = ''p''" "deleting_policy deleted_policy"
  "Get_Policy mem_client deletion_cluster (pol_name deleted_policy) = Inr deleted_policy"
  "List_WindowsByPolicy mem_client deletion_cluster (pol_name deleted_policy) = Inr [web_window True []]"
proof -
  show name: "pol_name deleted_policy = ''p''" by (simp add: deleted_policy_def cordon_policy_def plain_policy_def)
  show "deleting_policy deleted_policy"
    by (simp add: deleting_policy_def name) (simp add: deleted_policy_def time_is_zero_def hour_def minute_def second_def)
  show "Get_Policy mem_client deletion_cluster (pol_name deleted_policy) = Inr deleted_policy"
    by (simp add: mem_client_def deletion_cluster_def)
  show "List_WindowsByPolicy mem_client deletion_cluster (pol_name deleted_policy) = Inr [web_window True []]"
    by (simp add: name mem_client_def deletion_cluster_def web_cluster_def visible_windows_def IndexWindowPolicyName_def web_window_facts window_is_def)
qed

lemma deletion_runs:
  "\<exists>s'. run_state (deletion_rounds std_env mem_client (pol_name deleted_policy) (map window_key [web_window True []]))
     \<lparr>cluster = deletion_cluster, log = []\<rparr> = (Inr (), s')"
proof -
  let ?s = "\<lparr>cluster = deletion_cluster, log = [] :: effect list\<rparr>" and ?win = "web_window True []"
  note del = deleted_policy_facts(2) and get = deleted_policy_facts(3) and list = deleted_policy_facts(4)
  let ?marked = "?win\<lparr>win_deletionTimestamp := Some (max 1 (2 * hour))\<rparr>"
  let ?c1 = "deletion_cluster\<lparr>mc_windows := [?marked]\<rparr>" and ?c2 = "deletion_cluster\<lparr>mc_windows := []\<rparr>"
  have fin: "ContainsFinalizer std_env fs f \<longleftrightarrow> f \<in> set fs" "RemoveFinalizer std_env [f] f = []" for fs f by (simp_all add: std_env_def)
  have dels: "\<not> time_is_zero (pol_deletionTimestamp deleted_policy)" "\<not> time_is_zero (win_deletionTimestamp ?marked)"
    using del by (simp_all add: deleting_policy_def time_is_zero_def)
  have fins: "pol_finalizers deleted_policy = [PolicyFinalizer]" "win_finalizers ?marked = [WindowFinalizer]" "ws_actions (win_spec ?marked) = []"
    by (simp_all add: deleted_policy_def web_window_def)
  have "Delete_Window mem_client ?win deletion_cluster = (Inr (), ?c1)"
    by (simp add: mem_client_def deletion_cluster_def web_cluster_def window_is_def) (simp add: web_window_def)
  with list get dels(1) have r1: "run_state (policy_reconcile std_env mem_client (pol_name deleted_policy)) ?s = (Inr requeuePolicyCleanup, ?s\<lparr>cluster := ?c1\<rparr>)"
    by (simp add: policy_reconcile_def reconcile_policy_def cleanup_def run_and_then)
  have g2: "Get_Window mem_client ?c1 ''shop'' (win_name ?win) = Inr ?marked"
    by (simp add: mem_client_def web_window_facts)
  have p2: "Patch_Window mem_client ?marked (?marked\<lparr>win_finalizers := []\<rparr>) ?c1 = (Inr (?marked\<lparr>win_finalizers := []\<rparr>), ?c2)"
    using merge_window_held(3) [of ?marked "[]"] fins(2) by (simp add: mem_client_def put_window_def finalize_window_def window_is_def)
  have r2: "\<exists>l. run_state (window_reconcile std_env mem_client ''shop'' (win_name ?win)) (?s\<lparr>cluster := ?c1\<rparr>) = (Inr 0, \<lparr>cluster = ?c2, log = l\<rparr>)"
    using g2 p2 dels(2) fins
    by (simp add: window_reconcile_def reconcile_window_def scaleBackAndUnfinalize_def restoreActions_def ScaleActions_def fin
        remove_window_finalizer_def run_and_then clear_window_metrics_def clearWorkloadPlanMetrics_def Let_def)
  then obtain l where r2: "run_state (window_reconcile std_env mem_client ''shop'' (win_name ?win)) (?s\<lparr>cluster := ?c1\<rparr>) = (Inr 0, \<lparr>cluster = ?c2, log = l\<rparr>)" ..
  have g3: "Get_Policy mem_client ?c2 (pol_name deleted_policy) = Inr deleted_policy" "List_WindowsByPolicy mem_client ?c2 (pol_name deleted_policy) = Inr []"
      "\<exists>r w. Patch_Policy mem_client deleted_policy (deleted_policy\<lparr>pol_finalizers := []\<rparr>) ?c2 = (Inr r, w)"
    by (simp_all add: mem_client_def deletion_cluster_def visible_windows_def put_policy_def)
  then have r3: "\<exists>s'. run_state (policy_reconcile std_env mem_client (pol_name deleted_policy)) \<lparr>cluster = ?c2, log = l\<rparr> = (Inr 0, s')"
    using dels(1) by (auto simp: policy_reconcile_def reconcile_policy_def cleanup_def run_and_then fin fins(1))
  from r1 r2 r3 show ?thesis by (auto simp: deletion_rounds_def run_and_then window_key_def web_window_facts)
qed

theorem policy_deletion_completes_witness:
  "\<exists>s'. run_state (deletion_rounds std_env mem_client ''p'' [(''shop'', win_name (web_window True []))]) \<lparr>cluster = deletion_cluster, log = []\<rparr> = (Inr (), s') \<and>
     (\<exists>e. Get_Policy mem_client (cluster s') ''p'' = Inl e \<and> IsNotFound e) \<and> \<not> holds mem_client (cluster s') (web_window True [])"
proof -
  let ?s = "\<lparr>cluster = deletion_cluster, log = [] :: effect list\<rparr>"
  obtain s' where run: "run_state (deletion_rounds std_env mem_client (pol_name deleted_policy) (map window_key [web_window True []])) ?s = (Inr (), s')"
    using deletion_runs by blast
  have rel: "\<forall>win \<in> set [web_window True []]. releasable win" by (simp add: releasable_def web_window_def)
  from policy_deletion_completes [OF mem_deletion_documented std_env_finalizers _ deleted_policy_facts(2) _ rel run] run show ?thesis
    using deleted_policy_facts(3,4) by (auto simp: deleted_policy_facts(1) window_key_def web_window_facts)
qed

end
