(* ===== verification/Window_Walk.thy ===== *)
theory Window_Walk
  imports Window_Store
begin

text \<open>
  Statements about whole handlers and the walk through the window controller. \<open>tracks\<close> is
  the Hoare-style statement that the proofs compose: from a cluster with the invariant a
  handler moves within a relation, keeps the invariant and returns something with a
  property. The locale \<open>invariant_frame\<close> has its rules. The locale \<open>window_walk\<close> extends it by
  what a proof has to say of the single writes of the window controller and of the copies of
  the window that it passes on; its lemmas carry that through every path of \<open>Reconcile\<close>.
\<close>


section \<open>Rules for handlers\<close>

definition tracks :: "('w \<Rightarrow> bool) \<Rightarrow> ('w \<Rightarrow> 'w \<Rightarrow> bool) \<Rightarrow> ('a \<Rightarrow> bool) \<Rightarrow> ('w, 'e, 'a) handler \<Rightarrow> bool" where
  "tracks I R Q m \<longleftrightarrow>
     (\<forall>s r s'. run_state m s = (r, s') \<longrightarrow> I (cluster s) \<longrightarrow> R (cluster s) (cluster s') \<and> I (cluster s') \<and> Q r)"

definition okay :: "('a \<Rightarrow> bool) \<Rightarrow> goerror + 'a \<Rightarrow> bool" where
  "okay Q r = (case r of Inl _ \<Rightarrow> True | Inr a \<Rightarrow> Q a)"

lemma okay_simps [simp]: "okay Q (Inl e)" "okay Q (Inr a) = Q a"
  by (simp_all add: okay_def)

lemma okay_True [simp]: "okay (\<lambda>_. True) r"
  by (cases r) simp_all

lemma tracksD: "tracks I R Q m \<Longrightarrow> run_state m s = (r, s') \<Longrightarrow> I (cluster s) \<Longrightarrow> R (cluster s) (cluster s') \<and> I (cluster s') \<and> Q r"
  unfolding tracks_def by blast

lemma tracks_weaken: "tracks I R Q m \<Longrightarrow> (\<And>r. Q r \<Longrightarrow> Q' r) \<Longrightarrow> tracks I R Q' m"
  unfolding tracks_def by blast

lemma tracks_okay: "tracks I R (\<lambda>_. True) m \<Longrightarrow> tracks I R (okay (\<lambda>_. True)) m"
  by (erule tracks_weaken) simp

locale invariant_frame =
  fixes I :: "'w \<Rightarrow> bool" and R :: "'w \<Rightarrow> 'w \<Rightarrow> bool"
  assumes refl: "R w w"
    and trans: "R w w1 \<Longrightarrow> R w1 w2 \<Longrightarrow> R w w2"
    and inv: "I w \<Longrightarrow> R w w' \<Longrightarrow> I w'"
begin

lemma pure: "(\<And>s. cluster (snd (run_state m s)) = cluster s) \<Longrightarrow> (\<And>s. I (cluster s) \<Longrightarrow> Q (fst (run_state m s))) \<Longrightarrow> tracks I R Q m"
  unfolding tracks_def by (metis fst_conv snd_conv refl)

lemma return: "Q a \<Longrightarrow> tracks I R Q (State_Monad.return a)"
  by (rule pure) simp_all

lemma ok_rule: "Q (Inr a) \<Longrightarrow> tracks I R Q (ok a)"
  by (rule pure) simp_all

lemma fail_rule: "Q (Inl e) \<Longrightarrow> tracks I R Q (fail e)"
  by (rule pure) simp_all

lemma emit_rule: "tracks I R (\<lambda>_. True) (emit e)"
  by (rule pure) simp_all

lemma query_rule: "(\<And>w. I w \<Longrightarrow> Q (f w)) \<Longrightarrow> tracks I R Q (query f)"
  by (rule pure) simp_all

lemma mutate_rule: "(\<And>w r w'. I w \<Longrightarrow> f w = (r, w') \<Longrightarrow> R w w' \<and> Q r) \<Longrightarrow> tracks I R Q (mutate f)"
  unfolding tracks_def using inv by (auto simp: prod_eq_iff)

lemma bind: "tracks I R Q m \<Longrightarrow> (\<And>a. Q a \<Longrightarrow> tracks I R Q' (k a)) \<Longrightarrow> tracks I R Q' (State_Monad.bind m k)"
proof -
  assume m: "tracks I R Q m" and k: "\<And>a. Q a \<Longrightarrow> tracks I R Q' (k a)"
  show ?thesis
    unfolding tracks_def
  proof (intro allI impI)
    fix s r s'
    assume run: "run_state (State_Monad.bind m k) s = (r, s')" and i: "I (cluster s)"
    obtain a s1 where first: "run_state m s = (a, s1)" by fastforce
    from tracksD [OF m first i] have one: "R (cluster s) (cluster s1)" "I (cluster s1)" "Q a" by auto
    have "run_state (k a) s1 = (r, s')" using run first by simp
    from tracksD [OF k [OF one(3)] this one(2)] one(1) trans show "R (cluster s) (cluster s') \<and> I (cluster s') \<and> Q' r" by blast
  qed
qed

lemma and_then_rule:
  "tracks I R (okay Q) m \<Longrightarrow> (\<And>a. Q a \<Longrightarrow> tracks I R (okay Q') (k a)) \<Longrightarrow> tracks I R (okay Q') (and_then m k)"
  unfolding and_then_def by (rule bind [where Q = "okay Q"]) (auto simp: okay_def intro: fail_rule split: sum.split)

lemma cond: "(b \<Longrightarrow> tracks I R Q m) \<Longrightarrow> (\<not> b \<Longrightarrow> tracks I R Q n) \<Longrightarrow> tracks I R Q (if b then m else n)"
  by simp

lemma kept: "keeps f m \<Longrightarrow> (\<And>w w'. f w' = f w \<Longrightarrow> R w w') \<Longrightarrow> tracks I R (\<lambda>_. True) m"
  unfolding tracks_def keeps_def using inv by (metis snd_conv)

end


text \<open>A side condition of a statement can be part of its invariant.\<close>

lemma tracks_under: "(b \<Longrightarrow> tracks I R Q m) \<Longrightarrow> tracks (\<lambda>w. b \<and> I w) R Q m"
  unfolding tracks_def by blast

lemma tracks_given: "b \<Longrightarrow> tracks (\<lambda>w. b \<and> I w) R Q m \<Longrightarrow> tracks I R Q m"
  unfolding tracks_def by blast


section \<open>The window controller\<close>

lemma keeps_clear_window_metrics [keeps_intros]: "keeps f (clear_window_metrics win)"
  unfolding clear_window_metrics_def clearWorkloadPlanMetrics_def Let_def by (intro keeps_intros)

text \<open>The deployment that \<open>Reconcile\<close> reads for a window.\<close>

definition target_deployment :: "'w client \<Rightarrow> 'w \<Rightarrow> EvictionGuardWindow \<Rightarrow> Deployment option" where
  "target_deployment c w win =
     (let target = ws_target (win_spec win) in
      if wr_kind target = [] \<or> wr_kind target = ''Deployment''
      then (case Get_Deployment c w (wr_namespace target) (wr_name target) of Inl _ \<Rightarrow> None | Inr dep \<Rightarrow> Some dep)
      else None)"

lemma reconcile_window_cases:
  assumes "run_state (reconcile_window E c win) s = (r, s')"
  obtains (finish) "run_state (scaleBackAndUnfinalize E c win) s = (r, s')"
    | (add) fs where "run_state (and_then (mutate (Patch_Window c win (win\<lparr>win_finalizers := fs\<rparr>))) (\<lambda>_. ok 0)) s = (r, s')"
    | (target) policy where "run_state (reconcile_target E c win policy (target_deployment c (cluster s) win)) s = (r, s')"
    | (failed) "s' = s"
  using assms unfolding reconcile_window_def scaleBackAndClose_def target_deployment_def Let_def
  by (simp split: if_splits sum.splits)

text \<open>
  The copies of the window satisfy \<open>C\<close>; a status may be put into one when its \<open>SpareReady\<close> is
  the old one or what the pods of the target \<open>D\<close> say.
\<close>

locale window_walk = invariant_frame I R for I :: "'w \<Rightarrow> bool" and R :: "'w \<Rightarrow> 'w \<Rightarrow> bool" +
  fixes c :: "'w client" and E :: env and C :: "EvictionGuardWindow \<Rightarrow> bool" and D :: "Deployment option \<Rightarrow> bool"
  assumes finalizers_rule: "C win \<Longrightarrow> tracks I R (okay C) (mutate (Patch_Window c win (win\<lparr>win_finalizers := fs\<rparr>)) :: ('w, EvictionGuardWindow) fallible)"
    and until_rule: "C win \<Longrightarrow> tracks I R (okay C) (mutate (Patch_Window c win (win\<lparr>win_spec := (win_spec win)\<lparr>ws_windowUntil := t\<rparr>\<rparr>)) ::
        ('w, EvictionGuardWindow) fallible)"
    and status_rule: "C win \<Longrightarrow> tracks I R (okay C) (mutate (Update_WindowStatus c win) :: ('w, EvictionGuardWindow) fallible)"
    and delete_rule: "C win \<Longrightarrow> tracks I R (\<lambda>_. True) (mutate (Delete_Window c win) :: ('w, unit) fallible)"
    and restore_rule: "C win \<Longrightarrow> tracks I R (\<lambda>_. True) (restoreActions E c win)"
    and stamp_rule: "C win \<Longrightarrow> tracks I R (okay (\<lambda>_. True)) (stampCooldown E c policy dep win until)"
    and same_flag: "C win \<Longrightarrow> wst_spareReady st = wst_spareReady (win_status win) \<Longrightarrow> C (win\<lparr>win_status := st\<rparr>)"
    and counted_flag: "C win \<Longrightarrow> D dep \<Longrightarrow> I w \<Longrightarrow> spareCounts E c w win dep = Inr (ready, safe) \<Longrightarrow>
      wst_spareReady st = (ws_baseline (win_spec win) \<le> safe) \<Longrightarrow> C (win\<lparr>win_status := st\<rparr>)"
begin

lemma silent: "(\<And>f :: 'w \<Rightarrow> 'w. keeps f m) \<Longrightarrow> tracks I R (\<lambda>_. True) m"
  using kept [of "\<lambda>w. w" m] refl by simp

lemma remove_finalizer_walk: "C win \<Longrightarrow> tracks I R (okay C) (remove_window_finalizer E c win)"
  unfolding remove_window_finalizer_def by (intro cond finalizers_rule ok_rule) simp_all

lemma deleteClosedWindow_walk: "C win \<Longrightarrow> tracks I R (okay (\<lambda>_. True)) (deleteClosedWindow E c win)"
  unfolding deleteClosedWindow_def
  by (intro bind [OF silent [OF keeps_clear_window_metrics]] and_then_rule [OF remove_finalizer_walk] bind [OF delete_rule])
    (auto intro: ok_rule fail_rule split: sum.split)

lemma abortCooldown_walk: "C win \<Longrightarrow> tracks I R (okay C) (abortCooldown E c win policy dep)"
  unfolding abortCooldown_def by (intro cond and_then_rule [OF until_rule] and_then_rule [OF stamp_rule] ok_rule) simp_all

lemma scaleBackAndUnfinalize_walk: "C win \<Longrightarrow> tracks I R (okay (\<lambda>_. True)) (scaleBackAndUnfinalize E c win)"
  unfolding scaleBackAndUnfinalize_def
  by (intro bind [OF restore_rule] cond bind [OF silent [OF keeps_clear_window_metrics]] and_then_rule [OF remove_finalizer_walk]
      ok_rule fail_rule) simp_all

lemma scaleBackIfAllowed_walk: "C win \<Longrightarrow> tracks I R (okay (\<lambda>_. True)) (scaleBackIfAllowed E c win)"
  unfolding scaleBackIfAllowed_def
  by (auto intro!: bind [OF restore_rule] bind [OF emit_rule] bind [OF silent [OF keeps_clear_window_metrics]] bind [OF silent [OF keeps_emitf]]
      ok_rule fail_rule split: sum.split)

lemma writeStatus_walk:
  assumes "C win" and "D dep"
  shows "tracks I R (okay C) (writeStatus E c win dep phase msg)"
  unfolding writeStatus_def Let_def
proof (rule and_then_rule [OF query_rule [where Q = "okay (\<lambda>(ready, safe). \<forall>st. wst_spareReady st = (ws_baseline (win_spec win) \<le> safe) \<longrightarrow> C (win\<lparr>win_status := st\<rparr>))"]], goal_cases)
  case (1 w)
  then show ?case using counted_flag [OF assms] by (cases "spareCounts E c w win dep") auto
next
  case (2 counts)
  obtain ready safe where counts: "counts = (ready, safe)" by fastforce
  have spare: "tracks I R (\<lambda>(_, win1). C win1) (applySpareStatus E win ready safe now)" for now
    using 2 counts by (intro pure) (simp_all add: applySpareStatus_def Let_def)
  show ?case
    unfolding counts prod.case
    by (auto intro!: bind [OF query_rule [where Q = "\<lambda>_. True"]] bind [OF spare] bind [OF silent] keeps_intros cond ok_rule status_rule same_flag)
qed

lemma begin_scale_back_walk:
  assumes "C win" and "D dep"
  shows "tracks I R (okay (\<lambda>_. True)) (begin_scale_back E c win policy dep now b)"
  unfolding begin_scale_back_def Let_def
  by (intro and_then_rule [OF scaleBackIfAllowed_walk] and_then_rule [OF until_rule] and_then_rule [OF stamp_rule] and_then_rule [OF writeStatus_walk] ok_rule assms)
    simp_all

lemma perform_walk:
  assumes "C win" and "D dep"
  shows "tracks I R (okay (\<lambda>_. True)) (perform E c win policy dep now b until dec)"
proof -
  note wrote = and_then_rule [OF writeStatus_walk [OF _ assms(2)]]
  have open_case: "tracks I R (okay (\<lambda>_. True))
      (and_then (if AbortCooldown dec then abortCooldown E c win policy dep else ok win) (\<lambda>win'.
       and_then (writeStatus E c win' dep (Phase dec) (Message dec)) (\<lambda>win''. ok (openRequeue policy win'' now))))"
    by (intro and_then_rule [where Q = C] cond abortCooldown_walk wrote ok_rule) (simp_all add: assms(1))
  show ?thesis
    unfolding perform_def
    by (cases "Step dec"; simp only: windowStep.case;
        intro open_case begin_scale_back_walk [OF assms] wrote [OF assms(1)] ok_rule cond deleteClosedWindow_walk; simp)
qed

lemma force_cool_walk: "C win \<Longrightarrow> tracks I R (okay C) (force_cool c win policy b)"
  unfolding force_cool_def Let_def
  by (intro cond ok_rule bind [OF silent [OF keeps_emitf]] bind [OF emit_rule] status_rule same_flag) simp_all

lemma reconcile_decide_walk:
  assumes "C win" and "D dep"
  shows "tracks I R (okay (\<lambda>_. True)) (reconcile_decide E c win policy dep)"
  unfolding reconcile_decide_def Let_def
proof (rule and_then_rule [where Q = "\<lambda>_. True"], goal_cases)
  case (2 live)
  show ?case
    by (cases live) (auto intro!: bind [OF query_rule [where Q = "\<lambda>_. True"]] and_then_rule [OF force_cool_walk [OF assms(1)]]
        and_then_rule [where Q = "\<lambda>_. True"] query_rule ok_rule perform_walk [OF _ assms(2)])
qed (rule query_rule, simp)

lemma reconcile_target_walk:
  assumes "C win" and "D dep"
  shows "tracks I R (okay (\<lambda>_. True)) (reconcile_target E c win policy dep)"
  unfolding reconcile_target_def
  by (intro cond and_then_rule [where Q = "\<lambda>_. True"] query_rule ok_rule deleteClosedWindow_walk [OF assms(1)] reconcile_decide_walk [OF assms]) simp_all

lemma add_finalizer_walk:
  assumes "C win"
  shows "tracks I R (okay (\<lambda>_. True)) (and_then (mutate (Patch_Window c win (win\<lparr>win_finalizers := fs\<rparr>))) (\<lambda>_. ok 0) :: ('w, duration) fallible)"
  by (intro and_then_rule [OF finalizers_rule [OF assms]] ok_rule) simp

text \<open>What is left of \<open>Reconcile\<close> reads the policy and the target first.\<close>

lemma reconcile_window_walk:
  assumes "C win" and "run_state (reconcile_window E c win) s = (r, s')" and "I (cluster s)" and "D (target_deployment c (cluster s) win)"
  shows "R (cluster s) (cluster s') \<and> I (cluster s')"
  using assms(2)
proof (cases rule: reconcile_window_cases)
  case finish
  from tracksD [OF scaleBackAndUnfinalize_walk [OF assms(1)] this assms(3)] show ?thesis by simp
next
  case (add fs)
  from tracksD [OF add_finalizer_walk [OF assms(1)] this assms(3)] show ?thesis by simp
next
  case (target policy)
  from tracksD [OF reconcile_target_walk [OF assms(1,4)] this assms(3)] show ?thesis by simp
next
  case failed
  with assms(3) refl show ?thesis by simp
qed

end

end
