(* ===== verification/Window_Record.thy ===== *)
theory Window_Record
  imports Window_Walk Open_Close Policy_Deletion
begin

text \<open>
  What a stored window records of the capacity to give back, and that no reconcile of the
  window controller changes it. The invariant is \<open>sound\<close>; the locale \<open>invariant_frame\<close> is
  interpreted for handlers that lose no window (\<open>grows\<close>) and for those that make none
  (\<open>shrinks\<close>), and \<open>window_walk\<close> for the latter. \<open>writes_documented\<close> says what the API server
  documents of the writes to windows, each of which may be done although it is reported as
  failed.
\<close>


section \<open>What a window records\<close>

definition window_at :: "'w client \<Rightarrow> 'w \<Rightarrow> string \<times> string \<Rightarrow> EvictionGuardWindow option" where
  "window_at c w k = (case Get_Window c w (fst k) (snd k) of Inl _ \<Rightarrow> None | Inr win \<Rightarrow> Some win)"

text \<open>
  The invariant of a stored window: its phase is one of the enum, a deferred one records no
  action, and no recorded action is on a window.
\<close>

definition sound_window :: "EvictionGuardWindow \<Rightarrow> bool" where
  "sound_window win \<longleftrightarrow> known_phase (wst_phase (win_status win)) \<and>
     (isDeferredWindow (Some win) \<longrightarrow> ws_actions (win_spec win) = []) \<and>
     (\<forall>a \<in> set (ws_actions (win_spec win)). sa_kind a \<noteq> window_kind)"

text \<open>The baseline that a window records for an action.\<close>

definition recorded :: "EvictionGuardWindow \<Rightarrow> string \<Rightarrow> int option" where
  "recorded win k = map_option sa_baseline (findAction_loop k (ws_actions (win_spec win)))"

definition later :: "EvictionGuardWindow \<Rightarrow> EvictionGuardWindow \<Rightarrow> bool" where
  "later win win' \<longleftrightarrow> (sound_window win \<longrightarrow> sound_window win' \<and> recorded win \<subseteq>\<^sub>m recorded win')"

definition sound :: "'w client \<Rightarrow> 'w \<Rightarrow> bool" where
  "sound c w \<longleftrightarrow> (\<forall>k win. window_at c w k = Some win \<longrightarrow> sound_window win)"

definition grows :: "'w client \<Rightarrow> 'w \<Rightarrow> 'w \<Rightarrow> bool" where
  "grows c w w' \<longleftrightarrow> (sound c w \<longrightarrow> sound c w') \<and>
     (\<forall>k win. window_at c w k = Some win \<longrightarrow> (\<exists>win'. window_at c w' k = Some win' \<and> later win win'))"

definition shrinks :: "'w client \<Rightarrow> 'w \<Rightarrow> 'w \<Rightarrow> bool" where
  "shrinks c w w' \<longleftrightarrow> (\<forall>k win'. window_at c w' k = Some win' \<longrightarrow> (\<exists>win. window_at c w k = Some win \<and> later win win'))"

lemma later_refl [simp]: "later win win"
  by (simp add: later_def)

lemma later_trans: "later a b \<Longrightarrow> later b d \<Longrightarrow> later a d"
  unfolding later_def using map_le_trans by blast

lemma shrinks_sound: "sound c w \<Longrightarrow> shrinks c w w' \<Longrightarrow> sound c w'"
  unfolding sound_def shrinks_def later_def by blast

interpretation grow: invariant_frame "sound c" "grows c" for c
proof
  show "grows c w w2" if "grows c w w1" "grows c w1 w2" for w w1 w2
    using that later_trans unfolding grows_def by meson
qed (auto simp: grows_def)

interpretation shrink: invariant_frame "sound c" "shrinks c" for c
proof
  show "shrinks c w w2" if "shrinks c w w1" "shrinks c w1 w2" for w w1 w2
    using that later_trans unfolding shrinks_def by meson
qed (auto simp: shrinks_sound, simp add: shrinks_def)

lemma same_windows: "Get_Window c w' = Get_Window c w \<Longrightarrow> window_at c w' = window_at c w"
  by (simp add: fun_eq_iff window_at_def)

lemma grows_same: "Get_Window c w' = Get_Window c w \<Longrightarrow> grows c w w'"
  using same_windows [of c w' w] by (simp add: grows_def sound_def)

lemma shrinks_same: "Get_Window c w' = Get_Window c w \<Longrightarrow> shrinks c w w'"
  using same_windows [of c w' w] by (simp add: shrinks_def)

lemma grow_kept: "keeps (Get_Window c) m \<Longrightarrow> tracks (sound c) (grows c) (\<lambda>_. True) m"
  by (erule grow.kept) (rule grows_same)

lemma shrink_kept: "keeps (Get_Window c) m \<Longrightarrow> tracks (sound c) (shrinks c) (\<lambda>_. True) m"
  by (erule shrink.kept) (rule shrinks_same)


section \<open>Documented behaviour of the writes\<close>

text \<open>
  A merge patch writes what differs between the two copies and keeps the rest of the stored
  window, its status in any case; it can end the window only by changing the finalizers.
\<close>

definition merge_patched :: "EvictionGuardWindow \<Rightarrow> EvictionGuardWindow \<Rightarrow> EvictionGuardWindow \<Rightarrow> EvictionGuardWindow \<Rightarrow> bool" where
  "merge_patched base new old got \<longleftrightarrow> win_status got = win_status old \<and>
     (ws_actions (win_spec new) = ws_actions (win_spec base) \<longrightarrow> ws_actions (win_spec got) = ws_actions (win_spec old)) \<and>
     (win_labels new = win_labels base \<longrightarrow> win_labels got = win_labels old) \<and>
     (old = base \<longrightarrow> win_labels got = win_labels new \<and> ws_actions (win_spec got) = ws_actions (win_spec new))"

definition patch_atomic :: "'w client \<Rightarrow> bool" where
  "patch_atomic c \<longleftrightarrow>
     (\<forall>base new w r w'. Patch_Window c base new w = (r, w') \<longrightarrow> window_key new = window_key base \<longrightarrow>
        (\<forall>k got. window_at c w' k = Some got \<longrightarrow>
           (\<exists>old. window_at c w k = Some old \<and> (got = old \<or> k = window_key base \<and> merge_patched base new old got))) \<and>
        (win_finalizers new = win_finalizers base \<longrightarrow> (\<forall>k. window_at c w k \<noteq> None \<longrightarrow> window_at c w' k \<noteq> None)) \<and>
        okay (\<lambda>x. \<exists>old. window_at c w (window_key base) = Some old \<and> merge_patched base new old x) r)"

text \<open>The other writes to windows, each done or not done; the server stores no phase outside the enum.\<close>

definition same_record :: "EvictionGuardWindow \<Rightarrow> EvictionGuardWindow \<Rightarrow> bool" where
  "same_record old got \<longleftrightarrow> win_labels got = win_labels old \<and> win_spec got = win_spec old \<and>
     (known_phase (wst_phase (win_status old)) \<longrightarrow> known_phase (wst_phase (win_status got)))"

definition status_atomic :: "'w client \<Rightarrow> bool" where
  "status_atomic c \<longleftrightarrow>
     (\<forall>win w r w'. Update_WindowStatus c win w = (r, w') \<longrightarrow>
        (\<forall>k got. window_at c w' k = Some got \<longrightarrow> (\<exists>old. window_at c w k = Some old \<and> same_record old got)) \<and>
        (\<forall>k. window_at c w k \<noteq> None \<longrightarrow> window_at c w' k \<noteq> None) \<and>
        okay (\<lambda>x. \<exists>old. window_at c w (window_key win) = Some old \<and> same_record old x) r)"

definition create_atomic :: "'w client \<Rightarrow> bool" where
  "create_atomic c \<longleftrightarrow>
     (\<forall>win w r w'. Create_Window c win w = (r, w') \<longrightarrow>
        (\<forall>k got. window_at c w' k = Some got \<longrightarrow> window_at c w k = Some got \<or>
           win_labels got = win_labels win \<and> ws_actions (win_spec got) = ws_actions (win_spec win) \<and> known_phase (wst_phase (win_status got))) \<and>
        (\<forall>k old. window_at c w k = Some old \<longrightarrow> window_at c w' k = Some old) \<and>
        okay (\<lambda>x. win_labels x = win_labels win \<and> ws_actions (win_spec x) = ws_actions (win_spec win)) r)"

definition delete_atomic :: "'w client \<Rightarrow> bool" where
  "delete_atomic c \<longleftrightarrow>
     (\<forall>win w r w'. Delete_Window c win w = (r, w') \<longrightarrow>
        (\<forall>k got. window_at c w' k = Some got \<longrightarrow> (\<exists>old. window_at c w k = Some old \<and> same_record old got)))"

definition writes_documented :: "'w client \<Rightarrow> bool" where
  "writes_documented c \<longleftrightarrow> patch_atomic c \<and> status_atomic c \<and> create_atomic c \<and> delete_atomic c \<and>
     ignores_patches (Get_Window c) c window_kind \<and> (\<forall>w. named_windows c w) \<and>
     (\<forall>base new w. Get_Window c (snd (Patch_Policy c base new w)) = Get_Window c w) \<and>
     (\<forall>p w. Get_Window c (snd (Update_PolicyStatus c p w)) = Get_Window c w)"

lemma later_same:
  assumes "win_labels got = win_labels old" and acts: "ws_actions (win_spec got) = ws_actions (win_spec old)"
    and "known_phase (wst_phase (win_status old)) \<Longrightarrow> known_phase (wst_phase (win_status got))"
  shows "later old got"
proof -
  have "recorded got = recorded old" by (simp add: fun_eq_iff recorded_def acts)
  with assms show ?thesis by (simp add: later_def sound_window_def isDeferredWindow_def)
qed

lemma later_same_record: "same_record old got \<Longrightarrow> later old got"
  by (rule later_same) (simp_all add: same_record_def)

lemma later_merge_patched:
  "merge_patched base new old got \<Longrightarrow> ws_actions (win_spec new) = ws_actions (win_spec base) \<Longrightarrow> win_labels new = win_labels base \<Longrightarrow> later old got"
  by (rule later_same) (simp_all add: merge_patched_def)

text \<open>A copy whose recorded actions are on other kinds of objects than windows.\<close>

definition foreign_window :: "EvictionGuardWindow \<Rightarrow> bool" where
  "foreign_window win \<longleftrightarrow> (\<forall>a \<in> set (ws_actions (win_spec win)). sa_kind a \<noteq> window_kind)"

lemma sound_foreign: "sound c w \<Longrightarrow> window_at c w k = Some win \<Longrightarrow> foreign_window win"
  unfolding sound_def sound_window_def foreign_window_def by blast

lemma shrink_patch:
  assumes "writes_documented c" and "window_key new = window_key base"
    and "ws_actions (win_spec new) = ws_actions (win_spec base)" and "win_labels new = win_labels base"
  shows "tracks (sound c) (shrinks c) (okay foreign_window) (mutate (Patch_Window c base new))"
proof (rule shrink.mutate_rule)
  fix w r w' assume s: "sound c w" and p: "Patch_Window c base new w = (r, w')"
  have "patch_atomic c" using assms(1) by (simp add: writes_documented_def)
  note law = this [unfolded patch_atomic_def, rule_format, OF p assms(2)]
  have "shrinks c w w'"
    unfolding shrinks_def using law later_merge_patched [OF _ assms(3,4)] later_refl by blast
  moreover have "okay foreign_window r"
  proof (cases r)
    case (Inr x)
    with law obtain old where "window_at c w (window_key base) = Some old" "merge_patched base new old x" by auto
    with sound_foreign [OF s this(1)] assms(3) Inr show ?thesis by (simp add: merge_patched_def foreign_window_def)
  qed simp
  ultimately show "shrinks c w w' \<and> okay foreign_window r" ..
qed

lemma shrink_status:
  assumes "writes_documented c"
  shows "tracks (sound c) (shrinks c) (okay foreign_window) (mutate (Update_WindowStatus c win))"
proof (rule shrink.mutate_rule)
  fix w r w' assume s: "sound c w" and p: "Update_WindowStatus c win w = (r, w')"
  have "status_atomic c" using assms(1) by (simp add: writes_documented_def)
  note law = this [unfolded status_atomic_def, rule_format, OF p]
  have "shrinks c w w'" unfolding shrinks_def using law later_same_record by blast
  moreover have "okay foreign_window r"
  proof (cases r)
    case (Inr x)
    with law obtain old where "window_at c w (window_key win) = Some old" "same_record old x" by auto
    with sound_foreign [OF s this(1)] Inr show ?thesis by (simp add: same_record_def foreign_window_def)
  qed simp
  ultimately show "shrinks c w w' \<and> okay foreign_window r" ..
qed

lemma shrink_delete:
  assumes "writes_documented c"
  shows "tracks (sound c) (shrinks c) (\<lambda>_. True) (mutate (Delete_Window c win))"
proof (rule shrink.mutate_rule)
  fix w r w' assume p: "Delete_Window c win w = (r, w')"
  have "delete_atomic c" using assms(1) by (simp add: writes_documented_def)
  note law = this [unfolded delete_atomic_def, rule_format, OF p]
  then show "shrinks c w w' \<and> True" unfolding shrinks_def using later_same_record by blast
qed


section \<open>The window controller\<close>

lemma shrink_frame:
  assumes "keeps (Get_Window c) m"
  shows "tracks (sound c) (shrinks c) (okay (\<lambda>_. True)) m"
  by (rule tracks_okay [OF shrink_kept [OF assms]])

text \<open>Every path of the controller passes on copies whose recorded actions are not on windows.\<close>

interpretation shrinking: window_walk "\<lambda>w. writes_documented c \<and> sound c w" "shrinks c" c E foreign_window "\<lambda>_. True" for c E
proof
  fix win fs t policy dep until assume foreign: "foreign_window win"
  let ?I = "\<lambda>w. writes_documented c \<and> sound c w"
  show "tracks ?I (shrinks c) (okay foreign_window) (mutate (Patch_Window c win (win\<lparr>win_finalizers := fs\<rparr>)) :: (_, EvictionGuardWindow) fallible)"
    by (intro tracks_under shrink_patch) (simp_all add: window_key_def)
  show "tracks ?I (shrinks c) (okay foreign_window)
      (mutate (Patch_Window c win (win\<lparr>win_spec := (win_spec win)\<lparr>ws_windowUntil := t\<rparr>\<rparr>)) :: (_, EvictionGuardWindow) fallible)"
    by (intro tracks_under shrink_patch) (simp_all add: window_key_def)
  show "tracks ?I (shrinks c) (\<lambda>_. True) (restoreActions E c win)"
    using foreign by (intro tracks_under shrink_kept keeps_restoreActions [where k = window_kind]) (auto simp: writes_documented_def foreign_window_def)
  show "tracks ?I (shrinks c) (okay (\<lambda>_. True)) (stampCooldown E c policy dep win until)"
    using foreign by (intro tracks_under shrink_frame keeps_stampCooldown [where k = window_kind]) (auto simp: writes_documented_def foreign_window_def)
qed (auto intro: tracks_under shrink_status shrink_delete shrink.refl shrink.trans shrinks_sound simp: foreign_window_def)

lemma shrink_window_reconcile:
  assumes "writes_documented c"
  shows "tracks (sound c) (shrinks c) (okay (\<lambda>_. True)) (window_reconcile E c ns n)"
  unfolding tracks_def
proof (intro allI impI)
  fix s r s' assume run: "run_state (window_reconcile E c ns n) s = (r, s')" and sound: "sound c (cluster s)"
  show "shrinks c (cluster s) (cluster s') \<and> sound c (cluster s') \<and> okay (\<lambda>_. True) r"
  proof (cases "Get_Window c (cluster s) ns n")
    case (Inl e)
    with run have "s' = s" by (auto simp: window_reconcile_def split: option.splits)
    with sound shrink.refl show ?thesis by simp
  next
    case (Inr win)
    with sound_foreign [OF sound, of "(ns, n)"] have "foreign_window win" by (simp add: window_at_def)
    moreover from run Inr have "run_state (reconcile_window E c win) s = (r, s')" by (simp add: window_reconcile_def)
    ultimately show ?thesis using shrinking.reconcile_window_walk assms sound by fastforce
  qed
qed


section \<open>The concrete client\<close>

lemma mem_window_at: "window_at mem_client m k = find (\<lambda>x. window_key x = k) (mc_windows m)"
proof -
  have "(\<lambda>x. win_namespace x = fst k \<and> win_name x = snd k) = (\<lambda>x. window_key x = k)"
    by (auto simp: fun_eq_iff window_key_def)
  then show ?thesis by (simp add: window_at_def mem_client_def or_not_found_def split: option.splits)
qed

lemma find_key_put:
  "window_key v = k' \<Longrightarrow> find (\<lambda>x. window_key x = k) (map (\<lambda>x. if window_key x = k' then v else x) ws) =
     (if k = k' then map_option (\<lambda>_. v) (find (\<lambda>x. window_key x = k) ws) else find (\<lambda>x. window_key x = k) ws)"
  by (induction ws) auto

lemma find_key_SomeD: "find (\<lambda>x. window_key x = k) ws = Some v \<Longrightarrow> window_key v = k"
  by (auto simp: find_Some_iff)

lemma window_key_updates [simp]:
  "window_key (merge_window base new old) = window_key old" "window_key (old\<lparr>win_status := st\<rparr>) = window_key old"
  "window_key (old\<lparr>win_deletionTimestamp := t\<rparr>) = window_key old"
  by (simp_all add: window_key_def)

lemma put_window_at:
  assumes "put_window win f m = (r, m')" and "\<And>x. window_key (f x) = window_key x"
  obtains (missing) "window_at mem_client m (window_key win) = None" and "m' = m" and "r = Inl not_found"
    | (found) old where "window_at mem_client m (window_key win) = Some old" and "r = Inr (f old)"
        and "\<And>k. window_at mem_client m' k = (if k = window_key win then Some (f old) else window_at mem_client m k)"
proof (cases "find (window_is win) (mc_windows m)")
  case None
  then have none: "window_at mem_client m (window_key win) = None" unfolding mem_window_at window_is_key .
  have "r = Inl not_found \<and> m' = m" using assms(1) None by (simp add: put_window_def)
  with none show thesis by (intro missing) simp_all
next
  case (Some old)
  then have found_old: "find (\<lambda>x. window_key x = window_key win) (mc_windows m) = Some old" unfolding window_is_key .
  note old = find_key_SomeD [OF this]
  have run: "r = Inr (f old)" "mc_windows m' = map (\<lambda>x. if window_key x = window_key win then f old else x) (mc_windows m)"
    using assms(1) found_old unfolding put_window_def window_is_key by auto
  show thesis
  proof (rule found [of old])
    show at: "window_at mem_client m (window_key win) = Some old" using found_old by (simp add: mem_window_at)
    show "r = Inr (f old)" by (fact run)
    show "window_at mem_client m' k = (if k = window_key win then Some (f old) else window_at mem_client m k)" for k
      using at by (simp add: mem_window_at run(2) find_key_put assms(2) old)
  qed
qed

lemma mem_merge_patched: "merge_patched base new old (merge_window base new old)"
  by (auto simp: merge_patched_def merge_window_def merge_window_spec_def differing_def)

lemma mem_finalize_at:
  "window_at mem_client (finalize_window base win m) k =
     (if win_deletionTimestamp win \<noteq> None \<and> win_finalizers base \<noteq> [] \<and> win_finalizers win = [] \<and> k = window_key win then None else window_at mem_client m k)"
  by (cases "win_deletionTimestamp win") (simp_all add: finalize_window_def mem_window_at window_is_key find_key_filter)

lemma mem_patch_atomic: "patch_atomic mem_client"
  unfolding patch_atomic_def
proof (intro allI impI)
  fix base new m r m'
  assume patch: "Patch_Window mem_client base new m = (r, m')" and key: "window_key new = window_key base"
  then obtain m1 where put: "put_window new (merge_window base new) m = (r, m1)" and m': "m' = finalize_window base new m1"
    by (cases "put_window new (merge_window base new) m") (auto simp: mem_client_def)
  from put show "(\<forall>k got. window_at mem_client m' k = Some got \<longrightarrow>
           (\<exists>old. window_at mem_client m k = Some old \<and> (got = old \<or> k = window_key base \<and> merge_patched base new old got))) \<and>
        (win_finalizers new = win_finalizers base \<longrightarrow> (\<forall>k. window_at mem_client m k \<noteq> None \<longrightarrow> window_at mem_client m' k \<noteq> None)) \<and>
        okay (\<lambda>x. \<exists>old. window_at mem_client m (window_key base) = Some old \<and> merge_patched base new old x) r"
    by (cases rule: put_window_at) (simp_all add: key m' mem_finalize_at mem_merge_patched)
qed

lemma mem_status_atomic: "status_atomic mem_client"
  unfolding status_atomic_def
proof (intro allI impI)
  fix win m r m'
  assume upd: "Update_WindowStatus mem_client win m = (r, m')"
  show "(\<forall>k got. window_at mem_client m' k = Some got \<longrightarrow> (\<exists>old. window_at mem_client m k = Some old \<and> same_record old got)) \<and>
        (\<forall>k. window_at mem_client m k \<noteq> None \<longrightarrow> window_at mem_client m' k \<noteq> None) \<and>
        okay (\<lambda>x. \<exists>old. window_at mem_client m (window_key win) = Some old \<and> same_record old x) r"
  proof (cases "known_phase (wst_phase (win_status win))")
    case True
    with upd have "put_window win (\<lambda>old. old\<lparr>win_status := win_status win\<rparr>) m = (r, m')" by (simp add: mem_client_def)
    then show ?thesis
      by (cases rule: put_window_at) (simp_all add: same_record_def True)
  next
    case False
    with upd show ?thesis by (auto simp: mem_client_def same_record_def)
  qed
qed

lemma find_key_snoc: "find P (xs @ [v]) = (case find P xs of None \<Rightarrow> if P v then Some v else None | Some x \<Rightarrow> Some x)"
  by (induction xs) auto

lemma mem_create_atomic: "create_atomic mem_client"
  unfolding create_atomic_def
proof (intro allI impI)
  fix win m r m'
  assume create: "Create_Window mem_client win m = (r, m')"
  let ?new = "win\<lparr>win_creationTimestamp := mc_now m, win_generation := 1, win_status := empty_status\<rparr>"
  have phase: "known_phase (wst_phase (win_status ?new))" by (simp add: empty_status_def)
  from create consider e where "r = Inl e" "m' = m" | "r = Inr ?new" "mc_windows m' = mc_windows m @ [?new]"
    by (auto simp: mem_client_def Let_def split: if_splits)
  then show "(\<forall>k got. window_at mem_client m' k = Some got \<longrightarrow> window_at mem_client m k = Some got \<or>
           win_labels got = win_labels win \<and> ws_actions (win_spec got) = ws_actions (win_spec win) \<and> known_phase (wst_phase (win_status got))) \<and>
        (\<forall>k old. window_at mem_client m k = Some old \<longrightarrow> window_at mem_client m' k = Some old) \<and>
        okay (\<lambda>x. win_labels x = win_labels win \<and> ws_actions (win_spec x) = ws_actions (win_spec win)) r"
  proof cases
    case 2
    have "\<And>k. window_at mem_client m' k = (case window_at mem_client m k of None \<Rightarrow> if window_key ?new = k then Some ?new else None | Some x \<Rightarrow> Some x)"
      by (simp add: mem_window_at 2(2) find_key_snoc)
    with phase 2(1) show ?thesis by (auto split: option.splits if_splits)
  qed simp
qed

lemma mem_delete_atomic: "delete_atomic mem_client"
  unfolding delete_atomic_def
proof (intro allI impI)
  fix win m r m' k got
  assume del: "Delete_Window mem_client win m = (r, m')" and got: "window_at mem_client m' k = Some got"
  let ?g = "\<lambda>x. x\<lparr>win_deletionTimestamp := Some (max 1 (mc_now m))\<rparr>"
  have g: "window_key (?g x) = window_key x" for x by simp
  from del consider "m' = m" | "mc_windows m' = filter (\<lambda>x. window_key x \<noteq> window_key win) (mc_windows m)"
    | "mc_windows m' = map (\<lambda>x. if window_key x = window_key win then ?g x else x) (mc_windows m)"
    by (auto simp: mem_client_def window_is_key split: option.splits if_splits)
  then show "\<exists>old. window_at mem_client m k = Some old \<and> same_record old got"
    using got by cases (auto simp: mem_window_at find_key_filter find_key_map [OF g] same_record_def split: if_splits)
qed

lemma mem_writes_documented: "writes_documented mem_client"
  unfolding writes_documented_def
proof (intro conjI allI)
  show "ignores_patches (Get_Window mem_client) mem_client window_kind" by (rule documented_ignores [OF mem_window_api])
  show "named_windows mem_client w" for w by (rule mem_named_windows)
  show "Get_Window mem_client (snd (Patch_Policy mem_client base new w)) = Get_Window mem_client w" for base new w
    by (simp add: mem_client_def put_policy_def finalize_policy_def split: option.split)
  show "Get_Window mem_client (snd (Update_PolicyStatus mem_client p w)) = Get_Window mem_client w" for p w
    by (simp add: mem_client_def put_policy_def split: option.split)
qed (fact mem_patch_atomic mem_status_atomic mem_create_atomic mem_delete_atomic)+

end
