(* ===== verification/Interleaving.thy ===== *)
theory Interleaving
  imports Window_Record
begin

text \<open>
  Both controllers and the rest of the world, one reconcile at a time in any order, each
  failing at any of its calls. \<open>sys_step\<close> is the step relation on the cluster: a reconcile
  of a policy, a reconcile of a window, or a change by somebody else that leaves the windows
  alone. A run during which a window of the same name is always there is a \<open>life\<close> of it.
\<close>


section \<open>Plans of the policy controller\<close>

text \<open>A policy none of whose catalog entries is external or on windows.\<close>

definition patching_policy :: "EvictionGuardPolicy \<Rightarrow> bool" where
  "patching_policy policy \<longleftrightarrow>
     (\<forall>(key, entry) \<in> set (spec_backends (pol_spec policy)). be_kind entry \<noteq> window_kind \<and> (\<exists>p \<in> set (be_patches entry). bp_path p \<noteq> []))"

lemma binding_steps_kind: "x \<in> set (binding_steps b entry i anns paths) \<Longrightarrow> tgt_kind (rstep_target x) = be_kind entry"
  by (induction paths arbitrary: i) (auto simp: binding_step_def)

lemma entry_steps_nonempty: "p \<in> set (be_patches entry) \<Longrightarrow> bp_path p \<noteq> [] \<Longrightarrow> entry_steps b entry \<noteq> []"
  by (cases "filter (\<lambda>x. x \<noteq> []) (map bp_path (be_patches entry))") (auto simp: entry_steps_def filter_empty_conv)

lemma ResolveCatalog_patching:
  assumes "patching_policy pol" and "BindingsForWorkload dep (Some pol) = Inr bs" and "ResolveCatalog dep (Some pol) bs = Inr resolved"
  shows "resolved \<noteq> []" and "\<forall>r \<in> set resolved. tgt_kind (rstep_target r) \<noteq> window_kind"
proof -
  let ?cat = "spec_backends (pol_spec pol)"
  have "bs \<noteq> []"
    using assms(2) by (auto simp: BindingsForWorkload_def Let_def ParseBindings_def sum_bind_eq_Inr_iff split: option.splits if_splits)
  have loop: "ResolveCatalog_loop ?cat bs [] = Inr resolved" using assms(3) by (simp add: ResolveCatalog_def split: option.splits if_splits)
  then have known: "\<forall>b \<in> set bs. \<exists>entry. map_of ?cat (bind_key b) = Some entry"
    and res: "resolved = concat (map (\<lambda>b. entry_steps b (the (map_of ?cat (bind_key b)))) bs)"
    unfolding ResolveCatalog_loop_spec by auto
  have entry: "\<exists>entry. map_of ?cat (bind_key b) = Some entry \<and> be_kind entry \<noteq> window_kind \<and> entry_steps b entry \<noteq> []" if "b \<in> set bs" for b
  proof -
    from known that obtain e where e: "map_of ?cat (bind_key b) = Some e" by blast
    from assms(1) map_of_SomeD [OF e] obtain p where "be_kind e \<noteq> window_kind" "p \<in> set (be_patches e)" "bp_path p \<noteq> []"
      by (auto simp: patching_policy_def)
    with e entry_steps_nonempty [of p e b] show ?thesis by blast
  qed
  from \<open>bs \<noteq> []\<close> obtain b where "b \<in> set bs" by (cases bs) auto
  with entry [OF this] show "resolved \<noteq> []" by (auto simp: res intro: bexI [of _ b])
  show "\<forall>r \<in> set resolved. tgt_kind (rstep_target r) \<noteq> window_kind"
    using entry by (fastforce simp: res entry_steps_def dest: binding_steps_kind)
qed

lemma buildPlan_loop_length:
  "buildPlan_loop E c w pol a ex st i rs plan = Inr p \<Longrightarrow> length (plan_steps p) = length (plan_steps plan) + length rs"
  by (induction rs arbitrary: i plan) (auto simp: sum_bind_eq_Inr_iff Let_def)

lemma buildPlan_patching:
  assumes "patching_policy pol" and "buildPlan E c w (Some pol) dep a ex sticky = Inr p"
  shows "plan_steps p \<noteq> []" and "\<forall>x \<in> set (plan_steps p). tgt_kind (stp_target x) \<noteq> window_kind"
proof -
  from assms(2) obtain bs resolved where r: "BindingsForWorkload dep (Some pol) = Inr bs" "ResolveCatalog dep (Some pol) bs = Inr resolved"
    and loop: "resolved \<noteq> [] \<Longrightarrow> buildPlan_loop E c w pol a ex (resolveStamp pol dep) 0 resolved empty_plan = Inr p"
    by (auto simp: buildPlan_def sum_bind_eq_Inr_iff Let_def split: if_splits)
  note res = ResolveCatalog_patching [OF assms(1) r]
  from buildPlan_loop_length [OF loop [OF res(1)]] res(1) show ne: "plan_steps p \<noteq> []" by auto
  from assms(2) ne show "\<forall>x \<in> set (plan_steps p). tgt_kind (stp_target x) \<noteq> window_kind"
  proof (rule buildPlan_steps)
    fix bs' resolved' bl
    assume "BindingsForWorkload dep (Some pol) = Inr bs'" "ResolveCatalog dep (Some pol) bs' = Inr resolved'"
      and "plan_steps p = map2 (\<lambda>r b. step_of (resolveStamp pol dep) r b (plan_desired p)) resolved' bl"
    with ResolveCatalog_patching(2) [OF assms(1)] show ?thesis by (auto simp: step_of_def dest!: set_zip_leftD)
  qed
qed

text \<open>A plan that is built on recorded actions records them again, with their baselines.\<close>

lemma plan_actions_recorded:
  assumes "buildPlan E c w (Some pol) dep a ex sticky = Inr p" and ne: "plan_steps p \<noteq> []"
    and found: "findAction_loop k ex = Some old"
  shows "\<exists>new. findAction_loop k (plan_actions p ex) = Some new \<and> sa_baseline new = sa_baseline old"
proof (cases "findAction_loop k (map step_action (plan_steps p))")
  case None
  with found ne show ?thesis by (simp add: plan_actions_def Let_def findAction_loop_merge)
next
  case (Some new)
  from findAction_loop_key [OF Some] obtain x where x: "x \<in> set (plan_steps p)" "new = step_action x" and key: "actionKey new = k" by auto
  from assms(1) ne have "stp_baseline x = sa_baseline old"
  proof (rule buildPlan_steps)
    fix bs resolved bl
    assume base: "list_all2 (\<lambda>r b. step_baseline E c w ex r = Inr b) resolved bl"
      and "plan_steps p = map2 (\<lambda>r b. step_of (resolveStamp pol dep) r b (plan_desired p)) resolved bl"
    with x(1) obtain r b where rb: "(r, b) \<in> set (zip resolved bl)" and xs: "x = step_of (resolveStamp pol dep) r b (plan_desired p)" by auto
    have "k = actionKey (scaleAction (rstep_key r) (rstep_target r) 0 0 [] False)"
      using key x(2) xs by (auto simp: step_action_def step_of_def actionKey_def scaleAction_def)
    with found have "findAction ex (rstep_key r) (rstep_target r) = Some old" by (simp add: findAction_def)
    moreover have "step_baseline E c w ex r = Inr b" using base rb by (auto simp: list_all2_iff)
    ultimately show ?thesis by (simp add: step_baseline_def xs step_of_def)
  qed
  with Some ne x(2) show ?thesis by (simp add: plan_actions_def Let_def findAction_loop_merge step_action_def scaleAction_def)
qed

lemma plan_actions_foreign:
  assumes "\<forall>x \<in> set (plan_steps p). tgt_kind (stp_target x) \<noteq> window_kind" and "\<forall>a \<in> set ex. sa_kind a \<noteq> window_kind"
  shows "\<forall>a \<in> set (plan_actions p ex). sa_kind a \<noteq> window_kind"
proof -
  have "set (mergeActions_old seen as) \<subseteq> set as" for seen as by (induction as) auto
  then have "a \<in> set ex" if "a \<in> set (mergeActions_old seen ex)" for a seen using that by blast
  with assms show ?thesis by (auto simp: plan_actions_def Let_def mergeActions_def step_action_def scaleAction_def)
qed


section \<open>The policy controller\<close>

lemma grows_of_shrinks:
  assumes "shrinks c w w'" and "\<forall>k. window_at c w k \<noteq> None \<longrightarrow> window_at c w' k \<noteq> None"
  shows "grows c w w'"
  unfolding grows_def
proof (intro conjI impI allI)
  show "sound c w'" if "sound c w" using shrinks_sound [OF that assms(1)] .
  fix k win assume at: "window_at c w k = Some win"
  with assms(2) obtain win' where "window_at c w' k = Some win'" by fastforce
  with assms(1) at show "\<exists>win'. window_at c w' k = Some win' \<and> later win win'" unfolding shrinks_def by fastforce
qed

lemma grow_status:
  assumes "writes_documented c"
  shows "tracks (sound c) (grows c) (\<lambda>_. True) (mutate (Update_WindowStatus c win))"
proof (rule grow.mutate_rule)
  fix w r w' assume p: "Update_WindowStatus c win w = (r, w')"
  have "status_atomic c" using assms(1) by (simp add: writes_documented_def)
  note law = this [unfolded status_atomic_def, rule_format, OF p]
  have "shrinks c w w'" unfolding shrinks_def using law later_same_record by blast
  from grows_of_shrinks [OF this conjunct1 [OF conjunct2 [OF law]]] show "grows c w w' \<and> True" by simp
qed

lemma grow_create_window:
  assumes "writes_documented c" and "controller_ref_documented E"
    and "isDeferredWindow (Some win) \<Longrightarrow> ws_actions (win_spec win) = []" and "foreign_window win"
  shows "tracks (sound c) (grows c) (\<lambda>_. True) (create_window E c policy win)"
proof -
  have "tracks (sound c) (grows c) (\<lambda>_. True) (mutate (Create_Window c new))"
    if same: "win_labels new = win_labels win" "win_spec new = win_spec win" for new
  proof (rule grow.mutate_rule)
    fix w r w' assume p: "Create_Window c new w = (r, w')"
    have "create_atomic c" using assms(1) by (simp add: writes_documented_def)
    note law = this [unfolded create_atomic_def, rule_format, OF p]
    have "sound_window got" if "sound c w" "window_at c w' k = Some got" for k got
    proof (cases "window_at c w k = Some got")
      case True
      with that(1) show ?thesis unfolding sound_def by blast
    next
      case False
      with law that(2) have "win_labels got = win_labels win" "ws_actions (win_spec got) = ws_actions (win_spec win)" "known_phase (wst_phase (win_status got))"
        using same by metis+
      with assms(3,4) show ?thesis by (simp add: sound_window_def isDeferredWindow_def foreign_window_def)
    qed
    with law later_refl show "grows c w w' \<and> True" unfolding grows_def sound_def by blast
  qed
  note create = this
  let ?set = "SetControllerReference E policy (win\<lparr>win_finalizers := AddFinalizer E (win_finalizers win) WindowFinalizer\<rparr>)"
  show ?thesis
  proof (cases ?set)
    case (Inr new)
    with assms(2) obtain owner where "new = win\<lparr>win_finalizers := AddFinalizer E (win_finalizers win) WindowFinalizer, win_controller := owner\<rparr>"
      unfolding controller_ref_documented_def by blast
    with Inr create [of new] show ?thesis by (simp add: create_window_def)
  qed (simp add: create_window_def grow.fail_rule)
qed

lemma grow_open_status: "tracks (sound c) (grows c) (\<lambda>_. True) (open_status E win msg now err)"
  by (rule grow_kept) (auto simp: open_status_def Let_def intro!: keeps_intros)

lemma grow_finish_open:
  assumes "writes_documented c"
  shows "tracks (sound c) (grows c) (\<lambda>_. True) (finish_open E c win msg err now)"
  unfolding finish_open_def
  by (auto intro!: grow.bind [OF grow_open_status] grow.bind [OF grow.cond] grow_status [OF assms] grow.ok_rule grow.fail_rule split: sum.split option.split)

text \<open>The patches of \<open>ensureWindow\<close> and \<open>ensureDeferredWindow\<close> start from the stored window.\<close>

lemma grows_patch:
  assumes doc: "writes_documented c" and at: "window_at c w (window_key base) = Some base" and key: "window_key new = window_key base"
    and fin: "win_finalizers new = win_finalizers base" and patch: "Patch_Window c base new w = (r, w')"
    and lat: "\<And>got. win_status got = win_status base \<Longrightarrow> win_labels got = win_labels new \<Longrightarrow>
       ws_actions (win_spec got) = ws_actions (win_spec new) \<Longrightarrow> later base got"
  shows "grows c w w'"
proof -
  have "patch_atomic c" using doc by (simp add: writes_documented_def)
  note law = this [unfolded patch_atomic_def, rule_format, OF patch key]
  have "\<exists>old. window_at c w k = Some old \<and> later old got" if g: "window_at c w' k = Some got" for k got
  proof -
    from law g obtain old where old: "window_at c w k = Some old" "got = old \<or> k = window_key base \<and> merge_patched base new old got" by blast
    from old(2) show ?thesis
    proof
      assume "got = old"
      with old(1) show ?thesis by simp
    next
      assume "k = window_key base \<and> merge_patched base new old got"
      with at old(1) lat [of got] show ?thesis by (simp add: merge_patched_def)
    qed
  qed
  then have "shrinks c w w'" unfolding shrinks_def by blast
  from grows_of_shrinks [OF this mp [OF conjunct1 [OF conjunct2 [OF law]] fin]] show ?thesis .
qed

lemma getWindow_at:
  assumes "writes_documented c" and "getWindow c (cluster s) policy w = Inr (Some win)"
  shows "window_at c (cluster s) (window_key win) = Some win"
proof -
  have "holds c (cluster s) win" using getWindow_held [OF _ assms(2)] assms(1) by (simp add: writes_documented_def)
  then show ?thesis by (simp add: holds_def window_at_def window_key_def)
qed

lemma later_recorded:
  assumes "patching_policy policy" and "buildPlan E c x (Some policy) dep a (ScaleActions (Some win)) sticky = Inr plan"
    and "win_status got = win_status win" and "win_labels got = AList.delete DeferredLabel (win_labels win)"
    and acts: "ws_actions (win_spec got) = plan_actions plan (ws_actions (win_spec win))"
  shows "later win got"
proof -
  have ex: "ScaleActions (Some win) = ws_actions (win_spec win)" by (simp add: ScaleActions_def)
  note plan = buildPlan_patching [OF assms(1,2)]
  have "recorded win \<subseteq>\<^sub>m recorded got"
    using plan_actions_recorded [OF assms(2) plan(1)] unfolding ex by (fastforce simp: map_le_def dom_def recorded_def acts)
  moreover have "sound_window got" if "sound_window win"
    using that plan_actions_foreign [OF plan(2), of "ws_actions (win_spec win)"] assms(3,4)
    by (simp add: sound_window_def isDeferredWindow_def acts mget_def delete_conv')
  ultimately show ?thesis by (simp add: later_def)
qed

lemma grows_record_window:
  assumes doc: "writes_documented c" and ref: "controller_ref_documented E" and pat: "patching_policy policy"
    and plan: "buildPlan E c x (Some policy) dep a (ScaleActions existing) sticky = Inr plan"
    and ex: "\<And>win. existing = Some win \<Longrightarrow> window_at c (cluster s) (window_key win) = Some win"
    and sound: "sound c (cluster s)" and run: "run_state (record_window E c policy w existing plan) s = (r, s')"
  shows "grows c (cluster s) (cluster s')"
proof (cases existing)
  case None
  let ?new = "fresh_window policy (wl_deploy w) (window_labels policy (wl_deploy w)) (plan_actions plan []) (plan_primaryBaseline plan) (plan_desired plan)
    (sortedKeys (wl_nodes w))"
  have "foreign_window ?new"
    using plan_actions_foreign [OF buildPlan_patching(2) [OF pat plan], of "[]"] by (simp add: foreign_window_def fresh_window_def)
  moreover have "\<not> isDeferredWindow (Some ?new)" by (simp add: isDeferredWindow_def fresh_window_def window_labels_def go_simps)
  ultimately have "tracks (sound c) (grows c) (\<lambda>_. True) (create_window E c policy ?new)" by (intro grow_create_window [OF doc ref]) simp_all
  then have "tracks (sound c) (grows c) (okay (\<lambda>_. True)) (record_window E c policy w existing plan)"
    unfolding record_window_def None Let_def ScaleActions_def option.case
    by (intro grow.and_then_rule [OF tracks_okay] grow.bind [OF grow_kept [OF keeps_emitf]] grow.ok_rule) simp_all
  from tracksD [OF this run sound] show ?thesis by simp
next
  case (Some win)
  let ?new = "win\<lparr>win_labels := AList.delete DeferredLabel (win_labels win),
      win_spec := (win_spec win)\<lparr>ws_vulnerableNodes := sortedKeys (wl_nodes w), ws_scaledTo := plan_desired plan,
        ws_baseline := plan_primaryBaseline plan, ws_actions := plan_actions plan (ws_actions (win_spec win)), ws_windowUntil := None\<rparr>\<rparr>"
  have patch: "Patch_Window c win ?new (cluster s) = (r, cluster s')"
    using run Some by (auto simp: record_window_def Let_def ScaleActions_def prod_eq_iff)
  show ?thesis
  proof (rule grows_patch [OF doc ex [OF Some] _ _ patch])
    fix got :: EvictionGuardWindow
    assume "win_status got = win_status win" "win_labels got = win_labels ?new" "ws_actions (win_spec got) = ws_actions (win_spec ?new)"
    then show "later win got" by (intro later_recorded [OF pat plan [unfolded Some]]) simp_all
  qed (simp_all add: window_key_def)
qed

lemma grows_open_window:
  assumes doc: "writes_documented c" and ref: "controller_ref_documented E" and pat: "patching_policy policy"
    and ex: "\<And>win. existing = Some win \<Longrightarrow> window_at c (cluster s) (window_key win) = Some win"
    and sound: "sound c (cluster s)" and run: "run_state (open_window E c policy w existing) s = (r, s')"
  shows "grows c (cluster s) (cluster s')"
  using run
proof (cases rule: open_window_cases)
  case (no_plan e)
  then show ?thesis by (simp add: grow.refl)
next
  case (no_record plan s0 e)
  have "grows c (cluster s0) (cluster s')"
    by (rule grows_record_window [OF doc ref pat no_record(4) _ _ no_record(3)]) (simp_all add: no_record(1) ex sound)
  with no_record(1) show ?thesis by simp
next
  case (opened plan s0 win s1 scaled err s2 s3)
  have "grows c (cluster s0) (cluster s1)"
    by (rule grows_record_window [OF doc ref pat opened(2) _ _ opened(3)]) (simp_all add: opened(1) ex sound)
  then have one: "grows c (cluster s) (cluster s1)" using opened(1) by simp
  have "keeps (Get_Window c) (plan_apply E c plan (pol_name policy))"
    using doc by (intro keeps_plan_apply [where k = window_kind] buildPlan_patching(2) [OF pat opened(2)]) (simp add: writes_documented_def)
  from grows_same [OF keepsD [OF this opened(4)]] have two: "grows c (cluster s1) (cluster s2)" .
  from grow.inv [OF grow.inv [OF sound one] two] have "sound c (cluster s3)" using opened(5) by simp
  from tracksD [OF grow_finish_open [OF doc] opened(6) this] opened(5) have "grows c (cluster s2) (cluster s')" by simp
  from grow.trans [OF grow.trans [OF one two] this] show ?thesis .
qed

lemma unless_held_cases:
  assumes "run_state (unless_held c policy w body) s = (r, s')"
  obtains "cluster s' = cluster s"
    | existing where "getWindow c (cluster s) policy w = Inr existing" and "run_state (body existing) s = (r, s')"
        and "\<And>win. existing = Some win \<Longrightarrow> \<not> holdMaxWindow (Some policy) (Some win) (Now c (cluster s))"
  using assms by (auto simp: unless_held_def run_and_then split: sum.splits if_splits)

lemma grow_ensureWindow:
  assumes "writes_documented c" and "controller_ref_documented E" and "patching_policy policy"
  shows "tracks (sound c) (grows c) (\<lambda>_. True) (ensureWindow E c policy w)"
  unfolding tracks_def
proof (intro allI impI)
  fix s r s' assume run: "run_state (ensureWindow E c policy w) s = (r, s')" and sound: "sound c (cluster s)"
  from run [unfolded ensureWindow_def] have "grows c (cluster s) (cluster s')"
  proof (rule unless_held_cases)
    fix existing assume "getWindow c (cluster s) policy w = Inr existing" and "run_state (open_window E c policy w existing) s = (r, s')"
    then show ?thesis by (intro grows_open_window [OF assms _ sound]) (auto intro: getWindow_at [OF assms(1)])
  qed (simp add: grow.refl)
  with grow.inv [OF sound] show "grows c (cluster s) (cluster s') \<and> sound c (cluster s') \<and> True" by blast
qed

lemma grow_defer_fresh:
  assumes "writes_documented c" and "controller_ref_documented E"
  shows "tracks (sound c) (grows c) (okay (\<lambda>_. True)) (defer_fresh E c policy w)"
proof -
  have "tracks (sound c) (grows c) (okay (\<lambda>_. True)) (create_window E c policy (fresh_window policy dep labels [] b t ns))" for dep labels b t ns
    by (intro tracks_okay grow_create_window [OF assms]) (simp_all add: fresh_window_def foreign_window_def)
  note create = this
  show ?thesis
    unfolding defer_fresh_def Let_def
    by (auto intro!: grow.and_then_rule [OF create] grow.bind [OF grow.query_rule [where Q = "\<lambda>_. True"]] grow.bind [OF grow_kept [OF keeps_applyCapacityApplied]]
        grow.and_then_rule [OF tracks_okay [OF grow_status [OF assms(1)]]] grow.bind [OF grow_kept [OF keeps_emitf]] grow.ok_rule)
qed

lemma grows_defer_existing:
  assumes doc: "writes_documented c" and at: "window_at c (cluster s) (window_key win) = Some win"
    and none: "ws_actions (win_spec win) = []" and sound: "sound c (cluster s)" and run: "run_state (defer_existing E c w win) s = (r, s')"
  shows "grows c (cluster s) (cluster s')"
proof -
  let ?b = "if ws_baseline (win_spec win) > 0 then ws_baseline (win_spec win) else deployReplicas (Some (wl_deploy w))"
  let ?new = "win\<lparr>win_labels := AList.update DeferredLabel ''true'' (win_labels win),
      win_spec := (win_spec win)\<lparr>ws_vulnerableNodes := sortedKeys (wl_nodes w), ws_scaledTo := ?b, ws_baseline := ?b, ws_actions := [], ws_windowUntil := None\<rparr>\<rparr>"
  let ?rest = "\<lambda>win1. State_Monad.bind (query (Now c)) (\<lambda>now.
      State_Monad.bind (open_status E win1 msgDeferred now None) (\<lambda>(dirty, win2).
        if dirty then and_then (mutate (Update_WindowStatus c win2)) (\<lambda>_. ok ()) else ok ()))"
  obtain x w1 where patch: "Patch_Window c win ?new (cluster s) = (x, w1)" by fastforce
  have one: "grows c (cluster s) w1"
  proof (rule grows_patch [OF doc at _ _ patch])
    fix got :: EvictionGuardWindow
    assume "win_status got = win_status win" "ws_actions (win_spec got) = ws_actions (win_spec ?new)"
    with none show "later win got" by (auto simp: later_def sound_window_def recorded_def map_le_def)
  qed (simp_all add: window_key_def)
  have rest: "tracks (sound c) (grows c) (okay (\<lambda>_. True)) (?rest win1)" for win1
    by (auto intro!: grow.bind [OF grow.query_rule [where Q = "\<lambda>_. True"]] grow.bind [OF grow_open_status] grow.ok_rule
        grow.and_then_rule [OF tracks_okay [OF grow_status [OF doc]]])
  have "run_state (defer_existing E c w win) s = (case x of Inl e \<Rightarrow> (Inl e, s\<lparr>cluster := w1\<rparr>) | Inr win1 \<Rightarrow> run_state (?rest win1) (s\<lparr>cluster := w1\<rparr>))"
    unfolding defer_existing_def Let_def run_and_then by (simp add: patch split: sum.split)
  with run have "x = Inl (projl r) \<and> cluster s' = w1 \<or> (\<exists>win1. run_state (?rest win1) (s\<lparr>cluster := w1\<rparr>) = (r, s'))"
    by (cases x) auto
  then show ?thesis
  proof
    assume "\<exists>win1. run_state (?rest win1) (s\<lparr>cluster := w1\<rparr>) = (r, s')"
    then obtain win1 where "run_state (?rest win1) (s\<lparr>cluster := w1\<rparr>) = (r, s')" ..
    from tracksD [OF rest this] grow.inv [OF sound one] have "grows c w1 (cluster s')" by simp
    from grow.trans [OF one this] show ?thesis .
  qed (use one in simp)
qed

text \<open>A window that the loop defers is either held or a deferred one, which records nothing.\<close>

lemma grows_ensureDeferredWindow:
  assumes doc: "writes_documented c" and ref: "controller_ref_documented E" and sound: "sound c (cluster s)"
    and waiting: "\<And>win. getWindow c (cluster s) policy w = Inr (Some win) \<Longrightarrow> \<not> IsActive win \<or> isDeferredWindow (Some win)"
    and run: "run_state (ensureDeferredWindow E c policy w) s = (r, s')"
  shows "grows c (cluster s) (cluster s')"
  using run [unfolded ensureDeferredWindow_def]
proof (rule unless_held_cases)
  fix existing
  assume get: "getWindow c (cluster s) policy w = Inr existing" and body: "run_state (defer_window E c policy w existing) s = (r, s')"
    and free: "\<And>win. existing = Some win \<Longrightarrow> \<not> holdMaxWindow (Some policy) (Some win) (Now c (cluster s))"
  let ?s = "s\<lparr>log := sys.log s @ [at_risk_metric policy w]\<rparr>"
  show ?thesis
  proof (cases existing)
    case None
    with body have "run_state (defer_fresh E c policy w) ?s = (r, s')" by (simp add: defer_window_def)
    from tracksD [OF grow_defer_fresh [OF doc ref] this] sound show ?thesis by simp
  next
    case (Some win)
    with get have at: "window_at c (cluster s) (window_key win) = Some win" by (intro getWindow_at [OF doc]) simp
    with sound have "sound_window win" unfolding sound_def by blast
    moreover have "isDeferredWindow (Some win)"
      using waiting [of win] get free [OF Some] calculation unfolding Some
      by (cases "wst_phase (win_status win)") (auto simp: IsActive_def holdMaxWindow_def sound_window_def)
    ultimately have none: "ws_actions (win_spec win) = []" by (simp add: sound_window_def)
    from body Some have run': "run_state (defer_existing E c w win) ?s = (r, s')" by (simp add: defer_window_def)
    have "grows c (cluster ?s) (cluster s')" by (rule grows_defer_existing [OF doc _ none _ run']) (simp_all add: at sound)
    then show ?thesis by simp
  qed
qed (simp add: grow.refl)

lemma keeps_publishWorkloadMetrics: "keeps f (publishWorkloadMetrics E c policy w)"
  unfolding publishWorkloadMetrics_def Let_def setWorkloadPlanMetrics_def by (intro keeps_intros)

lemma keeps_scale_up_failed: "keeps f (scale_up_failed c policy dep e)"
  unfolding scale_up_failed_def by (intro keeps_intros)

lemma grow_workload_step:
  assumes doc: "writes_documented c" and ref: "controller_ref_documented E" and pat: "patching_policy policy"
  shows "tracks (sound c) (grows c) (okay (\<lambda>_. True)) (workload_step E c policy windowCap w ls)"
  unfolding tracks_def
proof (intro allI impI)
  fix s r s' assume run: "run_state (workload_step E c policy windowCap w ls) s = (r, s')" and sound: "sound c (cluster s)"
  have "grows c (cluster s) (cluster s')"
  proof (cases "getWindow c (cluster s) policy w")
    case (Inl e)
    with run show ?thesis by (auto simp: workload_step_def run_and_then grow.refl)
  next
    case (Inr win)
    let ?waiting = "\<not> (case win of None \<Rightarrow> False | Some v \<Rightarrow> IsActive v) \<or> isDeferredWindow win"
    show ?thesis
    proof (cases "?waiting \<and> windowCap > 0 \<and> ls_active ls \<ge> windowCap")
      case True
      obtain x s1 where def: "run_state (ensureDeferredWindow E c policy w) s = (x, s1)" by fastforce
      have one: "grows c (cluster s) (cluster s1)"
        by (rule grows_ensureDeferredWindow [OF doc ref sound _ def]) (use True Inr in auto)
      have "cluster s' = cluster s1"
        using run Inr True def keepsD [OF keeps_publishWorkloadMetrics [of "\<lambda>x. x" E c policy w]]
        by (cases x) (auto simp: workload_step_def run_and_then Let_def split: prod.splits)
      with one show ?thesis by simp
    next
      case False
      obtain x s1 where op: "run_state (ensureWindow E c policy w) s = (x, s1)" by fastforce
      have one: "grows c (cluster s) (cluster s1)" using tracksD [OF grow_ensureWindow [OF assms] op sound] by simp
      have "cluster s' = cluster s1"
        using run Inr False op keepsD [OF keeps_scale_up_failed [of "\<lambda>x. x" c policy "wl_deploy w"]]
        by (cases x) (auto simp: workload_step_def run_and_then Let_def split: prod.splits if_splits)
      with one show ?thesis by simp
    qed
  qed
  with grow.inv [OF sound] show "grows c (cluster s) (cluster s') \<and> sound c (cluster s') \<and> okay (\<lambda>_. True) r" by simp
qed

lemma grow_workload_loop:
  assumes "writes_documented c" and "controller_ref_documented E" and "patching_policy policy"
  shows "tracks (sound c) (grows c) (okay (\<lambda>_. True)) (workload_loop E c policy windowCap ws ls)"
  by (induction ws arbitrary: ls) (auto intro!: grow.ok_rule grow.and_then_rule [OF grow_workload_step [OF assms]])

lemma shrink_sync_loop:
  assumes "writes_documented c"
  shows "tracks (sound c) (shrinks c) (okay (\<lambda>_. True)) (sync_loop E c policy active items)"
proof (induction items)
  case (Cons win items)
  have patch: "tracks (sound c) (shrinks c) (okay foreign_window)
      (mutate (Patch_Window c win (win\<lparr>win_spec := (win_spec win)\<lparr>ws_vulnerableNodes := []\<rparr>\<rparr>)))"
    by (rule shrink_patch [OF assms]) (simp_all add: window_key_def)
  show ?case
    unfolding sync_loop.simps Let_def
    by (intro shrink.cond Cons.IH shrink.bind [OF shrink.emit_rule] shrink.and_then_rule [OF patch] shrink.and_then_rule [where Q = "\<lambda>_. True"] shrink.query_rule) simp_all
qed (simp add: shrink.ok_rule)

lemma shrink_delete_loop:
  assumes "writes_documented c"
  shows "tracks (sound c) (shrinks c) (okay (\<lambda>_. True)) (delete_loop c items)"
  by (induction items) (auto intro!: shrink.ok_rule shrink.fail_rule shrink.bind [OF shrink_delete [OF assms]] split: sum.split option.split)

lemma shrink_policy_writes:
  assumes "writes_documented c"
  shows "tracks (sound c) (shrinks c) (okay (\<lambda>_. True)) (mutate (Patch_Policy c base new))"
    and "tracks (sound c) (shrinks c) (okay (\<lambda>_. True)) (mutate (Update_PolicyStatus c new))"
  using assms by (auto intro!: shrink_frame keeps_mutate simp: writes_documented_def)

lemma shrink_updateStatus:
  assumes "writes_documented c"
  shows "tracks (sound c) (shrinks c) (okay (\<lambda>_. True)) (updateStatus E c policy m v wn d e)"
  unfolding updateStatus_def Let_def
  by (intro shrink.bind [OF shrink.query_rule [where Q = "\<lambda>_. True"]] shrink.and_then_rule [OF shrink_policy_writes(2) [OF assms]] shrink.ok_rule) simp_all

lemma shrink_cleanup:
  assumes "writes_documented c"
  shows "tracks (sound c) (shrinks c) (okay (\<lambda>_. True)) (cleanup E c policy)"
  unfolding cleanup_def
  by (intro shrink.and_then_rule [where Q = "\<lambda>_. True"] shrink.query_rule shrink.cond shrink_delete_loop [OF assms] shrink_policy_writes(1) [OF assms] shrink.ok_rule) simp_all


subsection \<open>A whole reconcile\<close>

text \<open>First windows are opened and patched, then cleared.\<close>

definition evolves :: "'w client \<Rightarrow> 'w \<Rightarrow> 'w \<Rightarrow> bool" where
  "evolves c w w' \<longleftrightarrow> (\<exists>w1. grows c w w1 \<and> shrinks c w1 w')"

lemma evolves_shrinks: "shrinks c w w' \<Longrightarrow> evolves c w w'"
  using grow.refl [of c w] by (auto simp: evolves_def)

lemma evolves_after: "grows c w w1 \<Longrightarrow> evolves c w1 w2 \<Longrightarrow> evolves c w w2"
  by (auto simp: evolves_def intro: grow.trans)

lemma evolve_shrink: "tracks (sound c) (shrinks c) Q m \<Longrightarrow> tracks (sound c) (evolves c) Q m"
  unfolding tracks_def by (intro allI impI) (simp add: evolves_shrinks)

lemma evolve_bind:
  assumes m: "tracks (sound c) (grows c) Q m" and k: "\<And>a. Q a \<Longrightarrow> tracks (sound c) (evolves c) Q' (k a)"
  shows "tracks (sound c) (evolves c) Q' (State_Monad.bind m k)"
  unfolding tracks_def
proof (intro allI impI)
  fix s r s' assume run: "run_state (State_Monad.bind m k) s = (r, s')" and i: "sound c (cluster s)"
  obtain a s1 where first: "run_state m s = (a, s1)" by fastforce
  from tracksD [OF m first i] have one: "grows c (cluster s) (cluster s1)" "sound c (cluster s1)" "Q a" by auto
  have "run_state (k a) s1 = (r, s')" using run first by simp
  from tracksD [OF k [OF one(3)] this one(2)] evolves_after [OF one(1)]
  show "evolves c (cluster s) (cluster s') \<and> sound c (cluster s') \<and> Q' r" by simp
qed

lemma evolve_and_then:
  assumes m: "tracks (sound c) (grows c) (okay Q) m" and k: "\<And>a. Q a \<Longrightarrow> tracks (sound c) (evolves c) (okay Q') (k a)"
  shows "tracks (sound c) (evolves c) (okay Q') (and_then m k)"
  unfolding and_then_def
proof (rule evolve_bind [OF m])
  fix r assume "okay Q r"
  then show "tracks (sound c) (evolves c) (okay Q') (case r of Inl e \<Rightarrow> fail e | Inr a \<Rightarrow> k a)"
    by (cases r) (simp_all add: k evolve_shrink [OF shrink.fail_rule])
qed

lemma shrink_syncClearedWindows:
  assumes "writes_documented c"
  shows "tracks (sound c) (shrinks c) (okay (\<lambda>_. True)) (syncClearedWindows E c policy active)"
  unfolding syncClearedWindows_def
  by (intro shrink.and_then_rule [where Q = "\<lambda>_. True"] shrink.query_rule shrink_sync_loop [OF assms]) simp

lemma evolve_reconcile_workloads:
  assumes "writes_documented c" and "controller_ref_documented E" and "patching_policy policy"
  shows "tracks (sound c) (evolves c) (okay (\<lambda>_. True)) (reconcile_workloads E c policy matched vulnerable)"
  unfolding reconcile_workloads_def Let_def
  by (intro evolve_and_then [where Q = "\<lambda>_. True"] grow.query_rule grow_workload_loop [OF assms] evolve_shrink shrink.bind [OF shrink_kept [OF keeps_if]]
      shrink.bind [OF shrink.emit_rule] keeps_emitf keeps_return shrink.and_then_rule [where Q = "\<lambda>_. True"] shrink.query_rule shrink.ok_rule
      shrink_updateStatus [OF assms(1)] shrink_syncClearedWindows [OF assms(1)]) simp_all

lemma evolve_reconcile_policy:
  assumes "writes_documented c" and "controller_ref_documented E" and "patching_policy policy"
  shows "tracks (sound c) (evolves c) (okay (\<lambda>_. True)) (reconcile_policy E c policy)"
proof -
  have add: "tracks (sound c) (shrinks c) (okay (\<lambda>_. True)) (and_then (mutate (Patch_Policy c policy new)) (\<lambda>_. ok 0))" for new
    by (intro shrink.and_then_rule [OF shrink_policy_writes(1) [OF assms(1)]] shrink.ok_rule) simp
  have bad: "tracks (sound c) (shrinks c) (okay (\<lambda>_. True)) (and_then (updateStatus E c policy 0 0 0 0 (Some e)) (\<lambda>_. fail e))" for e
    by (intro shrink.and_then_rule [OF shrink_updateStatus [OF assms(1)]] shrink.fail_rule) simp
  have good: "tracks (sound c) (evolves c) (okay (\<lambda>_. True))
      (and_then (query (List_Nodes c)) (\<lambda>nodes.
       and_then (query (\<lambda>_. match_nodes E fil policy nodes [] [])) (\<lambda>(matched, vulnerable).
       State_Monad.bind (emit (GaugeSet metric_MatchedNodes [pol_name policy] (int (length matched)))) (\<lambda>_.
       State_Monad.bind (emit (GaugeSet metric_VulnerableNodes [pol_name policy] (int (length vulnerable)))) (\<lambda>_.
         reconcile_workloads E c policy matched vulnerable)))))" for fil
    by (auto intro!: evolve_and_then [where Q = "\<lambda>_. True"] grow.query_rule evolve_bind [OF grow.emit_rule] evolve_reconcile_workloads [OF assms])
  show ?thesis
    unfolding reconcile_policy_def
    by (auto intro!: evolve_shrink [OF shrink_cleanup [OF assms(1)]] evolve_shrink [OF add] evolve_shrink [OF bad] good split: sum.split)
qed


section \<open>Interleavings\<close>

text \<open>
  One step: a reconcile of a policy whose catalog entries all patch something, a reconcile of
  a window, each whatever it returns, or a change of the cluster that leaves the windows alone.
\<close>

inductive sys_step :: "env \<Rightarrow> 'w client \<Rightarrow> 'w \<Rightarrow> 'w \<Rightarrow> bool" for E c where
  policy_step: "run_state (policy_reconcile E c name) \<lparr>cluster = w, log = l\<rparr> = (r, s') \<Longrightarrow>
    (\<And>policy. Get_Policy c w name = Inr policy \<Longrightarrow> patching_policy policy) \<Longrightarrow> sys_step E c w (cluster s')"
| window_step: "run_state (window_reconcile E c ns n) \<lparr>cluster = w, log = l\<rparr> = (r, s') \<Longrightarrow> sys_step E c w (cluster s')"
| other_step: "Get_Window c w' = Get_Window c w \<Longrightarrow> sys_step E c w w'"

text \<open>A run of steps during which there is always a window of the name \<open>k\<close>.\<close>

inductive life :: "env \<Rightarrow> 'w client \<Rightarrow> string \<times> string \<Rightarrow> 'w \<Rightarrow> 'w \<Rightarrow> bool" for E c k w where
  born: "window_at c w k \<noteq> None \<Longrightarrow> life E c k w w"
| lives: "life E c k w w1 \<Longrightarrow> sys_step E c w1 w2 \<Longrightarrow> window_at c w2 k \<noteq> None \<Longrightarrow> life E c k w w2"

lemma evolves_later: "evolves c w w' \<Longrightarrow> window_at c w k = Some win \<Longrightarrow> window_at c w' k = Some win' \<Longrightarrow> later win win'"
  unfolding evolves_def grows_def shrinks_def by (metis later_trans option.inject)

lemma evolves_sound: "sound c w \<Longrightarrow> evolves c w w' \<Longrightarrow> sound c w'"
  unfolding evolves_def using grow.inv shrink.inv by meson

lemma sys_step_evolves:
  assumes doc: "writes_documented c" and ref: "controller_ref_documented E" and sound: "sound c w" and step: "sys_step E c w w'"
  shows "evolves c w w'"
  using step
proof cases
  case (policy_step name l r s')
  show ?thesis
  proof (cases "Get_Policy c w name")
    case (Inl e)
    with policy_step(2) have "cluster s' = w" by (auto simp: policy_reconcile_def split: option.splits)
    with policy_step(1) show ?thesis by (simp add: evolves_shrinks shrink.refl)
  next
    case (Inr policy)
    with policy_step(2) have "run_state (reconcile_policy E c policy) \<lparr>cluster = w, log = l\<rparr> = (r, s')" by (simp add: policy_reconcile_def)
    from tracksD [OF evolve_reconcile_policy [OF doc ref policy_step(3) [OF Inr]] this] sound policy_step(1) show ?thesis by simp
  qed
next
  case (window_step ns n l r s')
  from tracksD [OF shrink_window_reconcile [OF doc] window_step(2)] sound window_step(1) show ?thesis by (simp add: evolves_shrinks)
next
  case other_step
  then show ?thesis by (intro evolves_shrinks shrinks_same)
qed

lemma life_later:
  assumes "writes_documented c" and "controller_ref_documented E" and "sound c w" and "window_at c w k = Some win" and "life E c k w w'"
  shows "sound c w' \<and> (\<exists>win'. window_at c w' k = Some win' \<and> later win win')"
  using assms(5)
proof induction
  case born
  with assms(3,4) show ?case by simp
next
  case (lives w1 w2)
  then obtain win1 win2 where w: "window_at c w1 k = Some win1" "later win win1" "window_at c w2 k = Some win2" by auto
  have e: "evolves c w1 w2" using sys_step_evolves [OF assms(1,2)] lives by blast
  have "sound c w2" using evolves_sound [OF _ e] lives by blast
  with w later_trans [OF w(2) evolves_later [OF e w(1,3)]] show ?case by blast
qed


section \<open>Properties\<close>

text \<open>
  C9. What a window has to give back is never forgotten. Take any interleaving of reconciles
  of policies and windows, each of which may fail at any of its calls and leave its writes
  done or not done, and of changes by others that leave the windows alone. As long as the
  window is there, every baseline that it records stays recorded under the same action with
  the same value: no reconcile overwrites, drops or re-reads it, and deferring a workload never
  clears the record of a window that holds one. The policies must not have external catalog
  entries.
\<close>

theorem recorded_capacity_survives:
  assumes "writes_documented c" and "controller_ref_documented E" and "sound c w" and "window_at c w k = Some win" and "life E c k w w'"
  shows "\<exists>win'. window_at c w' k = Some win' \<and> recorded win \<subseteq>\<^sub>m recorded win' \<and> (isDeferredWindow (Some win') \<longrightarrow> ws_actions (win_spec win') = [])"
proof -
  from life_later [OF assms] obtain win' where win': "window_at c w' k = Some win'" "later win win'" and "sound c w'" by blast
  moreover have "sound_window win" using assms(3,4) unfolding sound_def by blast
  ultimately show ?thesis by (auto simp: later_def sound_window_def)
qed

theorem recorded_capacity_survives_witness:
  "\<exists>win'. window_at mem_client (hpa_store [hpa_window\<lparr>win_finalizers := [WindowFinalizer]\<rparr>] 9 10) (''shop'', ''w'') = Some win' \<and>
     recorded win' (actionKey (step_action (hpa_step ''spec.minReplicas'' 3))) = Some 3"
proof -
  let ?m = "\<lambda>fs lo. hpa_store [hpa_window\<lparr>win_finalizers := fs\<rparr>] lo 10" and ?k = "(''shop'', ''w'')"
  let ?key = "actionKey (step_action (hpa_step ''spec.minReplicas'' 3))"
  have acts: "ws_actions (win_spec hpa_window) = [step_action (hpa_step ''spec.minReplicas'' 3), step_action (hpa_step ''spec.maxReplicas'' 10)]"
    by (simp add: hpa_window_def plan_actions_def mergeActions_def hpa_plan_def)
  have basics: "win_finalizers hpa_window = []" "win_namespace hpa_window = ''shop''" "win_name hpa_window = ''w''"
    "win_labels hpa_window = []" "wst_phase (win_status hpa_window) = WindowPhaseUnset" "win_deletionTimestamp hpa_window = None"
    by (simp_all add: hpa_window_def some_window_def)
  have at: "window_at mem_client (?m fs lo) k = (if k = ?k then Some (hpa_window\<lparr>win_finalizers := fs\<rparr>) else None)" for fs lo k
    by (auto simp: mem_window_at hpa_store_def window_key_def basics)
  have kind: "sa_kind (step_action (hpa_step p b)) \<noteq> window_kind" for p b
    by (simp add: step_action_def scaleAction_def hpa_step_def hpa_target_def window_kind_def)
  have sound: "sound mem_client (?m [] 5)"
    by (auto simp: sound_def at sound_window_def isDeferredWindow_def acts kind basics)
  have get: "Get_Window mem_client (?m [] 5) ''shop'' ''w'' = Inr (hpa_window\<lparr>win_finalizers := []\<rparr>)"
    by (simp add: mem_client_def hpa_store_def basics)
  have patch: "Patch_Window mem_client (hpa_window\<lparr>win_finalizers := []\<rparr>) (hpa_window\<lparr>win_finalizers := [WindowFinalizer]\<rparr>) (?m [] 5) =
      (Inr (hpa_window\<lparr>win_finalizers := [WindowFinalizer]\<rparr>), ?m [WindowFinalizer] 5)"
    by (simp add: mem_client_def put_window_def window_is_def finalize_window_def hpa_store_def merge_window_def merge_window_spec_def
        differing_def basics)
  have "run_state (window_reconcile std_env mem_client ''shop'' ''w'') \<lparr>cluster = ?m [] 5, log = []\<rparr> =
      (Inr 0, \<lparr>cluster = ?m [WindowFinalizer] 5, log = []\<rparr>)"
    by (simp add: window_reconcile_def get) (simp add: reconcile_window_def std_env_def basics patch and_then_def time_is_zero_def)
  then have one: "sys_step std_env mem_client (?m [] 5) (?m [WindowFinalizer] 5)"
    using sys_step.window_step by fastforce
  have two: "sys_step std_env mem_client (?m [WindowFinalizer] 5) (?m [WindowFinalizer] 9)"
    by (rule sys_step.other_step) (simp add: mem_client_def hpa_store_def)
  have "life std_env mem_client ?k (?m [] 5) (?m [WindowFinalizer] 9)"
    by (rule life.lives [OF life.lives [OF life.born one] two]) (simp_all add: at)
  from recorded_capacity_survives [OF mem_writes_documented std_env_controller_ref sound _ this]
  obtain win' where "window_at mem_client (?m [WindowFinalizer] 9) ?k = Some win'" "recorded (hpa_window\<lparr>win_finalizers := []\<rparr>) \<subseteq>\<^sub>m recorded win'"
    by (auto simp: at)
  moreover have "recorded (hpa_window\<lparr>win_finalizers := []\<rparr>) ?key = Some 3"
    by (simp add: recorded_def acts) (simp add: step_action_def scaleAction_def hpa_step_def)
  ultimately show ?thesis by (auto simp: map_le_def dom_def)
qed

end
