(* ===== verification/External_Catalog.thy ===== *)
theory External_Catalog
  imports Open_Close
begin

text \<open>
  A catalog whose entries for a workload are all external: the plan has no steps, opening the
  window patches nothing, and \<open>plan_actions\<close> clears what an earlier catalog recorded. With
  patching catalogs nothing recorded is ever lost (theory \<open>Interleaving\<close>); here is the case
  that has to be excluded there.
\<close>

lemma buildPlan_external:
  assumes "BindingsForWorkload dep (Some policy) = Inr bs" and "ResolveCatalog dep (Some policy) bs = Inr []"
    and "buildPlan E c w (Some policy) dep atRisk existing sticky = Inr plan"
  shows "plan_steps plan = []"
  using assms by (auto simp: buildPlan_def Let_def split: if_splits)

lemma apply_external [simp]: "plan_steps plan = [] \<Longrightarrow> run_state (plan_apply E c plan pn) s = ((False, None), s)"
  by (simp add: plan_apply_def)

lemma restoreActions_none: "ws_actions (win_spec win) = [] \<Longrightarrow> run_state (restoreActions E c win) s = (Inr (), s)"
  by (simp add: restoreActions_def ScaleActions_def)

text \<open>
  C23. A catalog that turns external forgets the capacity to give back. When a workload has
  an open window that records raised fields and all the catalog entries it binds have lost
  their patches, the next \<open>ensureWindow\<close> leaves every object as it is, raised, and empties
  the actions of the stored window; restoring that window then does nothing, in whatever
  state the cluster is.
\<close>

theorem external_catalog_forgets_capacity:
  assumes "window_api_documented c" and "controller_ref_documented E" and "named_windows c (cluster s)"
    and "getWindow c (cluster s) policy w = Inr (Some old)" and "\<not> holdMaxWindow (Some policy) (Some old) (Now c (cluster s))"
    and "BindingsForWorkload (Some (wl_deploy w)) (Some policy) = Inr bs" and "ResolveCatalog (Some (wl_deploy w)) (Some policy) bs = Inr []"
    and "run_state (ensureWindow E c policy w) s = (Inr (), s')"
  shows "\<exists>win. holds c (cluster s') win \<and> win_namespace win = dep_namespace (wl_deploy w) \<and>
     win_name win = workload_window_name policy (wl_deploy w) \<and> ws_actions (win_spec win) = [] \<and>
     objects c (cluster s') = objects c (cluster s) \<and> (\<forall>s2. run_state (restoreActions E c win) s2 = (Inr (), s2))"
proof -
  have "run_state (open_window E c policy w (Some old)) s = (Inr (), s')"
    using assms(4,5,8) by (simp add: ensureWindow_def unless_held_def run_and_then)
  then show ?thesis
  proof (cases rule: open_window_cases)
    case (opened plan s0 win0 s1 scaled err s2 s3)
    note steps = buildPlan_external [OF assms(6,7) opened(2)]
    have s2: "s2 = s1" using opened(4) steps by simp
    have "\<And>x. Some old = Some x \<Longrightarrow> holds c (cluster s0) x \<and> win_namespace x = dep_namespace (wl_deploy w) \<and>
        win_name x = workload_window_name policy (wl_deploy w)"
      using getWindow_held [OF assms(3,4)] opened(1) by simp
    from record_window_stored [OF assms(1,2) this opened(3)]
    have rec: "holds c (cluster s1) win0" "win_namespace win0 = dep_namespace (wl_deploy w)"
        "win_name win0 = workload_window_name policy (wl_deploy w)" "ws_actions (win_spec win0) = plan_actions plan (ScaleActions (Some old))"
      by simp_all
    have "holds c (cluster s3) win0" using rec s2 opened(5) by simp
    from finish_open_ok [OF assms(1) this opened(6)] obtain win where win: "holds c (cluster s') win"
        "win_spec win = win_spec win0" "win_namespace win = win_namespace win0" "win_name win = win_name win0" by metis
    have "objects c (cluster s') = objects c (cluster s)"
      using keepsD [OF keeps_finish_open [OF assms(1)] opened(6)] keepsD [OF keeps_record_window [OF assms(1)] opened(3)]
        opened(1,5) s2 by simp
    moreover have acts: "ws_actions (win_spec win) = []" using rec(4) win(2) by (simp add: plan_actions_def steps)
    ultimately show ?thesis using win(1,3,4) rec(2,3) by (intro exI [of _ win]) (simp add: restoreActions_none [OF acts])
  qed simp_all
qed

definition external_policy :: EvictionGuardPolicy where
  "external_policy = catalog_policy\<lparr>pol_spec := (pol_spec catalog_policy)\<lparr>spec_backends :=
     [(''hpa'', \<lparr>be_apiVersion = ''autoscaling/v2'', be_kind = ''HorizontalPodAutoscaler'', be_patches = [],
        be_skipDownscaling = False, be_defaultWhenUnset = None\<rparr>)]\<rparr>\<rparr>"

definition raised_window :: EvictionGuardWindow where
  "raised_window = hpa_window\<lparr>win_name := workload_window_name external_policy hpa_deployment\<rparr>"

lemma external_catalog:
  "BindingsForWorkload (Some hpa_deployment) (Some external_policy) = Inr [\<lparr>bind_key = ''hpa'', bind_namespace = ''shop'', bind_name = ''web''\<rparr>]"
  "ResolveCatalog (Some hpa_deployment) (Some external_policy) [\<lparr>bind_key = ''hpa'', bind_namespace = ''shop'', bind_name = ''web''\<rparr>] = Inr []"
proof -
  show "BindingsForWorkload (Some hpa_deployment) (Some external_policy) = Inr [\<lparr>bind_key = ''hpa'', bind_namespace = ''shop'', bind_name = ''web''\<rparr>]"
    using hpa_bindings by (simp add: BindingsForWorkload_def)
  show "ResolveCatalog (Some hpa_deployment) (Some external_policy) [\<lparr>bind_key = ''hpa'', bind_namespace = ''shop'', bind_name = ''web''\<rparr>] = Inr []"
    by (simp add: ResolveCatalog_def external_policy_def mlen_def mkeys_def splitPatches_def)
qed

lemma raised_get: "getWindow mem_client (hpa_store [raised_window] lo hi) external_policy hpa_workload = Inr (Some raised_window)"
  by (simp add: getWindow_def mem_client_def raised_window_def hpa_workload_def hpa_window_def some_window_def hpa_deployment_def
      plain_deployment_def)

lemma raised_open: "\<not> holdMaxWindow (Some external_policy) (Some raised_window) (Now mem_client (hpa_store ws lo hi))"
  by (simp add: holdMaxWindow_def maxWindowExceeded_def windowOpenedAt_def raised_window_def hpa_window_def some_window_def mem_client_def
      hpa_store_def time_is_zero_def Let_def)

lemma raised_record:
  assumes "plan_steps plan = []"
  shows "\<exists>win. run_state (record_window std_env mem_client external_policy hpa_workload (Some raised_window) plan)
     \<lparr>cluster = hpa_store [raised_window] lo hi, log = l\<rparr> = (Inr win, \<lparr>cluster = hpa_store [win] lo hi, log = l\<rparr>) \<and>
     wst_phase (win_status win) = WindowPhaseUnset"
proof -
  have "win_deletionTimestamp raised_window = None" "wst_phase (win_status raised_window) = WindowPhaseUnset"
    by (simp_all add: raised_window_def hpa_window_def some_window_def)
  then show ?thesis by (simp add: record_window_def Let_def mem_client_def put_window_def window_is_def finalize_window_def)
qed

lemma raised_ensure:
  "\<exists>s'. run_state (ensureWindow std_env mem_client external_policy hpa_workload) \<lparr>cluster = hpa_store [raised_window] 5 10, log = l\<rparr> = (Inr (), s')"
proof -
  have "mlen (spec_backends (pol_spec external_policy)) \<noteq> 0" by (simp add: external_policy_def mlen_def mkeys_def)
  then obtain plan where plan: "buildPlan std_env mem_client (hpa_store [raised_window] 5 10) (Some external_policy) (Some hpa_deployment) 2
      (ScaleActions (Some raised_window)) (ws_baseline (win_spec raised_window)) = Inr plan"
    by (simp add: buildPlan_def external_catalog Let_def)
  have steps: "plan_steps plan = []" by (rule buildPlan_external [OF external_catalog plan])
  obtain f where rec: "\<And>l. run_state (record_window std_env mem_client external_policy hpa_workload (Some raised_window) plan)
      \<lparr>cluster = hpa_store [raised_window] 5 10, log = l\<rparr> = (Inr (f l), \<lparr>cluster = hpa_store [f l] 5 10, log = l\<rparr>)"
    and st: "\<And>l. wst_phase (win_status (f l)) = WindowPhaseUnset"
    using raised_record [OF steps, of 5 10] by metis
  have wl: "wl_deploy hpa_workload = hpa_deployment" "wl_atRisk hpa_workload = 2" by (simp_all add: hpa_workload_def)
  have fin: "\<exists>s'. run_state (finish_open std_env mem_client (f k) msg None now) \<lparr>cluster = hpa_store [f k] 5 10, log = l'\<rparr> = (Inr (), s')"
    for k msg now l' using hpa_finish [OF st] by blast
  show ?thesis
    using raised_open [of "[raised_window]" 5 10]
    by (simp add: fin ensureWindow_def unless_held_def run_and_then raised_get open_window_def Let_def setWorkloadPlanMetrics_def
        wl plan rec steps)
qed

theorem external_catalog_forgets_capacity_witness:
  "\<exists>s' win. run_state (ensureWindow std_env mem_client external_policy hpa_workload) \<lparr>cluster = hpa_store [raised_window] 5 10, log = []\<rparr> = (Inr (), s') \<and>
     ws_actions (win_spec raised_window) \<noteq> [] \<and> holds mem_client (cluster s') win \<and> ws_actions (win_spec win) = [] \<and>
     objects mem_client (cluster s') = objects mem_client (hpa_store [raised_window] 5 10)"
proof -
  obtain s' where run: "run_state (ensureWindow std_env mem_client external_policy hpa_workload)
      \<lparr>cluster = hpa_store [raised_window] 5 10, log = []\<rparr> = (Inr (), s')" using raised_ensure by blast
  have wl: "wl_deploy hpa_workload = hpa_deployment" by (simp add: hpa_workload_def)
  obtain win where "holds mem_client (cluster s') win" "ws_actions (win_spec win) = []"
      "objects mem_client (cluster s') = objects mem_client (hpa_store [raised_window] 5 10)"
    using external_catalog_forgets_capacity [OF mem_window_api std_env_controller_ref mem_named_windows _ _ _ _ run, of raised_window
        "[\<lparr>bind_key = ''hpa'', bind_namespace = ''shop'', bind_name = ''web''\<rparr>]"] raised_get raised_open external_catalog
    by (auto simp: wl)
  moreover have "ws_actions (win_spec raised_window) \<noteq> []"
    by (simp add: raised_window_def hpa_window_def plan_actions_def mergeActions_def hpa_plan_def)
  ultimately show ?thesis using run by blast
qed

end
