(* ===== verification/Spare_Seen.thy ===== *)
theory Spare_Seen
  imports Interleaving
begin

text \<open>
  Where the \<open>SpareReady\<close> of a window comes from. The gate reads it; the window controller is
  the only one that sets it, from a count of the pods; everything else passes it on or starts
  a window without it. \<open>window_walk\<close> is interpreted for the reconcile of one window, during
  which what is counted does not change; the handlers of the policy controller keep the set
  of ready windows. \<open>history_ready\<close> puts both together for any interleaving of reconciles.
  \<open>flag_documented\<close> is what the API server documents of the writes here.
\<close>


section \<open>Definitions\<close>

definition ready_flag :: "EvictionGuardWindow \<Rightarrow> bool" where
  "ready_flag win = wst_spareReady (win_status win)"

text \<open>What the count of a window depends on, and the actions that a reconcile may patch.\<close>

definition counting :: "EvictionGuardWindow \<Rightarrow> string list \<times> int \<times> ScaleAction list" where
  "counting win = (ws_vulnerableNodes (win_spec win), ws_baseline (win_spec win), ws_actions (win_spec win))"

text \<open>
  The window of the name \<open>k\<close> has spare: there are as many ready pods of its target that are
  not on its vulnerable nodes as its baseline asks for.
\<close>

definition has_spare :: "env \<Rightarrow> 'w client \<Rightarrow> 'w \<Rightarrow> string \<times> string \<Rightarrow> bool" where
  "has_spare E c w k \<longleftrightarrow>
     (\<exists>win pods. window_at c w k = Some win \<and> listWorkloadPods E c w (target_deployment c w win) = Inr pods \<and>
        ws_baseline (win_spec win) \<le>
          int (length (filter (\<lambda>p. podReady p \<and> pod_nodeName p \<notin> set (ws_vulnerableNodes (win_spec win))) pods)))"

text \<open>
  Documented behaviour: a patch leaves the status alone and writes what differs; the status
  update stores the status that is sent; a created window has no status; no write to a
  window changes another window or the list of pods, and neither does a patch of an object
  that is not a pod.
\<close>

definition pod_kind :: string where
  "pod_kind = ''Pod''"

definition patch_flag :: "'w client \<Rightarrow> bool" where
  "patch_flag c \<longleftrightarrow>
     (\<forall>base new w r w'. Patch_Window c base new w = (r, w') \<longrightarrow> window_key new = window_key base \<longrightarrow>
        (\<forall>k got. window_at c w' k = Some got \<longrightarrow> (\<exists>old. window_at c w k = Some old \<and> ready_flag got = ready_flag old \<and>
           (counting new = counting base \<longrightarrow> counting got = counting old))) \<and>
        okay (\<lambda>x. window_key x = window_key base \<and> (\<exists>old. window_at c w (window_key base) = Some old \<and> ready_flag x = ready_flag old \<and>
           (counting new = counting base \<longrightarrow> counting x = counting old))) r \<and>
        List_PodsMatching c w' = List_PodsMatching c w)"

definition status_flag :: "'w client \<Rightarrow> bool" where
  "status_flag c \<longleftrightarrow>
     (\<forall>win w r w'. Update_WindowStatus c win w = (r, w') \<longrightarrow>
        (\<forall>k got. window_at c w' k = Some got \<longrightarrow> (\<exists>old. window_at c w k = Some old \<and> counting got = counting old \<and>
           (ready_flag got = ready_flag old \<or> k = window_key win \<and> ready_flag got = ready_flag win))) \<and>
        okay (\<lambda>x. window_key x = window_key win \<and> ready_flag x = ready_flag win \<and>
           (\<exists>old. window_at c w (window_key win) = Some old \<and> counting x = counting old)) r \<and>
        List_PodsMatching c w' = List_PodsMatching c w)"

definition create_flag :: "'w client \<Rightarrow> bool" where
  "create_flag c \<longleftrightarrow>
     (\<forall>win w r w'. Create_Window c win w = (r, w') \<longrightarrow>
        (\<forall>k got. window_at c w' k = Some got \<longrightarrow> window_at c w k = Some got \<or> \<not> ready_flag got) \<and>
        okay (\<lambda>x. \<not> ready_flag x) r)"

definition delete_flag :: "'w client \<Rightarrow> bool" where
  "delete_flag c \<longleftrightarrow>
     (\<forall>win w r w'. Delete_Window c win w = (r, w') \<longrightarrow>
        (\<forall>k got. window_at c w' k = Some got \<longrightarrow> (\<exists>old. window_at c w k = Some old \<and> ready_flag got = ready_flag old \<and> counting got = counting old)) \<and>
        List_PodsMatching c w' = List_PodsMatching c w)"

definition flag_documented :: "'w client \<Rightarrow> bool" where
  "flag_documented c \<longleftrightarrow> patch_flag c \<and> status_flag c \<and> create_flag c \<and> delete_flag c \<and>
     ignores_patches (List_PodsMatching c) c pod_kind"

text \<open>Only windows with a name in \<open>S\<close> are ready.\<close>

definition ready_within :: "'w client \<Rightarrow> (string \<times> string) set \<Rightarrow> 'w \<Rightarrow> bool" where
  "ready_within c S w \<longleftrightarrow> (\<forall>k win. window_at c w k = Some win \<longrightarrow> ready_flag win \<longrightarrow> k \<in> S)"

lemma ready_withinD: "ready_within c S w \<Longrightarrow> window_at c w k = Some win \<Longrightarrow> ready_flag win \<Longrightarrow> k \<in> S"
  unfolding ready_within_def by blast

definition flag_in :: "(string \<times> string) set \<Rightarrow> EvictionGuardWindow \<Rightarrow> bool" where
  "flag_in S win \<longleftrightarrow> (ready_flag win \<longrightarrow> window_key win \<in> S)"

abbreviation maintains :: "('w \<Rightarrow> bool) \<Rightarrow> ('a \<Rightarrow> bool) \<Rightarrow> ('w, effect, 'a) handler \<Rightarrow> bool" where
  "maintains I Q m \<equiv> tracks I (\<lambda>w w'. I w \<longrightarrow> I w') Q m"

interpretation hold: invariant_frame I "\<lambda>w w'. I w \<longrightarrow> I w'" for I
  by unfold_locales auto

lemma hold_kept: "keeps f m \<Longrightarrow> (\<And>w w'. f w' = f w \<Longrightarrow> I w \<Longrightarrow> I w') \<Longrightarrow> maintains I (\<lambda>_. True) m"
  by (rule hold.kept) blast+

lemma hold_silent: "(\<And>f :: 'w \<Rightarrow> 'w. keeps f m) \<Longrightarrow> maintains I (\<lambda>_. True) m"
  by (rule hold_kept [where f = "\<lambda>w. w"]) simp_all


section \<open>The window controller\<close>

text \<open>
  During a reconcile of the window \<open>win0\<close> that starts at \<open>w0\<close>: the pods and what is counted
  stay what they were.
\<close>

definition steady :: "'w client \<Rightarrow> (string \<times> string) set \<Rightarrow> 'w \<Rightarrow> EvictionGuardWindow \<Rightarrow> 'w \<Rightarrow> bool" where
  "steady c S w0 win0 w \<longleftrightarrow> ready_within c S w \<and> List_PodsMatching c w = List_PodsMatching c w0 \<and>
     (\<forall>v. window_at c w (window_key win0) = Some v \<longrightarrow> counting v = counting win0)"

definition copy_of :: "(string \<times> string) set \<Rightarrow> EvictionGuardWindow \<Rightarrow> EvictionGuardWindow \<Rightarrow> bool" where
  "copy_of S win0 win \<longleftrightarrow> window_key win = window_key win0 \<and> counting win = counting win0 \<and> flag_in S win"

definition pod_free :: "EvictionGuardWindow \<Rightarrow> bool" where
  "pod_free win \<longleftrightarrow> (\<forall>a \<in> set (ws_actions (win_spec win)). sa_kind a \<noteq> pod_kind)"

definition seen_step :: "env \<Rightarrow> 'w client \<Rightarrow> (string \<times> string) set \<Rightarrow> 'w \<Rightarrow> EvictionGuardWindow \<Rightarrow> Deployment option \<Rightarrow> bool" where
  "seen_step E c S w0 win0 dep \<longleftrightarrow> writes_documented c \<and> flag_documented c \<and> foreign_window win0 \<and> pod_free win0 \<and>
     (\<forall>ready safe. spareCounts E c w0 win0 dep = Inr (ready, safe) \<longrightarrow> ws_baseline (win_spec win0) \<le> safe \<longrightarrow> window_key win0 \<in> S)"

lemma steady_same: "Get_Window c w' = Get_Window c w \<Longrightarrow> List_PodsMatching c w' = List_PodsMatching c w \<Longrightarrow> steady c S w0 win0 w \<Longrightarrow> steady c S w0 win0 w'"
  using same_windows [of c w' w] by (simp add: steady_def ready_within_def)

lemma spareCounts_same:
  "List_PodsMatching c w = List_PodsMatching c w0 \<Longrightarrow> counting win = counting win0 \<Longrightarrow> spareCounts E c w win dep = spareCounts E c w0 win0 dep"
  by (simp add: spareCounts_def counting_def split: option.split)

lemma steady_patch:
  assumes doc: "flag_documented c" and key: "window_key new = window_key base" "window_key base = window_key win0" and same: "counting new = counting base"
  shows "maintains (steady c S w0 win0) (okay (copy_of S win0)) (mutate (Patch_Window c base new))"
proof (rule hold.mutate_rule)
  fix w r w' assume i: "steady c S w0 win0 w" and p: "Patch_Window c base new w = (r, w')"
  have "patch_flag c" using doc by (simp add: flag_documented_def)
  note law = this [unfolded patch_flag_def, rule_format, OF p key(1)]
  have old: "\<exists>old. window_at c w k = Some old \<and> ready_flag got = ready_flag old \<and> counting got = counting old" if "window_at c w' k = Some got" for k got
    using law that same by blast
  have "ready_within c S w'" using i old unfolding steady_def ready_within_def by metis
  moreover have "counting v = counting win0" if "window_at c w' (window_key win0) = Some v" for v
    using i old [OF that] unfolding steady_def by metis
  ultimately have "steady c S w0 win0 w'" using i law by (simp add: steady_def)
  moreover have "okay (copy_of S win0) r"
  proof (cases r)
    case (Inr x)
    with law same key obtain v where "window_key x = window_key win0" "window_at c w (window_key win0) = Some v" "ready_flag x = ready_flag v" "counting x = counting v"
      by auto
    with i Inr show ?thesis by (auto simp: copy_of_def flag_in_def steady_def dest: ready_withinD)
  qed simp
  ultimately show "(steady c S w0 win0 w \<longrightarrow> steady c S w0 win0 w') \<and> okay (copy_of S win0) r" by simp
qed

lemma steady_status:
  assumes doc: "flag_documented c" and copy: "copy_of S win0 win"
  shows "maintains (steady c S w0 win0) (okay (copy_of S win0)) (mutate (Update_WindowStatus c win))"
proof (rule hold.mutate_rule)
  fix w r w' assume i: "steady c S w0 win0 w" and p: "Update_WindowStatus c win w = (r, w')"
  have "status_flag c" using doc by (simp add: flag_documented_def)
  note law = this [unfolded status_flag_def, rule_format, OF p]
  have "ready_within c S w'"
    unfolding ready_within_def
  proof (intro allI impI)
    fix k got assume g: "window_at c w' k = Some got" "ready_flag got"
    with law obtain old where "window_at c w k = Some old" "ready_flag old \<or> k = window_key win \<and> ready_flag win" by metis
    with i copy show "k \<in> S" by (auto simp: steady_def copy_of_def flag_in_def dest: ready_withinD)
  qed
  moreover have "counting v = counting win0" if "window_at c w' (window_key win0) = Some v" for v
    using i law that unfolding steady_def by metis
  ultimately have "steady c S w0 win0 w'" using i law by (simp add: steady_def)
  moreover have "okay (copy_of S win0) r"
  proof (cases r)
    case (Inr x)
    with law copy obtain v where "window_key x = window_key win0" "window_at c w (window_key win0) = Some v" "ready_flag x = ready_flag win" "counting x = counting v"
      by (auto simp: copy_of_def)
    with i Inr copy show ?thesis by (auto simp: copy_of_def flag_in_def steady_def)
  qed simp
  ultimately show "(steady c S w0 win0 w \<longrightarrow> steady c S w0 win0 w') \<and> okay (copy_of S win0) r" by simp
qed

lemma steady_delete:
  assumes doc: "flag_documented c"
  shows "maintains (steady c S w0 win0) (\<lambda>_. True) (mutate (Delete_Window c win))"
proof (rule hold.mutate_rule)
  fix w r w' assume i: "steady c S w0 win0 w" and p: "Delete_Window c win w = (r, w')"
  have "delete_flag c" using doc by (simp add: flag_documented_def)
  note law = this [unfolded delete_flag_def, rule_format, OF p]
  have "ready_within c S w'" using i law unfolding steady_def ready_within_def by metis
  moreover have "counting v = counting win0" if "window_at c w' (window_key win0) = Some v" for v
    using i law that unfolding steady_def by metis
  ultimately show "(steady c S w0 win0 w \<longrightarrow> steady c S w0 win0 w') \<and> True" using i law by (simp add: steady_def)
qed

text \<open>Patches of objects that are neither windows nor pods.\<close>

lemma steady_kept:
  assumes "keeps (Get_Window c) m" and "keeps (List_PodsMatching c) m"
  shows "maintains (steady c S w0 win0) (\<lambda>_. True) m"
proof (rule hold_kept [where f = "\<lambda>w. (Get_Window c w, List_PodsMatching c w)"])
  show "keeps (\<lambda>w. (Get_Window c w, List_PodsMatching c w)) m" using assms by (simp add: keeps_def)
qed (auto intro: steady_same)

lemma copy_actions: "copy_of S win0 win \<Longrightarrow> ws_actions (win_spec win) = ws_actions (win_spec win0)"
  by (simp add: copy_of_def counting_def)

text \<open>The walk through the window controller: the flag is set only by a count that reaches the baseline.\<close>

interpretation seeing: window_walk "\<lambda>w. seen_step E c S w0 win0 dep \<and> steady c S w0 win0 w"
  "\<lambda>w w'. steady c S w0 win0 w \<longrightarrow> steady c S w0 win0 w'" c E "copy_of S win0" "\<lambda>d. d = dep" for E c S w0 win0 dep
proof
  let ?b = "seen_step E c S w0 win0 dep" and ?I = "steady c S w0 win0" and ?C = "copy_of S win0"
  let ?R = "\<lambda>w w'. steady c S w0 win0 w \<longrightarrow> steady c S w0 win0 w'"
  fix win fs t policy d until assume copy: "?C win"
  have key: "window_key win = window_key win0" using copy by (simp add: copy_of_def)
  have keeps: "keeps (Get_Window c) (restoreActions E c win)" "keeps (List_PodsMatching c) (restoreActions E c win)"
    "keeps (Get_Window c) (stampCooldown E c policy d win until)" "keeps (List_PodsMatching c) (stampCooldown E c policy d win until)" if ?b
    using that copy_actions [OF copy]
    by (auto intro!: keeps_restoreActions keeps_stampCooldown simp: seen_step_def flag_documented_def writes_documented_def foreign_window_def pod_free_def)
  show "tracks (\<lambda>w. ?b \<and> ?I w) ?R (okay ?C) (mutate (Patch_Window c win (win\<lparr>win_finalizers := fs\<rparr>)) :: (_, EvictionGuardWindow) fallible)"
    by (intro tracks_under steady_patch) (simp_all add: window_key_def counting_def key [unfolded window_key_def] seen_step_def)
  show "tracks (\<lambda>w. ?b \<and> ?I w) ?R (okay ?C) (mutate (Patch_Window c win (win\<lparr>win_spec := (win_spec win)\<lparr>ws_windowUntil := t\<rparr>\<rparr>)) :: (_, EvictionGuardWindow) fallible)"
    by (intro tracks_under steady_patch) (simp_all add: window_key_def counting_def key [unfolded window_key_def] seen_step_def)
  show "tracks (\<lambda>w. ?b \<and> ?I w) ?R (okay ?C) (mutate (Update_WindowStatus c win) :: (_, EvictionGuardWindow) fallible)"
    using copy by (intro tracks_under steady_status) (simp_all add: seen_step_def)
  show "tracks (\<lambda>w. ?b \<and> ?I w) ?R (\<lambda>_. True) (mutate (Delete_Window c win) :: (_, unit) fallible)"
    by (intro tracks_under steady_delete) (simp add: seen_step_def)
  show "tracks (\<lambda>w. ?b \<and> ?I w) ?R (\<lambda>_. True) (restoreActions E c win)"
    by (intro tracks_under steady_kept keeps)
  show "tracks (\<lambda>w. ?b \<and> ?I w) ?R (okay (\<lambda>_. True)) (stampCooldown E c policy d win until)"
    by (intro tracks_under tracks_okay steady_kept keeps)
  show "?C (win\<lparr>win_status := st\<rparr>)" if "wst_spareReady st = wst_spareReady (win_status win)" for st
    using copy that by (auto simp: copy_of_def counting_def flag_in_def ready_flag_def)
  show "?C (win\<lparr>win_status := st\<rparr>)"
    if "d = dep" "?b \<and> ?I w" "spareCounts E c w win d = Inr (ready, safe)" "wst_spareReady st = (ws_baseline (win_spec win) \<le> safe)" for st w ready safe
  proof -
    have "spareCounts E c w0 win0 dep = Inr (ready, safe)"
      using that(1,2,3) copy spareCounts_same [of c w w0 win win0] by (simp add: steady_def copy_of_def)
    with that copy have "ws_baseline (win_spec win) \<le> safe \<Longrightarrow> window_key win0 \<in> S"
      by (simp add: seen_step_def copy_of_def counting_def)
    with copy that(4) show ?thesis by (auto simp: copy_of_def counting_def flag_in_def ready_flag_def)
  qed
qed auto

text \<open>The counter is an \<open>int32\<close>; wrapped around or not, it is never more than the number of pods.\<close>

lemma int32_le:
  assumes "- (2 ^ 31) \<le> x"
  shows "- (2 ^ 31) \<le> int32 x \<and> int32 x \<le> x"
  using assms signed_take_bit_int_less_eq_self_iff [of 31 x] signed_take_bit_int_greater_eq_minus_exp [of 31 x] by (simp add: int32_def)

lemma spareCounts_loop_le:
  "- (2 ^ 31) \<le> safe \<Longrightarrow> snd (spareCounts_loop vuln pods ready safe) \<le>
     safe + int (length (filter (\<lambda>p. podReady p \<and> pod_nodeName p \<notin> set vuln) pods))"
proof (induction pods arbitrary: ready safe)
  case (Cons p pods)
  note one = Cons.IH [of safe "int32 (ready + 1)"] Cons.IH [of "int32 (safe + 1)" "int32 (ready + 1)"] Cons.IH [of safe ready]
  from one Cons.prems int32_le [of "safe + 1"] show ?case by auto
qed simp

lemma counted_has_spare:
  assumes "window_at c w k = Some win" and "spareCounts E c w win (target_deployment c w win) = Inr (ready, safe)" and "ws_baseline (win_spec win) \<le> safe"
  shows "has_spare E c w k"
proof -
  let ?vuln = "ws_vulnerableNodes (win_spec win)"
  obtain pods where pods: "listWorkloadPods E c w (target_deployment c w win) = Inr pods" and safe: "safe \<le> snd (spareCounts_loop ?vuln pods 0 0)"
    using assms(2) by (auto simp: spareCounts_def listWorkloadPods_def sum_bind_eq_Inr_iff split: option.splits)
  with assms(3) spareCounts_loop_le [of 0 ?vuln pods 0]
  have "ws_baseline (win_spec win) \<le> int (length (filter (\<lambda>p. podReady p \<and> pod_nodeName p \<notin> set ?vuln) pods))" by simp
  with assms(1) pods show ?thesis unfolding has_spare_def by blast
qed

definition pods_unpatched :: "'w client \<Rightarrow> 'w \<Rightarrow> bool" where
  "pods_unpatched c w \<longleftrightarrow> (\<forall>k win. window_at c w k = Some win \<longrightarrow> pod_free win)"

lemma window_reconcile_ready:
  assumes doc: "writes_documented c" "flag_documented c" and inv: "sound c (cluster s)" "pods_unpatched c (cluster s)" "ready_within c S (cluster s)"
    and run: "run_state (window_reconcile E c ns n) s = (r, s')"
  shows "ready_within c (S \<union> {k. has_spare E c (cluster s) k}) (cluster s')"
proof (cases "Get_Window c (cluster s) ns n")
  case (Inl e)
  with run have "s' = s" by (auto simp: window_reconcile_def split: option.splits)
  with inv(3) show ?thesis by (auto simp: ready_within_def)
next
  case (Inr win)
  let ?w = "cluster s" and ?S = "S \<union> {k. has_spare E c (cluster s) k}"
  have "named_windows c ?w" using doc(1) by (simp add: writes_documented_def)
  with Inr have at: "window_at c ?w (window_key win) = Some win" by (auto simp: window_at_def window_key_def named_windows_def)
  from inv(3) have ready: "ready_within c ?S ?w" by (auto simp: ready_within_def)
  have "seen_step E c ?S ?w win (target_deployment c ?w win)"
    unfolding seen_step_def using doc sound_foreign [OF inv(1) at] inv(2) [unfolded pods_unpatched_def, rule_format, OF at] counted_has_spare [OF at]
    by auto
  moreover have "steady c ?S ?w win ?w" using ready at by (simp add: steady_def)
  moreover have "copy_of ?S win win" using ready_withinD [OF ready at] by (simp add: copy_of_def flag_in_def)
  moreover from run Inr have "run_state (reconcile_window E c win) s = (r, s')" by (simp add: window_reconcile_def)
  ultimately have "steady c ?S ?w win (cluster s')" using seeing.reconcile_window_walk by fastforce
  then show ?thesis by (simp add: steady_def)
qed


section \<open>The policy controller\<close>

lemma ready_patch:
  assumes doc: "flag_documented c" and key: "window_key new = window_key base"
  shows "maintains (ready_within c S) (okay (flag_in S)) (mutate (Patch_Window c base new))"
proof (rule hold.mutate_rule)
  fix w r w' assume i: "ready_within c S w" and p: "Patch_Window c base new w = (r, w')"
  have "patch_flag c" using doc by (simp add: flag_documented_def)
  note law = this [unfolded patch_flag_def, rule_format, OF p key]
  have "ready_within c S w'" using i law unfolding ready_within_def by metis
  moreover have "okay (flag_in S) r" using law i by (cases r) (auto simp: flag_in_def dest: ready_withinD)
  ultimately show "(ready_within c S w \<longrightarrow> ready_within c S w') \<and> okay (flag_in S) r" by simp
qed

lemma ready_status:
  assumes doc: "flag_documented c" and "flag_in S win"
  shows "maintains (ready_within c S) (okay (flag_in S)) (mutate (Update_WindowStatus c win))"
proof (rule hold.mutate_rule)
  fix w r w' assume i: "ready_within c S w" and p: "Update_WindowStatus c win w = (r, w')"
  have "status_flag c" using doc by (simp add: flag_documented_def)
  note law = this [unfolded status_flag_def, rule_format, OF p]
  have "ready_within c S w'" using i law assms(2) unfolding ready_within_def flag_in_def by metis
  moreover have "okay (flag_in S) r" using law assms(2) by (cases r) (auto simp: flag_in_def)
  ultimately show "(ready_within c S w \<longrightarrow> ready_within c S w') \<and> okay (flag_in S) r" by simp
qed

lemma ready_delete:
  assumes doc: "flag_documented c"
  shows "maintains (ready_within c S) (\<lambda>_. True) (mutate (Delete_Window c win))"
proof (rule hold.mutate_rule)
  fix w r w' assume i: "ready_within c S w" and p: "Delete_Window c win w = (r, w')"
  have "delete_flag c" using doc by (simp add: flag_documented_def)
  note law = this [unfolded delete_flag_def, rule_format, OF p]
  then have "ready_within c S w'" using i unfolding ready_within_def by metis
  then show "(ready_within c S w \<longrightarrow> ready_within c S w') \<and> True" by simp
qed

lemma ready_create_window:
  assumes doc: "flag_documented c"
  shows "maintains (ready_within c S) (okay (flag_in S)) (create_window E c policy win)"
proof -
  have "maintains (ready_within c S) (okay (flag_in S)) (mutate (Create_Window c new))" for new
  proof (rule hold.mutate_rule)
    fix w r w' assume i: "ready_within c S w" and p: "Create_Window c new w = (r, w')"
    have "create_flag c" using doc by (simp add: flag_documented_def)
    note law = this [unfolded create_flag_def, rule_format, OF p]
    have "ready_within c S w'" using i law unfolding ready_within_def by metis
    moreover have "okay (flag_in S) r" using law by (cases r) (auto simp: flag_in_def)
    ultimately show "(ready_within c S w \<longrightarrow> ready_within c S w') \<and> okay (flag_in S) r" by simp
  qed
  then show ?thesis unfolding create_window_def by (auto intro!: hold.fail_rule split: sum.split)
qed

lemma ready_same: "Get_Window c w' = Get_Window c w \<Longrightarrow> ready_within c S w \<Longrightarrow> ready_within c S w'"
  using same_windows [of c w' w] by (simp add: ready_within_def)

lemma ready_kept: "keeps (Get_Window c) m \<Longrightarrow> maintains (ready_within c S) (\<lambda>_. True) m"
  by (erule hold_kept) (rule ready_same)

lemma ready_open_status:
  assumes "flag_in S win"
  shows "maintains I (\<lambda>(_, win'). flag_in S win') (open_status E win msg now err)"
  using assms by (intro hold.pure) (simp_all add: open_status_def applyCapacityApplied_def Let_def flag_in_def ready_flag_def)

lemma ready_finish_open:
  assumes "flag_documented c" and "flag_in S win"
  shows "maintains (ready_within c S) (okay (\<lambda>_. True)) (finish_open E c win msg err now)"
proof -
  have upd: "maintains (ready_within c S) (\<lambda>_. True) (if dirty then mutate (Update_WindowStatus c win') else ok win')" if "flag_in S win'" for dirty win'
    using ready_status [OF assms(1) that] by (auto intro: hold.ok_rule tracks_weaken)
  show ?thesis
    unfolding finish_open_def
    by (auto intro!: hold.bind [OF ready_open_status [OF assms(2)]] hold.bind [OF upd] hold.ok_rule hold.fail_rule split: sum.split option.split)
qed

lemma ready_record_window:
  assumes "flag_documented c"
  shows "maintains (ready_within c S) (okay (flag_in S)) (record_window E c policy w existing plan)"
  unfolding record_window_def Let_def
  by (cases existing) (auto intro!: hold.and_then_rule [OF ready_create_window [OF assms]] hold.bind [OF hold_silent [OF keeps_emitf]] hold.ok_rule
      ready_patch [OF assms] simp: window_key_def)

lemma ready_open_window:
  assumes doc: "writes_documented c" "flag_documented c" and pat: "patching_policy policy"
  shows "maintains (ready_within c S) (okay (\<lambda>_. True)) (open_window E c policy w existing)"
  unfolding open_window_def Let_def
proof (rule hold.bind [OF hold.emit_rule],
    rule hold.and_then_rule [where Q = "\<lambda>p. \<forall>x \<in> set (plan_steps p). tgt_kind (stp_target x) \<noteq> window_kind"], goal_cases)
  case (1 u)
  show ?case
    by (rule hold.query_rule) (simp add: okay_def split: sum.split, blast dest: buildPlan_patching(2) [OF pat])
next
  case (2 u plan)
  have "keeps (Get_Window c) (plan_apply E c plan (pol_name policy))"
    using doc(1) 2 by (intro keeps_plan_apply [where k = window_kind]) (simp_all add: writes_documented_def)
  note applied = ready_kept [OF this]
  show ?case
    by (auto intro!: hold.bind [OF hold_silent] hold.and_then_rule [OF ready_record_window [OF doc(2)]] hold.bind [OF applied]
        hold.bind [OF hold.query_rule [where Q = "\<lambda>_. True"]] ready_finish_open [OF doc(2)] keeps_intros simp: setWorkloadPlanMetrics_def Let_def)
qed

lemma ready_unless_held:
  assumes doc: "writes_documented c"
    and body: "\<And>existing. pred_option (flag_in S) existing \<Longrightarrow> maintains (ready_within c S) (okay (\<lambda>_. True)) (body existing)"
  shows "maintains (ready_within c S) (okay (\<lambda>_. True)) (unless_held c policy w body)"
  unfolding unless_held_def
proof (rule hold.and_then_rule [OF hold.query_rule [where Q = "okay (pred_option (flag_in S))"]], goal_cases)
  case (1 x)
  have "flag_in S win" if "getWindow c x policy w = Inr (Some win)" for win
    using getWindow_at [OF doc, of "\<lparr>cluster = x, log = []\<rparr>"] that ready_withinD [OF 1] by (simp add: flag_in_def)
  then show ?case by (cases "getWindow c x policy w"; cases "projr (getWindow c x policy w)") auto
next
  case (2 existing)
  then show ?case by (intro hold.bind [OF hold.query_rule [where Q = "\<lambda>_. True"]] hold.cond hold.ok_rule body) simp_all
qed

lemma ready_defer_window:
  assumes "flag_documented c" and "pred_option (flag_in S) existing"
  shows "maintains (ready_within c S) (okay (\<lambda>_. True)) (defer_window E c policy w existing)"
proof -
  have status: "maintains (ready_within c S) (okay (\<lambda>_. True)) (and_then (mutate (Update_WindowStatus c win)) k)"
    if "flag_in S win" "\<And>x. maintains (ready_within c S) (okay (\<lambda>_. True)) (k x)" for win and k :: "_ \<Rightarrow> (_, unit) fallible"
    by (rule hold.and_then_rule [OF ready_status [OF assms(1) that(1)] that(2)])
  have capacity: "maintains (ready_within c S) (\<lambda>(_, win'). flag_in S win') (applyCapacityApplied E win err now)" if "flag_in S win" for win err now
    using that by (intro hold.pure) (simp_all add: applyCapacityApplied_def Let_def flag_in_def ready_flag_def)
  have fresh: "maintains (ready_within c S) (okay (\<lambda>_. True)) (defer_fresh E c policy w)"
    unfolding defer_fresh_def Let_def
    by (auto intro!: hold.and_then_rule [OF ready_create_window [OF assms(1)]] hold.bind [OF hold.query_rule [where Q = "\<lambda>_. True"]]
        hold.bind [OF capacity] status hold.bind [OF hold_silent [OF keeps_emitf]] hold.ok_rule simp: flag_in_def ready_flag_def)
  have old: "maintains (ready_within c S) (okay (\<lambda>_. True)) (defer_existing E c w win)" for win
    unfolding defer_existing_def Let_def
    by (auto intro!: hold.and_then_rule [OF ready_patch [OF assms(1)]] hold.bind [OF hold.query_rule [where Q = "\<lambda>_. True"]]
        hold.bind [OF ready_open_status] status hold.ok_rule simp: window_key_def)
  show ?thesis unfolding defer_window_def by (cases existing) (auto intro!: hold.bind [OF hold.emit_rule] fresh old)
qed

lemma ready_workload_loop:
  assumes doc: "writes_documented c" "flag_documented c" and pat: "patching_policy policy"
  shows "maintains (ready_within c S) (okay (\<lambda>_. True)) (workload_loop E c policy windowCap ws ls)"
proof -
  have op: "maintains (ready_within c S) (okay (\<lambda>_. True)) (ensureWindow E c policy w)" for w
    unfolding ensureWindow_def by (intro ready_unless_held [OF doc(1)] ready_open_window [OF assms])
  have def: "maintains (ready_within c S) (okay (\<lambda>_. True)) (ensureDeferredWindow E c policy w)" for w
    unfolding ensureDeferredWindow_def by (intro ready_unless_held [OF doc(1)] ready_defer_window [OF doc(2)])
  have "maintains (ready_within c S) (okay (\<lambda>_. True)) (workload_step E c policy windowCap w ls)" for w ls
    unfolding workload_step_def Let_def
    by (auto intro!: hold.and_then_rule [where Q = "\<lambda>_. True"] hold.query_rule hold.bind [OF op] hold.bind [OF def]
        hold.bind [OF hold_silent [OF keeps_publishWorkloadMetrics]] hold.bind [OF hold_silent [OF keeps_scale_up_failed]] hold.ok_rule split: sum.split)
  then show ?thesis by (induction ws arbitrary: ls) (auto intro!: hold.ok_rule hold.and_then_rule)
qed

lemma ready_sync_loop:
  assumes "flag_documented c"
  shows "maintains (ready_within c S) (okay (\<lambda>_. True)) (sync_loop E c policy active items)"
proof (induction items)
  case (Cons win items)
  have patch: "maintains (ready_within c S) (okay (flag_in S)) (mutate (Patch_Window c win (win\<lparr>win_spec := (win_spec win)\<lparr>ws_vulnerableNodes := []\<rparr>\<rparr>)))"
    by (rule ready_patch [OF assms]) (simp add: window_key_def)
  show ?case
    unfolding sync_loop.simps Let_def
    by (intro hold.cond Cons.IH hold.bind [OF hold.emit_rule] hold.and_then_rule [OF patch] hold.and_then_rule [where Q = "\<lambda>_. True"] hold.query_rule) simp_all
qed (simp add: hold.ok_rule)

lemma ready_policy_writes:
  assumes "writes_documented c"
  shows "maintains (ready_within c S) (okay (\<lambda>_. True)) (mutate (Patch_Policy c base new))"
    and "maintains (ready_within c S) (okay (\<lambda>_. True)) (mutate (Update_PolicyStatus c new))"
  using assms by (auto intro!: tracks_okay ready_kept keeps_mutate simp: writes_documented_def)

lemma ready_updateStatus:
  assumes "writes_documented c"
  shows "maintains (ready_within c S) (okay (\<lambda>_. True)) (updateStatus E c policy m v n d e)"
  unfolding updateStatus_def Let_def
  by (intro hold.bind [OF hold.query_rule [where Q = "\<lambda>_. True"]] hold.and_then_rule [OF ready_policy_writes(2) [OF assms]] hold.ok_rule) simp_all

lemma ready_reconcile_workloads:
  assumes doc: "writes_documented c" "flag_documented c" and pat: "patching_policy policy"
  shows "maintains (ready_within c S) (okay (\<lambda>_. True)) (reconcile_workloads E c policy matched vulnerable)"
proof -
  note look = hold.and_then_rule [OF hold.query_rule [where Q = "okay (\<lambda>_. True)"]]
  have sync: "maintains (ready_within c S) (okay (\<lambda>_. True)) (syncClearedWindows E c policy active)" for active
    unfolding syncClearedWindows_def by (intro look ready_sync_loop [OF doc(2)]) simp
  show ?thesis
    unfolding reconcile_workloads_def Let_def
    by (intro look hold.and_then_rule [OF ready_workload_loop [OF assms]] hold.bind [OF hold_silent] keeps_if keeps_emitf keeps_return
        hold.bind [OF hold.emit_rule] hold.and_then_rule [OF sync] hold.and_then_rule [OF ready_updateStatus [OF doc(1)]] hold.ok_rule) simp_all
qed

lemma ready_reconcile_policy:
  assumes doc: "writes_documented c" "flag_documented c" and pat: "patching_policy policy"
  shows "maintains (ready_within c S) (okay (\<lambda>_. True)) (reconcile_policy E c policy)"
proof -
  note look = hold.and_then_rule [OF hold.query_rule [where Q = "okay (\<lambda>_. True)"]]
  have del: "maintains (ready_within c S) (okay (\<lambda>_. True)) (delete_loop c items)" for items
    by (induction items) (auto intro!: hold.ok_rule hold.fail_rule hold.bind [OF ready_delete [OF doc(2)]] split: sum.split option.split)
  have clean: "maintains (ready_within c S) (okay (\<lambda>_. True)) (cleanup E c policy)"
    unfolding cleanup_def
    by (intro look hold.cond hold.and_then_rule [OF del] hold.and_then_rule [OF ready_policy_writes(1) [OF doc(1)]] hold.ok_rule) simp_all
  show ?thesis
    unfolding reconcile_policy_def
    by (auto intro!: clean hold.and_then_rule [OF ready_policy_writes(1) [OF doc(1)]] hold.and_then_rule [OF ready_updateStatus [OF doc(1)]] look hold.bind [OF hold.emit_rule]
        ready_reconcile_workloads [OF assms] hold.ok_rule hold.fail_rule split: sum.split)
qed


section \<open>Histories\<close>

text \<open>A history: the clusters before each of its steps, in order, and the one after the last.\<close>

inductive history :: "env \<Rightarrow> 'w client \<Rightarrow> 'w \<Rightarrow> 'w list \<Rightarrow> 'w \<Rightarrow> bool" for E c w where
  start: "history E c w [] w"
| step: "history E c w ws w1 \<Longrightarrow> sys_step E c w1 w2 \<Longrightarrow> history E c w (ws @ [w1]) w2"

lemma step_ready:
  assumes doc: "writes_documented c" "flag_documented c" and inv: "sound c w" "pods_unpatched c w" "ready_within c S w" and step: "sys_step E c w w'"
  shows "ready_within c (S \<union> {k. has_spare E c w k}) w'"
  using step
proof cases
  case (policy_step name l r s')
  have "ready_within c S w'"
  proof (cases "Get_Policy c w name")
    case (Inl e)
    with policy_step(1,2) inv(3) show ?thesis by (auto simp: policy_reconcile_def split: option.splits)
  next
    case (Inr policy)
    with policy_step(2) have "run_state (reconcile_policy E c policy) \<lparr>cluster = w, log = l\<rparr> = (r, s')" by (simp add: policy_reconcile_def)
    from tracksD [OF ready_reconcile_policy [OF doc policy_step(3) [OF Inr]] this] inv(3) policy_step(1) show ?thesis by simp
  qed
  then show ?thesis by (auto simp: ready_within_def)
next
  case (window_step ns n l r s')
  with window_reconcile_ready [OF doc, of "\<lparr>cluster = w, log = l\<rparr>"] inv show ?thesis by simp
next
  case other_step
  from ready_same [OF this inv(3)] show ?thesis by (auto simp: ready_within_def)
qed

lemma history_ready:
  assumes doc: "writes_documented c" "flag_documented c" "controller_ref_documented E" and start: "sound c w" "ready_within c S w"
    and "history E c w ws w'" and "\<forall>x \<in> set ws. pods_unpatched c x"
  shows "sound c w' \<and> ready_within c (S \<union> {k. \<exists>x \<in> set ws. has_spare E c x k}) w'"
  using assms(6,7)
proof induction
  case (step ws w1 w2)
  then have i: "sound c w1" "pods_unpatched c w1" "ready_within c (S \<union> {k. \<exists>x \<in> set ws. has_spare E c x k}) w1" by simp_all
  from evolves_sound [OF i(1) sys_step_evolves [OF doc(1,3) i(1) step(2)]] have "sound c w2" .
  moreover have "S \<union> {k. \<exists>x \<in> set ws. has_spare E c x k} \<union> {k. has_spare E c w1 k} = S \<union> {k. \<exists>x \<in> set (ws @ [w1]). has_spare E c x k}" by auto
  ultimately show ?case using step_ready [OF doc(1,2) i step(2)] by simp
qed (use start in simp)


section \<open>The concrete client\<close>

lemma mem_pods: "List_PodsMatching mem_client m' = List_PodsMatching mem_client m" if "mc_pods m' = mc_pods m"
  using that by (simp add: mem_client_def)

lemma mem_patch_flag: "patch_flag mem_client"
  unfolding patch_flag_def
proof (intro allI impI)
  fix base new m r m'
  assume patch: "Patch_Window mem_client base new m = (r, m')" and key: "window_key new = window_key base"
  then obtain m1 where put: "put_window new (merge_window base new) m = (r, m1)" and m': "m' = finalize_window base new m1"
    by (cases "put_window new (merge_window base new) m") (auto simp: mem_client_def)
  have pods: "List_PodsMatching mem_client m' = List_PodsMatching mem_client m"
    using put m' by (intro mem_pods) (auto simp: put_window_def finalize_window_def split: option.splits if_splits)
  have flag: "ready_flag (merge_window base new old) = ready_flag old"
    "counting new = counting base \<Longrightarrow> counting (merge_window base new old) = counting old" for old
    by (simp_all add: ready_flag_def counting_def) (simp add: merge_window_def merge_window_spec_def differing_def)
  from put show "(\<forall>k got. window_at mem_client m' k = Some got \<longrightarrow> (\<exists>old. window_at mem_client m k = Some old \<and> ready_flag got = ready_flag old \<and>
           (counting new = counting base \<longrightarrow> counting got = counting old))) \<and>
        okay (\<lambda>x. window_key x = window_key base \<and> (\<exists>old. window_at mem_client m (window_key base) = Some old \<and> ready_flag x = ready_flag old \<and>
           (counting new = counting base \<longrightarrow> counting x = counting old))) r \<and>
        List_PodsMatching mem_client m' = List_PodsMatching mem_client m"
  proof (rule put_window_at, goal_cases)
    case (3 old)
    then have "window_key old = window_key base" using key by (auto simp: mem_window_at dest: find_key_SomeD)
    with 3 show ?case by (simp add: key m' mem_finalize_at flag pods [unfolded m'])
  qed (use pods in \<open>simp_all add: key m' mem_finalize_at\<close>)
qed

lemma mem_status_flag: "status_flag mem_client"
  unfolding status_flag_def
proof (intro allI impI)
  fix win m r m'
  assume upd: "Update_WindowStatus mem_client win m = (r, m')"
  have pods: "List_PodsMatching mem_client m' = List_PodsMatching mem_client m"
    using upd by (intro mem_pods) (auto simp: mem_client_def put_window_def split: option.splits if_splits)
  show "(\<forall>k got. window_at mem_client m' k = Some got \<longrightarrow> (\<exists>old. window_at mem_client m k = Some old \<and> counting got = counting old \<and>
           (ready_flag got = ready_flag old \<or> k = window_key win \<and> ready_flag got = ready_flag win))) \<and>
        okay (\<lambda>x. window_key x = window_key win \<and> ready_flag x = ready_flag win \<and>
           (\<exists>old. window_at mem_client m (window_key win) = Some old \<and> counting x = counting old)) r \<and>
        List_PodsMatching mem_client m' = List_PodsMatching mem_client m"
  proof (cases "known_phase (wst_phase (win_status win))")
    case True
    with upd have "put_window win (\<lambda>old. old\<lparr>win_status := win_status win\<rparr>) m = (r, m')" by (simp add: mem_client_def)
    then show ?thesis
    proof (rule put_window_at, goal_cases)
      case (3 old)
      then have "window_key old = window_key win" by (auto simp: mem_window_at dest: find_key_SomeD)
      with 3 pods show ?case by (simp add: counting_def ready_flag_def)
    qed (simp_all add: pods)
  next
    case False
    with upd show ?thesis by (auto simp: mem_client_def)
  qed
qed

lemma mem_create_flag: "create_flag mem_client"
  unfolding create_flag_def
proof (intro allI impI)
  fix win m r m'
  assume create: "Create_Window mem_client win m = (r, m')"
  let ?new = "win\<lparr>win_creationTimestamp := mc_now m, win_generation := 1, win_status := empty_status\<rparr>"
  have flag: "\<not> ready_flag ?new" by (simp add: ready_flag_def empty_status_def)
  from create consider e where "r = Inl e" "m' = m" | "r = Inr ?new" "mc_windows m' = mc_windows m @ [?new]"
    by (auto simp: mem_client_def Let_def split: if_splits)
  then show "(\<forall>k got. window_at mem_client m' k = Some got \<longrightarrow> window_at mem_client m k = Some got \<or> \<not> ready_flag got) \<and> okay (\<lambda>x. \<not> ready_flag x) r"
    by cases (use flag in \<open>auto simp: mem_window_at find_key_snoc split: option.splits if_splits\<close>)
qed

lemma mem_delete_flag: "delete_flag mem_client"
  unfolding delete_flag_def
proof (intro allI impI)
  fix win m r m'
  assume del: "Delete_Window mem_client win m = (r, m')"
  let ?g = "\<lambda>x. x\<lparr>win_deletionTimestamp := Some (max 1 (mc_now m))\<rparr>"
  have g: "window_key (?g x) = window_key x" for x by simp
  have pods: "List_PodsMatching mem_client m' = List_PodsMatching mem_client m"
    using del by (intro mem_pods) (auto simp: mem_client_def split: option.splits)
  from del consider "m' = m" | "mc_windows m' = filter (\<lambda>x. window_key x \<noteq> window_key win) (mc_windows m)"
    | "mc_windows m' = map (\<lambda>x. if window_key x = window_key win then ?g x else x) (mc_windows m)"
    by (auto simp: mem_client_def window_is_key split: option.splits if_splits)
  then show "(\<forall>k got. window_at mem_client m' k = Some got \<longrightarrow>
        (\<exists>old. window_at mem_client m k = Some old \<and> ready_flag got = ready_flag old \<and> counting got = counting old)) \<and>
      List_PodsMatching mem_client m' = List_PodsMatching mem_client m"
    by cases (use pods in \<open>auto simp: mem_window_at find_key_filter find_key_map [OF g] ready_flag_def counting_def split: if_splits\<close>)
qed

lemma mem_flag_documented: "flag_documented mem_client"
  unfolding flag_documented_def using mem_patch_flag mem_status_flag mem_create_flag mem_delete_flag
  by (auto simp: ignores_patches_def mem_client_def split: option.split)

end
