(* ===== verification/Spare_Wait.thy ===== *)
theory Spare_Wait
  imports Spare_Seen External_Catalog
begin

text \<open>
  That a covered pod is let go only after the spare was there, over any history of the
  system, and the case in which what was there is out of date.
\<close>


section \<open>Example cluster\<close>

text \<open>
  Deployment \<open>shop/web\<close> with one pod on the cordoned node \<open>ip-7\<close> and two ready spare pods on
  \<open>ip-9\<close>, which is cordoned or not; its capacity is scaled by an external catalog entry.
\<close>

definition spare_policy :: EvictionGuardPolicy where
  "spare_policy = external_policy\<lparr>pol_spec := (pol_spec external_policy)\<lparr>spec_disruptionSignals := [SignalNodeCordoned]\<rparr>\<rparr>"

definition spare_pod :: "string \<Rightarrow> Pod" where
  "spare_pod n = (web_pod n)\<lparr>pod_nodeName := ''ip-9'', pod_conditions := [\<lparr>pc_type = PodReady, pc_status = ConditionTrue\<rparr>]\<rparr>"

definition spare_cluster :: "bool \<Rightarrow> EvictionGuardWindow \<Rightarrow> memory" where
  "spare_cluster cordoned win = (web_cluster False [])\<lparr>mc_pods := [web_pod ''web-1'', spare_pod ''web-3'', spare_pod ''web-4''],
     mc_nodes := [spot_node, spot_node\<lparr>node_name := ''ip-9'', node_unschedulable := cordoned\<rparr>],
     mc_deployments := [hpa_deployment], mc_policies := [spare_policy], mc_windows := [win]\<rparr>"

abbreviation web_key :: "string \<times> string" where
  "web_key \<equiv> (''shop'', WindowName ''p'' ''shop'' ''web'')"

lemma spare_names [simp]:
  "pol_name spare_policy = ''p''" "dep_name hpa_deployment = ''web''" "dep_namespace hpa_deployment = ''shop''"
  "window_key (web_window r ns) = web_key"
  by (simp_all add: spare_policy_def external_policy_def catalog_policy_def plain_policy_def hpa_deployment_def plain_deployment_def window_key_def web_window_def)

lemma spare_windows [simp]:
  "mc_windows (spare_cluster b v) = [v]" "(spare_cluster b v)\<lparr>mc_windows := [v']\<rparr> = spare_cluster b v'"
  by (simp_all add: spare_cluster_def)

lemma spare_at: "window_at mem_client (spare_cluster b v) k = (if window_key v = k then Some v else None)"
  by (simp add: mem_window_at)

lemma spare_reads:
  "Get_Policy mem_client (spare_cluster b v) ''p'' = Inr spare_policy" "Get_Deployment mem_client (spare_cluster b v) ''shop'' ''web'' = Inr hpa_deployment"
  "Now mem_client (spare_cluster b v) = 2 * hour" "List_Policies mem_client (spare_cluster b v) = Inr [spare_policy]"
  "NamespaceLabels mem_client (spare_cluster b v) ''shop'' = Inr []" "Get_Node mem_client (spare_cluster b v) ''ip-7'' = Inr spot_node"
  "Get_Node mem_client (spare_cluster b v) ''ip-9'' = Inr (spot_node\<lparr>node_name := ''ip-9'', node_unschedulable := b\<rparr>)"
  by (simp_all add: spare_cluster_def mem_client_def web_cluster_def NamespaceLabels_def) (simp_all add: spot_node_def)

lemma spare_window_read: "window_key v = web_key \<Longrightarrow> Get_Window mem_client (spare_cluster b v) ''shop'' (WindowName ''p'' ''shop'' ''web'') = Inr v"
  by (simp add: mem_client_def window_key_def)

lemma spare_listed:
  "LabelSelectorAsSelector std_env (dep_selector hpa_deployment) = Inr (\<lambda>m. mhas m ''app'' \<and> mget m ''app'' = ''web'')"
  "List_PodsMatching mem_client (spare_cluster b v) ''shop'' (\<lambda>m. mhas m ''app'' \<and> mget m ''app'' = ''web'') =
     Inr [web_pod ''web-1'', spare_pod ''web-3'', spare_pod ''web-4'']"
  using web_items(1) by (simp_all add: hpa_deployment_def mem_client_def spare_cluster_def) (simp_all add: web_pod_def spare_pod_def)

lemma spare_items:
  "listWorkloadPods std_env mem_client (spare_cluster b v) (Some hpa_deployment) = Inr [web_pod ''web-1'', spare_pod ''web-3'', spare_pod ''web-4'']"
  by (simp add: listWorkloadPods_def spare_listed)

lemma spare_gate: "gate_applies std_env mem_client (spare_cluster b v) (web_pod ''web-1'') hpa_deployment spare_policy"
proof -
  have spec: "spec_nodeFilter (pol_spec spare_policy) = empty_node_filter"
    by (simp add: spare_policy_def external_policy_def catalog_policy_def plain_policy_def)
  have "OwnerDeployment mem_client (spare_cluster b v) (Some (web_pod ''web-1'')) = Inr (Some hpa_deployment)"
    by (simp add: OwnerDeployment_def web_pod_def spare_cluster_def web_cluster_def mem_client_def controls_def plain_deployment_def hpa_deployment_def)
  moreover have "ResolveOwner std_env (Some hpa_deployment) [] [Some spare_policy] = Some spare_policy"
    by (simp add: ResolveOwner_def Pin_def hpa_deployment_def plain_deployment_def FirstByName_def time_is_zero_def SelectorMatch_def
        NamespaceSelectorMatch_def WorkloadSelectorMatch_def spare_policy_def external_policy_def catalog_policy_def plain_policy_def go_simps)
  moreover have "Vulnerable (registry std_env) spot_node (Some spare_policy)"
    by (simp add: Vulnerable_def IsVulnerable_def spare_policy_def external_policy_def catalog_policy_def plain_policy_def go_simps spot_node_def)
  moreover obtain f where "FromSpec std_env empty_node_filter = Inr f"
    by (auto simp: FromSpec_def empty_node_filter_def)
  moreover have "filter_accepts std_env empty_node_filter spot_node"
    by (simp add: filter_accepts_def empty_node_filter_def)
  moreover have "optedIn (web_pod ''web-1'')" "pod_nodeName (web_pod ''web-1'') = ''ip-7''" "templateOptedIn hpa_deployment" "pod_namespace (web_pod ''web-1'') = ''shop''"
    by (simp_all add: optedIn_def templateOptedIn_def web_pod_def plain_deployment_def hpa_deployment_def ProtectedLabel_def)
  ultimately show ?thesis unfolding gate_applies_def spec using spare_reads by fastforce
qed

lemma spare_allows:
  assumes "window_key v = web_key" and "IsActive v" and "wst_spareReady (win_status v)" and "''ip-7'' \<in> set (ws_vulnerableNodes (win_spec v))"
  shows "allows std_env mem_client (spare_cluster b v) (web_pod ''web-1'')"
proof -
  let ?pods = "[web_pod ''web-1'', spare_pod ''web-3'', spare_pod ''web-4'']"
  have pods: "pod_deletionTimestamp (web_pod n) = None" "pod_deletionTimestamp (spare_pod n) = None" "pod_name (spare_pod n) = n"
    "mget (pod_labels (web_pod n)) ProtectedLabel = ''true''" "mget (pod_labels (spare_pod n)) ProtectedLabel = ''true''" for n
    by (simp_all add: spare_pod_def) (simp_all add: web_pod_def ProtectedLabel_def)
  have "nextAtRiskPod_loop (ws_vulnerableNodes (win_spec v)) ?pods [] = ''web-1''" using assms(4) by (simp add: pods)
  then have "nextAtRiskPod std_env mem_client (spare_cluster b v) hpa_deployment (ws_vulnerableNodes (win_spec v)) = Inr ''web-1''"
    by (simp add: nextAtRiskPod_def spare_listed del: nextAtRiskPod_loop.simps)
  moreover have "recorded_nodes (web_pod ''web-1'') v = ws_vulnerableNodes (win_spec v)" using assms(4) by (auto simp: recorded_nodes_def)
  ultimately show ?thesis
    unfolding allows_gated [OF spare_gate] activeWindowFor_iff
    by (intro exI [of _ v]) (simp add: spare_window_read [OF assms(1)] assms(2,3))
qed

lemma spare_count:
  "spareCounts std_env mem_client (spare_cluster b v) (web_window r [''ip-7'']) (Some hpa_deployment) = Inr (2, 2)"
proof -
  have "podReady (spare_pod n)" "\<not> podReady (web_pod n)" "pod_nodeName (spare_pod n) = ''ip-9''" for n
    by (simp_all add: podReady_def spare_pod_def) (simp_all add: web_pod_def)
  then show ?thesis
    by (simp add: spareCounts_def spare_listed int32_small)
qed

text \<open>A reconcile of the window that is not ready yet finds the two spare pods and sets the flag.\<close>

lemma spare_live:
  "\<exists>n names. liveAtRiskPods std_env mem_client (spare_cluster False v) (Some win) (Some spare_policy) (Some hpa_deployment) = Inr (n, names) \<and> 0 < n"
proof -
  let ?m = "spare_cluster False v" and ?pods = "[web_pod ''web-1'', spare_pod ''web-3'', spare_pod ''web-4'']"
  have spec: "spec_nodeFilter (pol_spec spare_policy) = empty_node_filter"
    by (simp add: spare_policy_def external_policy_def catalog_policy_def plain_policy_def)
  obtain f where f: "FromSpec std_env (spec_nodeFilter (pol_spec spare_policy)) = Inr f"
    by (auto simp: spec FromSpec_def empty_node_filter_def)
  have node: "lookup_node mem_client ?m ''ip-7'' = Inr (Some spot_node)" "\<not> isl (lookup_node mem_client ?m ''ip-9'')"
    by (simp_all add: lookup_node_def spare_reads)
  have names: "pod_nodeName (spare_pod n) = ''ip-9''" for n by (simp add: spare_pod_def)
  have looked: "\<forall>pod \<in> set ?pods. pod_deletionTimestamp pod = None \<longrightarrow> pod_nodeName pod \<noteq> [] \<longrightarrow> \<not> isl (lookup_node mem_client ?m (pod_nodeName pod))"
    using node by (simp add: names)
  obtain dying where loop: "liveAtRisk_loop std_env mem_client ?m f spare_policy ?pods [] [] 0 =
      Inr (0 + int (length (filter (live_at_risk std_env mem_client ?m spare_policy) ?pods)), dying)"
    using liveAtRisk_loop_spec [OF f looked node_memo.coherent_Nil, of "[]" 0] by auto
  have "filter_accepts std_env empty_node_filter spot_node" by (simp add: filter_accepts_def empty_node_filter_def)
  moreover have "Vulnerable (registry std_env) spot_node (Some spare_policy)"
    by (simp add: Vulnerable_def IsVulnerable_def spare_policy_def external_policy_def catalog_policy_def plain_policy_def go_simps spot_node_def)
  ultimately have "live_at_risk std_env mem_client ?m spare_policy (web_pod ''web-1'')"
    by (simp add: live_at_risk_def node_at_risk_def node(1) spec) (simp add: web_pod_def)
  then show ?thesis by (simp add: liveAtRiskPods_def f spare_items loop del: liveAtRisk_loop.simps)
qed

lemma spare_written:
  "\<exists>v l'. run_state (writeStatus std_env mem_client (web_window False [''ip-7'']) (Some hpa_deployment) WindowPhaseOpen msg)
     \<lparr>cluster = spare_cluster False (web_window False [''ip-7'']), log = l\<rparr> = (Inr v, \<lparr>cluster = spare_cluster False v, log = l'\<rparr>) \<and>
     window_key v = web_key \<and> IsActive v \<and> wst_spareReady (win_status v) \<and> ws_vulnerableNodes (win_spec v) = [''ip-7''] \<and> \<not> wst_forcedCool (win_status v)"
proof -
  let ?win = "web_window False [''ip-7'']" and ?m = "spare_cluster False (web_window False [''ip-7''])"
  have base: "ws_baseline (win_spec ?win) = 2" "wst_readyReplicas (win_status ?win) = 0" by (simp_all add: web_window_def empty_status_def)
  have upd: "Update_WindowStatus mem_client (?win\<lparr>win_status := st\<rparr>) ?m = (Inr (?win\<lparr>win_status := st\<rparr>), spare_cluster False (?win\<lparr>win_status := st\<rparr>))"
    if "known_phase (wst_phase st)" for st
    using that by (simp add: mem_client_def put_window_def window_is_def)
  show ?thesis
    by (simp add: writeStatus_def run_and_then spare_count applySpareStatus_def Let_def base upd run_emitf IsActive_def)
qed

lemma spare_step:
  "\<exists>v. sys_step std_env mem_client (spare_cluster False (web_window False [''ip-7''])) (spare_cluster False v) \<and>
     window_key v = web_key \<and> IsActive v \<and> wst_spareReady (win_status v) \<and> ws_vulnerableNodes (win_spec v) = [''ip-7''] \<and> \<not> wst_forcedCool (win_status v)"
proof -
  let ?win = "web_window False [''ip-7'']"
  let ?m = "spare_cluster False ?win"
  obtain n names where live: "liveAtRiskPods std_env mem_client ?m (Some ?win) (Some spare_policy) (Some hpa_deployment) = Inr (n, names)" "0 < n"
    using spare_live by blast
  have short: "\<not> maxWindowExceeded (Some spare_policy) (Some ?win) (2 * hour)"
    by (simp add: maxWindowExceeded_iff MaxWindowOrDefault_def spare_policy_def external_policy_def catalog_policy_def plain_policy_def
        windowOpenedAt_def web_window_def empty_status_def time_is_zero_def DefaultMaxWindow_def hour_def minute_def second_def)
  have get: "Get_Window mem_client ?m ''shop'' (WindowName ''p'' ''shop'' ''web'') = Inr ?win" by (rule spare_window_read) simp
  have run: "run_state (window_reconcile std_env mem_client ''shop'' (WindowName ''p'' ''shop'' ''web'')) \<lparr>cluster = ?m, log = []\<rparr> =
      run_state (and_then (writeStatus std_env mem_client ?win (Some hpa_deployment) WindowPhaseOpen msgNodesVulnerable)
        (\<lambda>win''. ok (openRequeue spare_policy win'' (2 * hour)))) \<lparr>cluster = ?m, log = []\<rparr>"
    using live short get web_window_facts [of False "[''ip-7'']"]
    by (simp add: window_reconcile_def reconcile_window_def reconcile_target_def reconcile_decide_def run_and_then force_cool_def
        perform_def decideWindowStep_def abortCooldown_def spare_reads)
  obtain v l where written: "run_state (writeStatus std_env mem_client ?win (Some hpa_deployment) WindowPhaseOpen msgNodesVulnerable)
      \<lparr>cluster = ?m, log = []\<rparr> = (Inr v, \<lparr>cluster = spare_cluster False v, log = l\<rparr>)"
    and v: "window_key v = web_key \<and> IsActive v \<and> wst_spareReady (win_status v) \<and> ws_vulnerableNodes (win_spec v) = [''ip-7''] \<and> \<not> wst_forcedCool (win_status v)"
    using spare_written by blast
  from run written have "run_state (window_reconcile std_env mem_client ''shop'' (WindowName ''p'' ''shop'' ''web'')) \<lparr>cluster = ?m, log = []\<rparr> =
      (Inr (openRequeue spare_policy v (2 * hour)), \<lparr>cluster = spare_cluster False v, log = l\<rparr>)" by (simp add: run_and_then)
  from sys_step.window_step [OF this] v show ?thesis by (intro exI [of _ v]) simp
qed

text \<open>
  When \<open>ip-9\<close> is cordoned too, the policy controller adds it to the window, which may be ready
  or not, and deferred or not.
\<close>

definition stale_workload :: workloadState where
  "stale_workload = \<lparr>wl_deploy = hpa_deployment, wl_atRisk = 3, wl_nodes = [''ip-7'', ''ip-9'']\<rparr>"

definition stale_window :: "EvictionGuardWindowStatus \<Rightarrow> int \<Rightarrow> EvictionGuardWindow" where
  "stale_window st n = (web_window True [''ip-7''])\<lparr>win_spec := (win_spec (web_window True [''ip-7'']))
     \<lparr>ws_vulnerableNodes := [''ip-7'', ''ip-9''], ws_scaledTo := n\<rparr>, win_status := st\<rparr>"

lemma stale_key [simp]: "window_key (stale_window st n) = web_key" "win_status (stale_window st n) = st"
  "(stale_window st n)\<lparr>win_status := st'\<rparr> = stale_window st' n"
  by (simp_all add: stale_window_def window_key_def web_window_def)

lemma stale_update:
  "known_phase (wst_phase st') \<Longrightarrow>
     Update_WindowStatus mem_client (stale_window st' n) (spare_cluster b (stale_window st n)) = (Inr (stale_window st' n), spare_cluster b (stale_window st' n))"
  by (simp add: mem_client_def put_window_def window_is_def) (simp add: stale_window_def)

definition start_window :: "bool \<Rightarrow> strmap \<Rightarrow> EvictionGuardWindow" where
  "start_window ready labels = (web_window ready [''ip-7''])\<lparr>win_labels := labels\<rparr>"

lemma start_window_plain: "start_window r [] = web_window r [''ip-7'']"
  by (simp add: start_window_def web_window_def)

lemma start_facts:
  "window_key (start_window r labels) = web_key" "win_namespace (start_window r labels) = ''shop''" "win_deletionTimestamp (start_window r labels) = None"
  "wst_phase (win_status (start_window r labels)) = WindowPhaseOpen" "wst_spareReady (win_status (start_window r labels)) = r"
  "ws_baseline (win_spec (start_window r labels)) = 2" "ScaleActions (Some (start_window r labels)) = []"
  by (simp_all add: start_window_def web_window_def window_key_def ScaleActions_def empty_status_def)

lemma stale_get: "getWindow mem_client (spare_cluster b (start_window r labels)) spare_policy stale_workload = Inr (Some (start_window r labels))"
  using spare_window_read [OF start_facts(1)] by (simp add: getWindow_def workload_window_name_def stale_workload_def)

lemma stale_free: "\<not> holdMaxWindow (Some spare_policy) (Some (start_window r labels)) (2 * hour)"
  by (simp add: start_window_def holdMaxWindow_def maxWindowExceeded_iff MaxWindowOrDefault_def spare_policy_def external_policy_def catalog_policy_def plain_policy_def
      windowOpenedAt_def web_window_def empty_status_def time_is_zero_def DefaultMaxWindow_def hour_def minute_def second_def)

lemma stale_plan:
  "\<exists>n. \<forall>x. buildPlan std_env mem_client x (Some spare_policy) (Some hpa_deployment) 3 [] 2 = Inr \<lparr>plan_steps = [], plan_primaryBaseline = 2, plan_desired = n\<rparr>"
proof -
  have "BindingsForWorkload (Some hpa_deployment) (Some spare_policy) = Inr [\<lparr>bind_key = ''hpa'', bind_namespace = ''shop'', bind_name = ''web''\<rparr>]"
    "ResolveCatalog (Some hpa_deployment) (Some spare_policy) [\<lparr>bind_key = ''hpa'', bind_namespace = ''shop'', bind_name = ''web''\<rparr>] = Inr []"
    using hpa_bindings by (simp_all add: BindingsForWorkload_def ResolveCatalog_def spare_policy_def external_policy_def mlen_def mkeys_def splitPatches_def)
  moreover have "mlen (spec_backends (pol_spec spare_policy)) \<noteq> 0" by (simp add: spare_policy_def external_policy_def mlen_def mkeys_def)
  ultimately show ?thesis by (simp add: buildPlan_def Let_def)
qed

lemma stale_wl: "wl_deploy stale_workload = hpa_deployment" "wl_atRisk stale_workload = 3" "sortedKeys (wl_nodes stale_workload) = [''ip-7'', ''ip-9'']"
  by (simp_all add: stale_workload_def sortedKeys_def)

lemma stale_ensure:
  assumes "AList.delete DeferredLabel labels = []"
  shows "\<exists>st n l'. run_state (ensureWindow std_env mem_client spare_policy stale_workload) \<lparr>cluster = spare_cluster True (start_window r labels), log = l\<rparr> =
     (Inr (), \<lparr>cluster = spare_cluster True (stale_window st n), log = l'\<rparr>) \<and> wst_spareReady st = r \<and> wst_phase st = WindowPhaseOpen"
proof -
  let ?win = "start_window r labels"
  let ?m = "spare_cluster True ?win"
  obtain n where plan: "\<And>x. buildPlan std_env mem_client x (Some spare_policy) (Some hpa_deployment) 3 [] 2 =
      Inr \<lparr>plan_steps = [], plan_primaryBaseline = 2, plan_desired = n\<rparr>"
    using stale_plan by blast
  have rec: "run_state (record_window std_env mem_client spare_policy stale_workload (Some ?win) \<lparr>plan_steps = [], plan_primaryBaseline = 2, plan_desired = n\<rparr>)
      \<lparr>cluster = ?m, log = l'\<rparr> = (Inr (stale_window (win_status ?win) n), \<lparr>cluster = spare_cluster True (stale_window (win_status ?win) n), log = l'\<rparr>)" for l'
    by (simp add: record_window_def Let_def stale_workload_def plan_actions_def start_facts mem_client_def put_window_def window_is_def finalize_window_def)
      (simp add: assms start_window_def stale_window_def web_window_def sortedKeys_def)
  have fin: "\<exists>st. (\<exists>l''. run_state (finish_open std_env mem_client (stale_window (win_status ?win) n) msg None now)
      \<lparr>cluster = spare_cluster True (stale_window (win_status ?win) n), log = l'\<rparr> = (Inr (), \<lparr>cluster = spare_cluster True (stale_window st n), log = l''\<rparr>)) \<and>
      wst_spareReady st = r \<and> wst_phase st = WindowPhaseOpen" for msg now l'
  proof -
    obtain dirty st l1 where "run_state (open_status std_env (stale_window (win_status ?win) n) msg now None)
        \<lparr>cluster = spare_cluster True (stale_window (win_status ?win) n), log = l'\<rparr> =
        ((dirty, stale_window st n), \<lparr>cluster = spare_cluster True (stale_window (win_status ?win) n), log = l1\<rparr>)"
      and "wst_spareReady st = r" "wst_phase st = WindowPhaseOpen"
      by (simp add: open_status_def applyCapacityApplied_def Let_def start_facts)
    then show ?thesis
      by (intro exI [of _ "if dirty then st else win_status ?win"] conjI exI [of _ l1]) (simp_all add: finish_open_def stale_update start_facts)
  qed
  have "\<exists>st l'. run_state (ensureWindow std_env mem_client spare_policy stale_workload) \<lparr>cluster = ?m, log = l\<rparr> =
      (Inr (), \<lparr>cluster = spare_cluster True (stale_window st n), log = l'\<rparr>) \<and> wst_spareReady st = r \<and> wst_phase st = WindowPhaseOpen"
    using stale_free [of r labels] by (simp add: fin ensureWindow_def unless_held_def run_and_then stale_get open_window_def Let_def setWorkloadPlanMetrics_def stale_wl plan rec start_facts spare_reads)
  then show ?thesis by fast
qed


section \<open>Properties\<close>

text \<open>
  C4. A pod waits for the spare. Take any history of reconciles of policies and windows, each
  of which may fail at any of its calls, and of changes by others that leave the windows
  alone, that starts when the window of a workload is not there or not ready. When the gate
  allows the eviction of a covered pod of the workload at its end, the window is forced
  cool, or before one of the steps as many ready pods of the workload as its baseline asks
  for were running off the nodes that the window recorded then. The policies must not have
  external catalog entries, and no recorded action may patch pods.
\<close>

theorem evictions_wait_for_spare:
  assumes "writes_documented c" and "flag_documented c" and "controller_ref_documented E" and "sound c w"
    and "history E c w ws w'" and "\<forall>x \<in> set ws. pods_unpatched c x"
    and "gate_applies E c w' pod dep owner" and "allows E c w' pod"
    and "\<And>win. window_at c w (dep_namespace dep, WindowName (pol_name owner) (dep_namespace dep) (dep_name dep)) = Some win \<Longrightarrow> \<not> wst_spareReady (win_status win)"
  shows "(\<exists>win. window_at c w' (dep_namespace dep, WindowName (pol_name owner) (dep_namespace dep) (dep_name dep)) = Some win \<and> wst_forcedCool (win_status win)) \<or>
     (\<exists>x \<in> set ws. has_spare E c x (dep_namespace dep, WindowName (pol_name owner) (dep_namespace dep) (dep_name dep)))"
proof -
  let ?k = "(dep_namespace dep, WindowName (pol_name owner) (dep_namespace dep) (dep_name dep))"
  from assms(8) obtain win where win: "window_at c w' ?k = Some win" "wst_forcedCool (win_status win) \<or> ready_flag win"
    unfolding allows_gated [OF assms(7)] activeWindowFor_iff by (auto simp: window_at_def ready_flag_def)
  have "ready_within c (- {?k}) w" using assms(9) by (auto simp: ready_within_def ready_flag_def)
  from history_ready [OF assms(1-4) this assms(5,6)]
  have "ready_within c (- {?k} \<union> {k. \<exists>x \<in> set ws. has_spare E c x k}) w'" ..
  with win show ?thesis by (auto dest: ready_withinD)
qed

theorem evictions_wait_for_spare_witness:
  "\<exists>v. allows std_env mem_client (spare_cluster False v) (web_pod ''web-1'') \<and>
     has_spare std_env mem_client (spare_cluster False (web_window False [''ip-7''])) web_key"
proof -
  let ?win = "web_window False [''ip-7'']"
  obtain v where step: "sys_step std_env mem_client (spare_cluster False ?win) (spare_cluster False v)"
    and v: "window_key v = web_key" "IsActive v" "wst_spareReady (win_status v)" "ws_vulnerableNodes (win_spec v) = [''ip-7'']"
      "\<not> wst_forcedCool (win_status v)"
    using spare_step by blast
  have hist: "history std_env mem_client (spare_cluster False ?win) ([] @ [spare_cluster False ?win]) (spare_cluster False v)"
    by (rule history.step [OF history.start step])
  have allowed: "allows std_env mem_client (spare_cluster False v) (web_pod ''web-1'')"
    by (rule spare_allows [OF v(1-3)]) (simp add: v(4))
  have sound: "sound mem_client (spare_cluster False ?win)" and pods: "\<forall>x \<in> set ([] @ [spare_cluster False ?win]). pods_unpatched mem_client x"
    by (auto simp: sound_def pods_unpatched_def spare_at sound_window_def pod_free_def web_window_facts isDeferredWindow_def)
  note seen = evictions_wait_for_spare [OF mem_writes_documented mem_flag_documented std_env_controller_ref sound hist pods spare_gate allowed]
  have "\<exists>x \<in> set ([] @ [spare_cluster False ?win]). has_spare std_env mem_client x web_key"
    using seen v(1,5) by (simp add: spare_at)
  with allowed show ?thesis by auto
qed

text \<open>
  C22. A window stays ready when it takes on new nodes. A ready window records \<open>ip-7\<close>, and the
  two spare pods that it counted run on \<open>ip-9\<close>. When \<open>ip-9\<close> is cordoned as well,
  \<open>ensureWindow\<close> records both nodes and leaves \<open>SpareReady\<close> set. Until the window controller
  counts again, the gate lets the pod on \<open>ip-7\<close> go although not one ready pod is running
  off the recorded nodes.
\<close>

theorem stale_spare_lets_go:
  "\<exists>v l. run_state (ensureWindow std_env mem_client spare_policy stale_workload)
       \<lparr>cluster = spare_cluster True (web_window True [''ip-7'']), log = []\<rparr> = (Inr (), \<lparr>cluster = spare_cluster True v, log = l\<rparr>) \<and>
     has_spare std_env mem_client (spare_cluster True (web_window True [''ip-7''])) web_key \<and>
     \<not> has_spare std_env mem_client (spare_cluster True v) web_key \<and>
     allows std_env mem_client (spare_cluster True v) (web_pod ''web-1'')"
proof -
  obtain st n l where run: "run_state (ensureWindow std_env mem_client spare_policy stale_workload)
      \<lparr>cluster = spare_cluster True (web_window True [''ip-7'']), log = []\<rparr> = (Inr (), \<lparr>cluster = spare_cluster True (stale_window st n), log = l\<rparr>)"
    and st: "wst_spareReady st" "wst_phase st = WindowPhaseOpen"
    using stale_ensure [of "[]" True "[]"] unfolding start_window_plain by auto
  let ?v = "stale_window st n" and ?win = "web_window True [''ip-7'']"
  have spec: "ws_vulnerableNodes (win_spec ?v) = [''ip-7'', ''ip-9'']" "ws_baseline (win_spec ?v) = 2" "ws_target (win_spec ?v) = ws_target (win_spec ?win)"
      "ws_baseline (win_spec ?win) = 2"
    by (simp_all add: stale_window_def web_window_def)
  have target: "target_deployment mem_client (spare_cluster True v) ?v = Some hpa_deployment" "target_deployment mem_client (spare_cluster True v) ?win = Some hpa_deployment" for v
    by (simp_all add: target_deployment_def Let_def spec web_window_facts spare_reads)
  have pods: "podReady (spare_pod m)" "\<not> podReady (web_pod m)" "pod_nodeName (spare_pod m) = ''ip-9''" for m
    by (simp_all add: podReady_def spare_pod_def) (simp_all add: web_pod_def)
  have "has_spare std_env mem_client (spare_cluster True ?win) web_key" "\<not> has_spare std_env mem_client (spare_cluster True ?v) web_key"
    by (simp_all add: has_spare_def spare_at spec target spare_items pods)
  moreover have "allows std_env mem_client (spare_cluster True ?v) (web_pod ''web-1'')"
    using st by (intro spare_allows) (simp_all add: IsActive_def spec)
  ultimately show ?thesis using run by blast
qed

end
