(* ===== verification/Deferred_Windows.thy ===== *)
theory Deferred_Windows
  imports Spare_Wait
begin

text \<open>
  The way out of the queue: a deferred window, which holds evictions back without raising
  capacity, becomes an ordinary one in the first reconcile that reaches it with a free slot.
\<close>


section \<open>Lemmas\<close>

text \<open>A window that is not held and whose patches succeed is stored open, with the actions of the plan and without the label.\<close>

lemma ensureWindow_existing:
  assumes doc: "window_api_documented c" and ref: "controller_ref_documented E" and named: "named_windows c (cluster s)"
    and get: "getWindow c (cluster s) policy w = Inr (Some old)" and free: "\<not> holdMaxWindow (Some policy) (Some old) (Now c (cluster s))"
    and plan: "buildPlan E c (cluster s) (Some policy) (Some (wl_deploy w)) (wl_atRisk w) (ScaleActions (Some old)) (ws_baseline (win_spec old)) = Inr plan"
    and kinds: "\<forall>x \<in> set (plan_steps plan). tgt_kind (stp_target x) \<noteq> window_kind"
    and run: "run_state (ensureWindow E c policy w) s = (Inr (), s')"
  obtains win where "holds c (cluster s') win" and "win_namespace win = dep_namespace (wl_deploy w)"
    and "win_name win = workload_window_name policy (wl_deploy w)" and "\<not> isDeferredWindow (Some win)"
    and "wst_phase (win_status win) = WindowPhaseOpen" and "ws_actions (win_spec win) = plan_actions plan (ScaleActions (Some old))"
    and "ws_vulnerableNodes (win_spec win) = sortedKeys (wl_nodes w)"
proof -
  have "run_state (open_window E c policy w (Some old)) s = (Inr (), s')"
    using run get free by (simp add: ensureWindow_def unless_held_def run_and_then)
  then show thesis
  proof (cases rule: open_window_cases)
    case (opened plan' s0 win0 s1 scaled err s2 s3)
    have [simp]: "plan' = plan" using opened(2) plan by (simp add: existing_baseline_def)
    have "\<And>x. Some old = Some x \<Longrightarrow> holds c (cluster s0) x \<and> win_namespace x = dep_namespace (wl_deploy w) \<and>
        win_name x = workload_window_name policy (wl_deploy w)"
      using getWindow_held [OF named get] opened(1) by simp
    note rec = record_window_stored [OF doc ref this opened(3)]
    have "holds c (cluster s3) win0"
      using keepsD [OF keeps_plan_apply [OF documented_ignores [OF doc] kinds] opened(4) [simplified]] conjunct1 [OF rec] opened(5) by (simp add: holds_def)
    from finish_open_ok [OF doc this opened(6)] obtain win where "holds c (cluster s') win" "win_spec win = win_spec win0"
        "win_namespace win = win_namespace win0" "win_name win = win_name win0" "win_labels win = win_labels win0"
        "wst_phase (win_status win) = WindowPhaseOpen" by metis
    with rec show thesis by (intro that [of win]) (simp_all add: isDeferredWindow_def)
  qed simp_all
qed

lemma workload_step_free:
  assumes "getWindow c (cluster s) policy w = Inr (Some old)" and "isDeferredWindow (Some old)"
    and "windowCap \<le> 0 \<or> ls_active ls < windowCap" and "run_state (workload_step E c policy windowCap w ls) s = (Inr ls', s')"
    and "ls_errs ls' = ls_errs ls"
  shows "run_state (ensureWindow E c policy w) s = (Inr (), s')" and "ls_active ls' = int32 (ls_active ls + 1)" and "ls_deferred ls' = ls_deferred ls"
proof -
  obtain r s1 where r: "run_state (ensureWindow E c policy w) s = (r, s1)" by fastforce
  have "\<not> (0 < windowCap \<and> windowCap \<le> ls_active ls)" using assms(3) by auto
  with assms(1,2,4,5) r have "r = Inr () \<and> s1 = s' \<and> ls_active ls' = int32 (ls_active ls + 1) \<and> ls_deferred ls' = ls_deferred ls"
    by (cases r) (auto simp: workload_step_def run_and_then Let_def split: prod.splits)
  with r show "run_state (ensureWindow E c policy w) s = (Inr (), s')" "ls_active ls' = int32 (ls_active ls + 1)" "ls_deferred ls' = ls_deferred ls" by simp_all
qed


section \<open>Properties\<close>

text \<open>
  C16. A deferred window is promoted when a slot is free. When the loop over the workloads
  reaches a workload whose window is deferred and not held for having exceeded its maximum,
  while fewer windows are active than \<open>maxConcurrentWindows\<close> allows, and the step records no
  error, the stored window is open, no longer deferred, and records the actions of the plan
  and the vulnerable nodes of the workload; it takes a slot and is not counted as deferred.
\<close>

theorem deferred_window_is_promoted:
  assumes "window_api_documented c" and "controller_ref_documented E" and "named_windows c (cluster s)"
    and "getWindow c (cluster s) policy w = Inr (Some old)" and "isDeferredWindow (Some old)"
    and "\<not> holdMaxWindow (Some policy) (Some old) (Now c (cluster s))"
    and "buildPlan E c (cluster s) (Some policy) (Some (wl_deploy w)) (wl_atRisk w) (ScaleActions (Some old)) (ws_baseline (win_spec old)) = Inr plan"
    and "\<forall>x \<in> set (plan_steps plan). tgt_kind (stp_target x) \<noteq> window_kind"
    and "windowCap \<le> 0 \<or> ls_active ls < windowCap"
    and "run_state (workload_step E c policy windowCap w ls) s = (Inr ls', s')" and "ls_errs ls' = ls_errs ls"
  shows "(\<exists>win. holds c (cluster s') win \<and> win_namespace win = dep_namespace (wl_deploy w) \<and>
       win_name win = workload_window_name policy (wl_deploy w) \<and> \<not> isDeferredWindow (Some win) \<and>
       wst_phase (win_status win) = WindowPhaseOpen \<and> ws_actions (win_spec win) = plan_actions plan (ScaleActions (Some old)) \<and>
       ws_vulnerableNodes (win_spec win) = sortedKeys (wl_nodes w)) \<and>
     ls_active ls' = int32 (ls_active ls + 1) \<and> ls_deferred ls' = ls_deferred ls"
proof -
  note step = workload_step_free [OF assms(4,5,9,10,11)]
  obtain win where "holds c (cluster s') win" "win_namespace win = dep_namespace (wl_deploy w)"
    "win_name win = workload_window_name policy (wl_deploy w)" "\<not> isDeferredWindow (Some win)" "wst_phase (win_status win) = WindowPhaseOpen"
    "ws_actions (win_spec win) = plan_actions plan (ScaleActions (Some old))" "ws_vulnerableNodes (win_spec win) = sortedKeys (wl_nodes w)"
    by (rule ensureWindow_existing [OF assms(1-4,6-8) step(1)])
  with step(2,3) show ?thesis by blast
qed

theorem deferred_window_is_promoted_witness:
  "\<exists>win ls' s'. run_state (workload_step std_env mem_client spare_policy 1 stale_workload \<lparr>ls_active = 0, ls_deferred = 0, ls_errs = []\<rparr>)
       \<lparr>cluster = spare_cluster True (start_window False [(DeferredLabel, ''true'')]), log = []\<rparr> = (Inr ls', s') \<and> ls_active ls' = 1 \<and>
     holds mem_client (cluster s') win \<and> \<not> isDeferredWindow (Some win) \<and> ws_vulnerableNodes (win_spec win) = [''ip-7'', ''ip-9'']"
proof -
  let ?old = "start_window False [(DeferredLabel, ''true'')]" and ?ls = "\<lparr>ls_active = 0, ls_deferred = 0, ls_errs = []\<rparr>"
  let ?s = "\<lparr>cluster = spare_cluster True ?old, log = []\<rparr>"
  have deferred: "isDeferredWindow (Some ?old)" by (simp add: isDeferredWindow_def start_window_def)
  obtain n where plan: "buildPlan std_env mem_client (spare_cluster True ?old) (Some spare_policy) (Some hpa_deployment) 3 [] 2 =
      Inr \<lparr>plan_steps = [], plan_primaryBaseline = 2, plan_desired = n\<rparr>"
    using stale_plan by blast
  obtain s' where ensure: "run_state (ensureWindow std_env mem_client spare_policy stale_workload) ?s = (Inr (), s')"
    using stale_ensure [of "[(DeferredLabel, ''true'')]" False "[]"] by auto
  have run: "run_state (workload_step std_env mem_client spare_policy 1 stale_workload ?ls) ?s = (Inr (?ls\<lparr>ls_active := 1\<rparr>), s')"
    using deferred ensure by (simp add: workload_step_def run_and_then stale_get Let_def int32_small)
  have "(\<exists>win. holds mem_client (cluster s') win \<and> win_namespace win = dep_namespace (wl_deploy stale_workload) \<and>
       win_name win = workload_window_name spare_policy (wl_deploy stale_workload) \<and> \<not> isDeferredWindow (Some win) \<and>
       wst_phase (win_status win) = WindowPhaseOpen \<and>
       ws_actions (win_spec win) = plan_actions \<lparr>plan_steps = [], plan_primaryBaseline = 2, plan_desired = n\<rparr> (ScaleActions (Some ?old)) \<and>
       ws_vulnerableNodes (win_spec win) = sortedKeys (wl_nodes stale_workload)) \<and>
     ls_active (?ls\<lparr>ls_active := 1\<rparr>) = int32 (ls_active ?ls + 1) \<and> ls_deferred (?ls\<lparr>ls_active := 1\<rparr>) = ls_deferred ?ls"
    by (rule deferred_window_is_promoted [OF mem_window_api std_env_controller_ref mem_named_windows _ deferred _ _ _ _ run])
      (simp_all add: stale_get stale_free spare_reads stale_wl start_facts plan)
  then obtain win where "holds mem_client (cluster s') win" "\<not> isDeferredWindow (Some win)" "ws_vulnerableNodes (win_spec win) = [''ip-7'', ''ip-9'']"
    unfolding stale_wl by blast
  with run show ?thesis by (intro exI [of _ win] exI [of _ "?ls\<lparr>ls_active := 1\<rparr>"] exI [of _ s']) simp
qed

end
