(* ===== verification/Window_Slots.thy ===== *)
theory Window_Slots
  imports Spare_Wait
begin

text \<open>
  The cap on concurrent windows, stated of the stored windows: \<open>taken\<close> are the keys of the
  windows that are active and not deferred. A workload step touches the window of its
  workload alone; deferring a workload takes no slot, and the loop opens no more windows
  than its counter says, apart from workloads whose step fails after the window is stored.
\<close>


section \<open>Specification\<close>

definition taken :: "'w client \<Rightarrow> 'w \<Rightarrow> (string \<times> string) set" where
  "taken c w = {k. \<exists>win. window_at c w k = Some win \<and> IsActive win \<and> \<not> isDeferredWindow (Some win)}"

text \<open>A write to a window, done or not, leaves the windows with other keys alone.\<close>

definition windows_apart :: "'w client \<Rightarrow> bool" where
  "windows_apart c \<longleftrightarrow>
     (\<forall>win w k. k \<noteq> window_key win \<longrightarrow> window_at c (snd (Create_Window c win w)) k = window_at c w k) \<and>
     (\<forall>base new w k. window_key new = window_key base \<longrightarrow> k \<noteq> window_key base \<longrightarrow>
        window_at c (snd (Patch_Window c base new w)) k = window_at c w k) \<and>
     (\<forall>win w k. k \<noteq> window_key win \<longrightarrow> window_at c (snd (Update_WindowStatus c win w)) k = window_at c w k)"

definition slots_documented :: "env \<Rightarrow> 'w client \<Rightarrow> bool" where
  "slots_documented E c \<longleftrightarrow> window_api_documented c \<and> writes_documented c \<and> windows_apart c \<and> controller_ref_documented E"

text \<open>No catalog entry of the policy is on windows.\<close>

definition foreign_catalog :: "EvictionGuardPolicy \<Rightarrow> bool" where
  "foreign_catalog policy \<longleftrightarrow> (\<forall>(key, entry) \<in> set (spec_backends (pol_spec policy)). be_kind entry \<noteq> window_kind)"

text \<open>Only the window with the key \<open>K\<close> may differ; and a window there that is deferred stays so.\<close>

definition elsewhere :: "'w client \<Rightarrow> string \<times> string \<Rightarrow> 'w \<Rightarrow> 'w \<Rightarrow> bool" where
  "elsewhere c K w w' \<longleftrightarrow> (\<forall>k. k \<noteq> K \<longrightarrow> window_at c w' k = window_at c w k)"

definition queued_at :: "'w client \<Rightarrow> string \<times> string \<Rightarrow> 'w \<Rightarrow> bool" where
  "queued_at c K w \<longleftrightarrow> (\<forall>win. window_at c w K = Some win \<longrightarrow> isDeferredWindow (Some win))"

definition stays :: "'w client \<Rightarrow> string \<times> string \<Rightarrow> 'w \<Rightarrow> 'w \<Rightarrow> bool" where
  "stays c K w w' \<longleftrightarrow> elsewhere c K w w' \<and> (queued_at c K w \<longrightarrow> queued_at c K w')"

definition workload_key :: "EvictionGuardPolicy \<Rightarrow> workloadState \<Rightarrow> string \<times> string" where
  "workload_key policy w = (dep_namespace (wl_deploy w), workload_window_name policy (wl_deploy w))"


section \<open>Lemmas\<close>

lemma elsewhere_refl [simp]: "elsewhere c K w w"
  by (simp add: elsewhere_def)

lemma elsewhere_trans: "elsewhere c K w w1 \<Longrightarrow> elsewhere c K w1 w2 \<Longrightarrow> elsewhere c K w w2"
  by (simp add: elsewhere_def)

lemma elsewhere_same: "Get_Window c w' = Get_Window c w \<Longrightarrow> elsewhere c K w w'"
  using same_windows [of c w' w] by (simp add: elsewhere_def)

lemma elsewhere_taken: "elsewhere c K w w' \<Longrightarrow> taken c w' \<subseteq> insert K (taken c w)"
  by (auto simp: elsewhere_def taken_def)

lemma queued_not_taken: "queued_at c K w \<Longrightarrow> K \<notin> taken c w"
  by (auto simp: queued_at_def taken_def)

interpretation slot: invariant_frame "\<lambda>_. True" "elsewhere c K" for c K
  by unfold_locales (auto intro: elsewhere_trans)

interpretation wait: invariant_frame "queued_at c K" "stays c K" for c K
  by unfold_locales (auto simp: stays_def intro: elsewhere_trans)

text \<open>The single writes.\<close>

lemma create_apart:
  assumes "slots_documented E c" and "Create_Window c win w = (r, w')"
  shows "elsewhere c (window_key win) w w'" and "okay (\<lambda>x. window_key x = window_key win) r"
proof -
  have "windows_apart c" using assms(1) by (simp add: slots_documented_def)
  note conjunct1 [OF this [unfolded windows_apart_def], rule_format, of _ win w]
  with assms(2) show "elsewhere c (window_key win) w w'" by (simp add: elsewhere_def)
  have api: "window_api_documented c" using assms(1) by (simp add: slots_documented_def)
  show "okay (\<lambda>x. window_key x = window_key win) r"
  proof (cases r)
    case (Inr x)
    from documented_create(2,3) [OF api assms(2) [unfolded Inr]] Inr show ?thesis by (simp add: window_key_def)
  qed simp
qed

lemma update_apart:
  assumes "slots_documented E c" and "Update_WindowStatus c win w = (r, w')"
  shows "stays c (window_key win) w w'"
proof -
  have "windows_apart c" using assms(1) by (simp add: slots_documented_def)
  note conjunct2 [OF conjunct2 [OF this [unfolded windows_apart_def]], rule_format, of _ win w]
  with assms(2) have "elsewhere c (window_key win) w w'" by (simp add: elsewhere_def)
  moreover have "status_atomic c" using assms(1) by (simp add: slots_documented_def writes_documented_def)
  note law = this [unfolded status_atomic_def, rule_format, OF assms(2)]
  have "queued_at c (window_key win) w'" if "queued_at c (window_key win) w"
    unfolding queued_at_def
  proof (intro allI impI)
    fix got assume "window_at c w' (window_key win) = Some got"
    with law obtain old where "window_at c w (window_key win) = Some old" "same_record old got" by blast
    with that show "isDeferredWindow (Some got)" by (simp add: queued_at_def same_record_def isDeferredWindow_def)
  qed
  ultimately show ?thesis by (simp add: stays_def)
qed

lemma patch_apart:
  assumes "slots_documented E c" and "window_key new = window_key base" and "Patch_Window c base new w = (r, w')"
  shows "elsewhere c (window_key base) w w'"
proof -
  have "windows_apart c" using assms(1) by (simp add: slots_documented_def)
  note conjunct1 [OF conjunct2 [OF this [unfolded windows_apart_def]], rule_format, OF assms(2), of _ w]
  with assms(3) show ?thesis by (simp add: elsewhere_def)
qed

lemma slot_update:
  assumes "slots_documented E c" and "window_key win = K"
  shows "tracks (\<lambda>_. True) (elsewhere c K) (\<lambda>_. True) (mutate (Update_WindowStatus c win))"
  using update_apart [OF assms(1)] assms(2) by (intro slot.mutate_rule) (auto simp: stays_def)

lemma wait_update:
  assumes "slots_documented E c" and "window_key win = K"
  shows "tracks (queued_at c K) (stays c K) (\<lambda>_. True) (mutate (Update_WindowStatus c win))"
  using update_apart [OF assms(1)] assms(2) by (intro wait.mutate_rule) auto

lemma open_status_key: "run_state (open_status E win msg now err) s = ((dirty, win'), s') \<Longrightarrow> window_key win' = window_key win"
  by (auto simp: open_status_def Let_def applyCapacityApplied_def window_key_def)

lemma slot_open_status:
  "window_key win = K \<Longrightarrow> tracks (\<lambda>_. True) (elsewhere c K) (\<lambda>(_, win'). window_key win' = K) (open_status E win msg now err)"
  by (rule slot.pure) (auto simp: open_status_def Let_def applyCapacityApplied_def window_key_def)

lemma wait_open_status:
  "window_key win = K \<Longrightarrow> tracks (queued_at c K) (stays c K) (\<lambda>(_, win'). window_key win' = K) (open_status E win msg now err)"
  by (rule wait.pure) (auto simp: open_status_def Let_def applyCapacityApplied_def window_key_def)

lemma wait_capacity:
  "window_key win = K \<Longrightarrow> tracks (queued_at c K) (stays c K) (\<lambda>(_, win'). window_key win' = K) (applyCapacityApplied E win err now)"
  by (rule wait.pure) (auto simp: Let_def applyCapacityApplied_def window_key_def)

lemma slot_finish_open:
  assumes "slots_documented E c" and "window_key win = K"
  shows "tracks (\<lambda>_. True) (elsewhere c K) (\<lambda>_. True) (finish_open E c win msg err now)"
  unfolding finish_open_def
  by (auto intro!: slot.bind [OF slot_open_status [OF assms(2)]] slot.bind [OF slot.cond] slot_update [OF assms(1)] slot.ok_rule slot.fail_rule
      split: sum.split option.split)

text \<open>Creating a window, with or without the label.\<close>

lemma created_reference:
  assumes "controller_ref_documented E" and "SetControllerReference E policy win = Inr new"
  shows "window_key new = window_key win" and "win_labels new = win_labels win"
  using assms unfolding controller_ref_documented_def window_key_def by fastforce+

lemma slot_create_window:
  assumes "slots_documented E c" and "window_key win = K"
  shows "tracks (\<lambda>_. True) (elsewhere c K) (\<lambda>_. True) (create_window E c policy win)"
proof -
  have ref: "controller_ref_documented E" using assms(1) by (simp add: slots_documented_def)
  let ?win = "win\<lparr>win_finalizers := AddFinalizer E (win_finalizers win) WindowFinalizer\<rparr>"
  have key: "window_key ?win = K" using assms(2) by (simp add: window_key_def)
  show ?thesis
  proof (cases "SetControllerReference E policy ?win")
    case (Inr new)
    with created_reference(1) [OF ref this] key have "window_key new = K" by simp
    with create_apart(1) [OF assms(1), of new] have "tracks (\<lambda>_. True) (elsewhere c K) (\<lambda>_. True) (mutate (Create_Window c new))"
      by (intro slot.mutate_rule) auto
    with Inr show ?thesis by (simp add: create_window_def)
  qed (simp add: create_window_def slot.fail_rule)
qed

lemma wait_create_window:
  assumes doc: "slots_documented E c" and "window_key win = K" and "isDeferredWindow (Some win)"
  shows "tracks (queued_at c K) (stays c K) (okay (\<lambda>x. window_key x = K)) (create_window E c policy win)"
proof -
  have ref: "controller_ref_documented E" and create: "create_atomic c"
    using doc by (simp_all add: slots_documented_def writes_documented_def)
  let ?win = "win\<lparr>win_finalizers := AddFinalizer E (win_finalizers win) WindowFinalizer\<rparr>"
  have same: "window_key ?win = K" "win_labels ?win = win_labels win" using assms(2) by (simp_all add: window_key_def)
  show ?thesis
  proof (cases "SetControllerReference E policy ?win")
    case (Inr new)
    note new = created_reference [OF ref Inr]
    have "tracks (queued_at c K) (stays c K) (okay (\<lambda>x. window_key x = K)) (mutate (Create_Window c new))"
    proof (rule wait.mutate_rule)
      fix w r w' assume run: "Create_Window c new w = (r, w')"
      note law = create [unfolded create_atomic_def, rule_format, OF run]
      have "queued_at c K w'" if "queued_at c K w"
        unfolding queued_at_def
      proof (intro allI impI)
        fix got assume "window_at c w' K = Some got"
        with law have "window_at c w K = Some got \<or> win_labels got = win_labels new" by blast
        with that new same assms(3) show "isDeferredWindow (Some got)" by (auto simp: queued_at_def isDeferredWindow_def)
      qed
      with create_apart [OF doc run] new same show "stays c K w w' \<and> okay (\<lambda>x. window_key x = K) r" by (simp add: stays_def)
    qed
    with Inr show ?thesis by (simp add: create_window_def)
  qed (simp add: create_window_def wait.fail_rule)
qed


section \<open>Opening touches one window\<close>

lemma foreign_plan:
  assumes "foreign_catalog pol" and "buildPlan E c w (Some pol) dep a ex sticky = Inr p"
  shows "\<forall>x \<in> set (plan_steps p). tgt_kind (stp_target x) \<noteq> window_kind"
proof (cases "plan_steps p = []")
  case False
  from assms(2) this show ?thesis
  proof (rule buildPlan_steps)
    fix bs resolved bl
    assume cat: "ResolveCatalog dep (Some pol) bs = Inr resolved"
      and steps: "plan_steps p = map2 (\<lambda>r b. step_of (resolveStamp pol dep) r b (plan_desired p)) resolved bl"
    have "ResolveCatalog_loop (spec_backends (pol_spec pol)) bs [] = Inr resolved"
      using cat by (simp add: ResolveCatalog_def split: if_splits)
    then have known: "\<forall>b \<in> set bs. \<exists>entry. map_of (spec_backends (pol_spec pol)) (bind_key b) = Some entry"
      and res: "resolved = concat (map (\<lambda>b. entry_steps b (the (map_of (spec_backends (pol_spec pol)) (bind_key b)))) bs)"
      unfolding ResolveCatalog_loop_spec by auto
    have "tgt_kind (rstep_target r) \<noteq> window_kind" if "r \<in> set resolved" for r
    proof -
      from that obtain b where b: "b \<in> set bs" "r \<in> set (entry_steps b (the (map_of (spec_backends (pol_spec pol)) (bind_key b))))"
        by (auto simp: res)
      with known obtain entry where e: "map_of (spec_backends (pol_spec pol)) (bind_key b) = Some entry" by blast
      with b(2) have "tgt_kind (rstep_target r) = be_kind entry" by (auto simp: entry_steps_def dest: binding_steps_kind)
      with assms(1) map_of_SomeD [OF e] show ?thesis by (auto simp: foreign_catalog_def)
    qed
    with steps show ?thesis by (auto simp: step_of_def dest!: set_zip_leftD)
  qed
qed simp

lemma workload_getWindow:
  assumes "slots_documented E c" and "getWindow c (cluster s) policy w = Inr existing"
  shows "window_at c (cluster s) (workload_key policy w) = existing"
    and "existing = Some win \<Longrightarrow> holds c (cluster s) win \<and> window_key win = workload_key policy w"
proof -
  show "window_at c (cluster s) (workload_key policy w) = existing"
    using assms(2) by (auto simp: getWindow_def window_at_def workload_key_def split: sum.splits if_splits)
  show "existing = Some win \<Longrightarrow> holds c (cluster s) win \<and> window_key win = workload_key policy w"
    using getWindow_held [of c s policy w win] assms
    by (simp add: slots_documented_def writes_documented_def window_key_def workload_key_def)
qed

lemma record_elsewhere:
  assumes doc: "slots_documented E c" and key: "\<And>win. existing = Some win \<Longrightarrow> window_key win = workload_key policy w"
    and run: "run_state (record_window E c policy w existing plan) s = (r, s')"
  shows "elsewhere c (workload_key policy w) (cluster s) (cluster s')"
proof (cases existing)
  case None
  let ?new = "fresh_window policy (wl_deploy w) (window_labels policy (wl_deploy w)) (plan_actions plan []) (plan_primaryBaseline plan) (plan_desired plan)
    (sortedKeys (wl_nodes w))"
  have "window_key ?new = workload_key policy w" by (simp add: fresh_window_def window_key_def workload_key_def)
  from tracks_okay [OF slot_create_window [OF doc this]]
  have "tracks (\<lambda>_. True) (elsewhere c (workload_key policy w)) (okay (\<lambda>_. True)) (record_window E c policy w existing plan)"
    unfolding record_window_def None Let_def ScaleActions_def option.case
    by (intro slot.and_then_rule slot.bind [OF slot.kept [OF keeps_emitf [where f = "\<lambda>w. w"]]] slot.ok_rule) simp_all
  from tracksD [OF this run] show ?thesis by simp
next
  case (Some win)
  then obtain new where "Patch_Window c win new (cluster s) = (r, cluster s')" "window_key new = window_key win"
    using run by (auto simp: record_window_def Let_def prod_eq_iff window_key_def)
  from patch_apart [OF doc this(2,1)] key [OF Some] show ?thesis by simp
qed

lemma ensureWindow_elsewhere:
  assumes doc: "slots_documented E c" and cat: "foreign_catalog policy" and run: "run_state (ensureWindow E c policy w) s = (r, s')"
  shows "elsewhere c (workload_key policy w) (cluster s) (cluster s')"
  using run [unfolded ensureWindow_def]
proof (rule unless_held_cases)
  assume "cluster s' = cluster s"
  then show ?thesis by simp
next
  let ?K = "workload_key policy w"
  have api: "window_api_documented c" "controller_ref_documented E" using doc by (simp_all add: slots_documented_def)
  fix existing assume get: "getWindow c (cluster s) policy w = Inr existing" and run: "run_state (open_window E c policy w existing) s = (r, s')"
  have held: "holds c (cluster s) win \<and> window_key win = ?K" if "existing = Some win" for win
    using workload_getWindow(2) [OF doc get that] .
  from run show ?thesis
  proof (cases rule: open_window_cases)
    case (no_plan e)
    then show ?thesis by simp
  next
    case (no_record plan s0 e)
    from record_elsewhere [OF doc _ no_record(3)] held no_record(1) show ?thesis by simp
  next
    case (opened plan s0 win s1 scaled err s2 s3)
    have one: "elsewhere c ?K (cluster s) (cluster s1)" using record_elsewhere [OF doc _ opened(3)] held opened(1) by simp
    have "\<And>old. existing = Some old \<Longrightarrow> holds c (cluster s0) old \<and> win_namespace old = dep_namespace (wl_deploy w) \<and>
        win_name old = workload_window_name policy (wl_deploy w)"
      using held opened(1) by (simp add: window_key_def workload_key_def)
    from record_window_stored [OF api this opened(3)] have key: "window_key win = ?K" by (simp add: window_key_def workload_key_def)
    have "keeps (Get_Window c) (plan_apply E c plan (pol_name policy))"
      by (rule keeps_plan_apply [OF documented_ignores [OF api(1)] foreign_plan [OF cat opened(2)]])
    from elsewhere_same [OF keepsD [OF this opened(4)]] have two: "elsewhere c ?K (cluster s1) (cluster s2)" .
    from tracksD [OF slot_finish_open [OF doc key] opened(6)] opened(5) have "elsewhere c ?K (cluster s2) (cluster s')" by simp
    with one two show ?thesis by (blast intro: elsewhere_trans)
  qed
qed


section \<open>Deferring takes no slot\<close>

lemma deferred_labels:
  "mget (window_labels policy dep @ [(DeferredLabel, ''true'')]) DeferredLabel = ''true''"
  "mget (AList.update DeferredLabel ''true'' ls) DeferredLabel = ''true''"
  by (simp_all add: window_labels_def mget_def update_conv' go_simps)

lemma defer_fresh_waits:
  assumes doc: "slots_documented E c"
  shows "tracks (queued_at c (workload_key policy w)) (stays c (workload_key policy w)) (okay (\<lambda>_. True)) (defer_fresh E c policy w)"
proof -
  let ?K = "workload_key policy w"
  have "tracks (queued_at c ?K) (stays c ?K) (okay (\<lambda>x. window_key x = ?K))
      (create_window E c policy (fresh_window policy (wl_deploy w) (window_labels policy (wl_deploy w) @ [(DeferredLabel, ''true'')]) [] b b ns))" for b ns
    by (rule wait_create_window [OF doc]) (simp_all add: fresh_window_def window_key_def workload_key_def isDeferredWindow_def deferred_labels)
  note create = this
  have status: "window_key x = ?K \<Longrightarrow> window_key (x\<lparr>win_status := st\<rparr>) = ?K" for x st by (simp add: window_key_def)
  show ?thesis
    unfolding defer_fresh_def Let_def
    by (auto intro!: wait.and_then_rule [OF create] wait.bind [OF wait.query_rule [where Q = "\<lambda>_. True"]] wait.bind [OF wait_capacity [OF status]]
        wait.and_then_rule [OF tracks_okay [OF wait_update [OF doc]]] wait.bind [OF wait.kept [OF keeps_emitf [where f = "\<lambda>w. w"]]] wait.refl wait.ok_rule)
qed

lemma defer_existing_waits:
  assumes doc: "slots_documented E c" and held: "holds c (cluster s) win" and run: "run_state (defer_existing E c w win) s = (r, s')"
  shows "elsewhere c (window_key win) (cluster s) (cluster s') \<and> (window_key win \<in> taken c (cluster s') \<longrightarrow> window_key win \<in> taken c (cluster s))"
proof -
  let ?K = "window_key win"
  let ?b = "if ws_baseline (win_spec win) > 0 then ws_baseline (win_spec win) else deployReplicas (Some (wl_deploy w))"
  let ?new = "win\<lparr>win_labels := AList.update DeferredLabel ''true'' (win_labels win),
      win_spec := (win_spec win)\<lparr>ws_vulnerableNodes := sortedKeys (wl_nodes w), ws_scaledTo := ?b, ws_baseline := ?b, ws_actions := [], ws_windowUntil := None\<rparr>\<rparr>"
  let ?rest = "\<lambda>win1. State_Monad.bind (query (Now c)) (\<lambda>now.
      State_Monad.bind (open_status E win1 msgDeferred now None) (\<lambda>(dirty, win2).
        if dirty then and_then (mutate (Update_WindowStatus c win2)) (\<lambda>_. ok ()) else ok ()))"
  obtain x w1 where patch: "Patch_Window c win ?new (cluster s) = (x, w1)" by fastforce
  have key: "window_key ?new = ?K" by (simp add: window_key_def)
  have at: "window_at c (cluster s) ?K = Some win" using held by (simp add: holds_def window_at_def window_key_def)
  have one: "elsewhere c ?K (cluster s) w1" by (rule patch_apart [OF doc key patch])
  have run': "run_state (defer_existing E c w win) s = (case x of Inl e \<Rightarrow> (Inl e, s\<lparr>cluster := w1\<rparr>) | Inr win1 \<Rightarrow> run_state (?rest win1) (s\<lparr>cluster := w1\<rparr>))"
    unfolding defer_existing_def Let_def run_and_then by (simp add: patch split: sum.split)
  show ?thesis
  proof (cases x)
    case (Inl e)
    then have s': "cluster s' = w1" using run run' by auto
    have "patch_atomic c" using doc by (simp add: slots_documented_def writes_documented_def)
    note law = this [unfolded patch_atomic_def, rule_format, OF patch key]
    have "?K \<in> taken c (cluster s)" if tk: "?K \<in> taken c w1"
    proof -
      obtain got where got: "window_at c w1 ?K = Some got" "IsActive got" "\<not> isDeferredWindow (Some got)" using tk by (auto simp: taken_def)
      with law obtain old where "window_at c (cluster s) ?K = Some old" "got = old \<or> merge_patched win ?new old got" by blast
      with at got(3) have "got = win" by (auto simp: merge_patched_def isDeferredWindow_def deferred_labels)
      with got at show ?thesis by (auto simp: taken_def)
    qed
    with one s' show ?thesis by simp
  next
    case (Inr win1)
    have api: "window_api_documented c" using doc by (simp add: slots_documented_def)
    note stored = documented_patch [OF api held _ _ _ patch [unfolded Inr]]
    have w1: "window_key win1 = ?K" "window_at c w1 ?K = Some win1" "isDeferredWindow (Some win1)"
      using stored by (simp_all add: holds_def window_at_def window_key_def isDeferredWindow_def deferred_labels)
    have "tracks (queued_at c ?K) (stays c ?K) (\<lambda>_. True) (?rest win1)"
      by (auto intro!: wait.bind [OF wait.query_rule [where Q = "\<lambda>_. True"]] wait.bind [OF wait_open_status [OF w1(1)]] wait.ok_rule
          tracks_weaken [OF wait.and_then_rule [where Q = "\<lambda>_. True" and Q' = "\<lambda>_. True"]] tracks_okay [OF wait_update [OF doc]])
    moreover have "run_state (?rest win1) (s\<lparr>cluster := w1\<rparr>) = (r, s')" using run run' Inr by simp
    moreover have "queued_at c ?K w1" using w1(2,3) by (simp add: queued_at_def)
    ultimately have "stays c ?K w1 (cluster s')" "queued_at c ?K (cluster s')" using tracksD by fastforce+
    with one queued_not_taken [of c ?K "cluster s'"] show ?thesis by (auto simp: stays_def intro: elsewhere_trans)
  qed
qed

lemma ensureDeferredWindow_takes_no_slot:
  assumes doc: "slots_documented E c" and run: "run_state (ensureDeferredWindow E c policy w) s = (r, s')"
  shows "taken c (cluster s') \<subseteq> taken c (cluster s)"
  using run [unfolded ensureDeferredWindow_def]
proof (rule unless_held_cases)
  let ?K = "workload_key policy w"
  let ?t = "s\<lparr>log := sys.log s @ [at_risk_metric policy w]\<rparr>"
  fix existing assume get: "getWindow c (cluster s) policy w = Inr existing"
    and run: "run_state (defer_window E c policy w existing) s = (r, s')"
  have "elsewhere c ?K (cluster s) (cluster s') \<and> (?K \<in> taken c (cluster s') \<longrightarrow> ?K \<in> taken c (cluster s))"
  proof (cases existing)
    case None
    then have "queued_at c ?K (cluster ?t)" using workload_getWindow(1) [OF doc get] by (simp add: queued_at_def)
    moreover have "run_state (defer_fresh E c policy w) ?t = (r, s')" using run None by (simp add: defer_window_def)
    ultimately show ?thesis using tracksD [OF defer_fresh_waits [OF doc]] queued_not_taken by (fastforce simp: stays_def)
  next
    case (Some win)
    have "run_state (defer_existing E c w win) ?t = (r, s')" using run Some by (simp add: defer_window_def)
    with defer_existing_waits [OF doc, of ?t win w r s'] workload_getWindow(2) [OF doc get Some] show ?thesis by simp
  qed
  then show ?thesis using elsewhere_taken [of c ?K "cluster s" "cluster s'"] by blast
qed simp


section \<open>The loop over the workloads\<close>

lemma keeps_publish: "keeps f (publishWorkloadMetrics E c policy w)"
  unfolding publishWorkloadMetrics_def setWorkloadPlanMetrics_def Let_def by (intro keeps_intros)

text \<open>How many windows a step may open, by what it counts and by the errors it records.\<close>

definition opened_at_most :: "'w client \<Rightarrow> loop_state \<Rightarrow> loop_state \<Rightarrow> 'w \<Rightarrow> 'w \<Rightarrow> bool" where
  "opened_at_most c ls ls' w w' \<longleftrightarrow>
     (\<exists>N. finite N \<and> taken c w' \<subseteq> taken c w \<union> N \<and>
       int (card N) \<le> (ls_active ls' - ls_active ls) + (int (length (ls_errs ls')) - int (length (ls_errs ls))))"

lemma opened_none: "taken c w' \<subseteq> taken c w \<Longrightarrow> ls_active ls \<le> ls_active ls' \<Longrightarrow> length (ls_errs ls) \<le> length (ls_errs ls') \<Longrightarrow> opened_at_most c ls ls' w w'"
  unfolding opened_at_most_def by (intro exI [of _ "{}"]) simp

lemma opened_one:
  "taken c w' \<subseteq> insert K (taken c w) \<Longrightarrow>
   1 \<le> (ls_active ls' - ls_active ls) + (int (length (ls_errs ls')) - int (length (ls_errs ls))) \<Longrightarrow> opened_at_most c ls ls' w w'"
  unfolding opened_at_most_def by (intro exI [of _ "{K}"]) auto

lemma opened_trans:
  assumes "opened_at_most c ls ls1 w w1" and "opened_at_most c ls1 ls' w1 w'"
  shows "opened_at_most c ls ls' w w'"
proof -
  obtain M N where "finite M" "taken c w1 \<subseteq> taken c w \<union> M"
      "int (card M) \<le> (ls_active ls1 - ls_active ls) + (int (length (ls_errs ls1)) - int (length (ls_errs ls)))"
    and "finite N" "taken c w' \<subseteq> taken c w1 \<union> N"
      "int (card N) \<le> (ls_active ls' - ls_active ls1) + (int (length (ls_errs ls')) - int (length (ls_errs ls1)))"
    using assms unfolding opened_at_most_def by blast
  moreover have "card (M \<union> N) \<le> card M + card N" by (rule card_Un_le)
  ultimately show ?thesis unfolding opened_at_most_def by (intro exI [of _ "M \<union> N"]) auto
qed

lemma workload_step_opens:
  assumes doc: "slots_documented E c" and cat: "foreign_catalog policy"
    and cap: "0 < windowCap" "in_int32 windowCap" "in_int32 (ls_active ls)"
    and run: "run_state (workload_step E c policy windowCap w ls) s = (Inr ls', s')"
  shows "opened_at_most c ls ls' (cluster s) (cluster s')"
proof -
  let ?K = "workload_key policy w"
  obtain win where get: "getWindow c (cluster s) policy w = Inr win"
    using run by (auto simp: workload_step_def run_and_then split: sum.splits)
  define waiting where "waiting = (\<not> (case win of None \<Rightarrow> False | Some v \<Rightarrow> IsActive v) \<or> isDeferredWindow win)"
  have slot: "?K \<in> taken c (cluster s)" if "\<not> waiting"
    using that workload_getWindow(1) [OF doc get] by (auto simp: waiting_def taken_def split: option.splits)
  show ?thesis
  proof (cases "waiting \<and> windowCap \<le> ls_active ls")
    case True
    obtain r s1 where def: "run_state (ensureDeferredWindow E c policy w) s = (r, s1)" by fastforce
    obtain u s2 where pub: "run_state (publishWorkloadMetrics E c policy w) s1 = (u, s2)" by fastforce
    have "cluster s2 = cluster s1" using keepsD [OF keeps_publish [of "\<lambda>w. w"] pub] by simp
    moreover from True run get def pub cap(1)
    have "(cluster s' = cluster s1 \<or> cluster s' = cluster s2) \<and> ls_active ls' = ls_active ls \<and> length (ls_errs ls) \<le> length (ls_errs ls')"
      by (cases r) (auto simp: workload_step_def run_and_then Let_def waiting_def)
    ultimately show ?thesis using ensureDeferredWindow_takes_no_slot [OF doc def] by (intro opened_none) auto
  next
    case False
    obtain r s1 where ens: "run_state (ensureWindow E c policy w) s = (r, s1)" by fastforce
    note one = elsewhere_taken [OF ensureWindow_elsewhere [OF doc cat ens]]
    show ?thesis
    proof (cases r)
      case (Inl x)
      obtain u s2 where fl: "run_state (scale_up_failed c policy (wl_deploy w) x) s1 = (u, s2)" by (metis prod.exhaust)
      have "cluster s2 = cluster s1" using keepsD [OF keeps_scale_up_failed [of "\<lambda>w. w"] fl] by simp
      moreover from False run get ens fl Inl cap(1)
      have "cluster s' = cluster s2 \<and> ls_active ls' = ls_active ls \<and> length (ls_errs ls') = length (ls_errs ls) + 1"
        by (auto simp: workload_step_def run_and_then Let_def waiting_def)
      ultimately show ?thesis using one by (intro opened_one [of _ _ ?K]) auto
    next
      case (Inr x)
      from False run get ens Inr cap(1)
      have done_facts: "cluster s' = cluster s1" "ls_errs ls' = ls_errs ls" "ls_active ls' = (if waiting then int32 (ls_active ls + 1) else ls_active ls)"
        by (auto simp: workload_step_def run_and_then Let_def waiting_def split: if_splits)
      show ?thesis
      proof (cases waiting)
        case True
        with False have "ls_active ls < windowCap" by simp
        with cap have "int32 (ls_active ls + 1) = ls_active ls + 1" by (intro int32_id) (simp add: in_int32_def)
        with one done_facts True show ?thesis by (intro opened_one [of _ _ ?K]) auto
      next
        case False
        with one slot done_facts show ?thesis by (intro opened_none) auto
      qed
    qed
  qed
qed

lemma workload_loop_opens:
  assumes doc: "slots_documented E c" and cat: "foreign_catalog policy" and cap: "0 < windowCap" "in_int32 windowCap"
    and "in_int32 (ls_active ls)" and "run_state (workload_loop E c policy windowCap ws ls) s = (Inr ls', s')"
  shows "opened_at_most c ls ls' (cluster s) (cluster s')"
  using assms(5,6)
proof (induction ws arbitrary: ls s)
  case Nil
  then show ?case by (simp add: opened_none)
next
  case (Cons w ws)
  from Cons.prems(2) obtain ls1 s1 where step: "run_state (workload_step E c policy windowCap w ls) s = (Inr ls1, s1)"
    and rest: "run_state (workload_loop E c policy windowCap ws ls1) s1 = (Inr ls', s')"
    by (auto elim: and_then_Inr_elim)
  have "in_int32 (ls_active ls1)"
    using workload_step_slots [OF step cap Cons.prems(1)] Cons.prems(1) cap(2) by (auto simp: in_int32_def)
  from opened_trans [OF workload_step_opens [OF doc cat cap Cons.prems(1) step] Cons.IH [OF this rest]] show ?case .
qed

lemma mem_windows_apart: "windows_apart mem_client"
  unfolding windows_apart_def
proof (intro conjI allI impI)
  fix win m k assume k: "k \<noteq> window_key win"
  obtain r m' where run: "Create_Window mem_client win m = (r, m')" by fastforce
  let ?new = "win\<lparr>win_creationTimestamp := mc_now m, win_generation := 1, win_status := empty_status\<rparr>"
  have "m' = m \<or> mc_windows m' = mc_windows m @ [?new]" using run by (auto simp: mem_client_def Let_def split: if_splits)
  moreover have "window_key ?new = window_key win" by (simp add: window_key_def)
  ultimately show "window_at mem_client (snd (Create_Window mem_client win m)) k = window_at mem_client m k"
    using k run by (auto simp: mem_window_at find_key_snoc split: option.split)
next
  fix base new m k assume key: "window_key new = window_key base" and k: "k \<noteq> window_key base"
  obtain r m1 where put: "put_window new (merge_window base new) m = (r, m1)" by fastforce
  have "window_at mem_client m1 k = window_at mem_client m k" by (rule put_window_at [OF put]) (simp_all add: k key)
  with put k key show "window_at mem_client (snd (Patch_Window mem_client base new m)) k = window_at mem_client m k"
    by (simp add: mem_client_def mem_finalize_at [unfolded mem_client_def])
next
  fix win m k assume k: "k \<noteq> window_key win"
  obtain r m1 where put: "put_window win (\<lambda>old. old\<lparr>win_status := win_status win\<rparr>) m = (r, m1)" by fastforce
  have "window_at mem_client m1 k = window_at mem_client m k" by (rule put_window_at [OF put]) (simp_all add: k)
  with put show "window_at mem_client (snd (Update_WindowStatus mem_client win m)) k = window_at mem_client m k"
    by (simp add: mem_client_def)
qed

lemma mem_slots_documented: "slots_documented std_env mem_client"
  by (simp add: slots_documented_def mem_window_api mem_writes_documented mem_windows_apart std_env_controller_ref)


section \<open>Properties\<close>

text \<open>
  C15. The concurrency cap is kept and used up. With a positive cap and a count \<open>active\<close> of
  active windows at the start, the loop over the workloads makes at most \<open>cap - active\<close> more
  stored windows active and not deferred, and one more for each workload whose step records
  an error (its window may be stored open before the apply fails, and no slot is counted for
  it); the count itself never goes above the cap (or above where it was), and a workload is
  deferred only when every slot is counted as taken.
\<close>

theorem window_cap_respected:
  assumes "slots_documented E c" and "foreign_catalog policy"
    and "0 < MaxConcurrentWindowsOrDefault policy" and "in_int32 (MaxConcurrentWindowsOrDefault policy)"
    and "in_int32 active"
    and "run_state (workload_loop E c policy (MaxConcurrentWindowsOrDefault policy) ws
       \<lparr>ls_active = active, ls_deferred = 0, ls_errs = []\<rparr>) s = (Inr ls', s')"
  shows "finite (taken c (cluster s') - taken c (cluster s)) \<and>
     int (card (taken c (cluster s') - taken c (cluster s))) \<le>
       max 0 (MaxConcurrentWindowsOrDefault policy - active) + int (length (ls_errs ls')) \<and>
     active \<le> ls_active ls' \<and> ls_active ls' \<le> max active (MaxConcurrentWindowsOrDefault policy) \<and>
     (ls_deferred ls' = 0 \<or> MaxConcurrentWindowsOrDefault policy \<le> ls_active ls')"
proof -
  let ?cap = "MaxConcurrentWindowsOrDefault policy"
  have slots: "active \<le> ls_active ls' \<and> ls_active ls' \<le> max active ?cap \<and> (ls_deferred ls' \<noteq> 0 \<longrightarrow> ?cap \<le> ls_active ls')"
    using workload_loop_slots [OF assms(6,3,4)] assms(5) by simp
  obtain N where N: "finite N" "taken c (cluster s') \<subseteq> taken c (cluster s) \<union> N"
      "int (card N) \<le> (ls_active ls' - active) + int (length (ls_errs ls'))"
    using workload_loop_opens [OF assms(1-4) _ assms(6)] assms(5) by (auto simp: opened_at_most_def)
  then have sub: "taken c (cluster s') - taken c (cluster s) \<subseteq> N" by blast
  have "card (taken c (cluster s') - taken c (cluster s)) \<le> card N" by (rule card_mono [OF N(1) sub])
  moreover have "ls_active ls' - active \<le> max 0 (?cap - active)" using slots by auto
  ultimately show ?thesis using finite_subset [OF sub N(1)] N(3) slots by auto
qed

lemma capped_deferral:
  "\<exists>s'. run_state (ensureDeferredWindow std_env mem_client capped_policy web_workload)
     \<lparr>cluster = (web_cluster True [])\<lparr>mc_windows := []\<rparr>, log = []\<rparr> = (Inr (), s')"
proof -
  let ?c = "\<lambda>ws. (web_cluster True [])\<lparr>mc_windows := ws\<rparr>"
  have none: "getWindow mem_client (?c []) capped_policy web_workload = Inr None"
    by (simp add: getWindow_def mem_client_def)
  have "\<exists>v. \<forall>l. run_state (create_window std_env mem_client capped_policy win) \<lparr>cluster = ?c [], log = l\<rparr> = (Inr v, \<lparr>cluster = ?c [v], log = l\<rparr>)" for win
    by (simp add: create_window_def std_env_def) (simp add: mem_client_def Let_def)
  then obtain f where create: "\<And>win l. run_state (create_window std_env mem_client capped_policy win) \<lparr>cluster = ?c [], log = l\<rparr> =
      (Inr (f win), \<lparr>cluster = ?c [f win], log = l\<rparr>)" by metis
  define g where "g = (\<lambda>win err now (s :: (memory, effect) sys). fst (fst (run_state (applyCapacityApplied std_env win err now) s)))"
  define h where "h = (\<lambda>win err now (s :: (memory, effect) sys). snd (fst (run_state (applyCapacityApplied std_env win err now) s)))"
  have cap: "run_state (applyCapacityApplied std_env win err now) s =
      ((g win err now s, h win err now s), s\<lparr>log := sys.log s @ [GaugeSet metric_CapacityApplyError (workload_labels win) (if err = None then 0 else 1)]\<rparr>)"
    for win err now and s :: "(memory, effect) sys"
    using applyCapacityApplied_run [of std_env win err now s] unfolding g_def h_def by fastforce
  have same: "window_is (h win err now s) = window_is win" "wst_phase (win_status (h win err now s)) = wst_phase (win_status win)" for win err now s
    using applyCapacityApplied_frame [OF cap [of win err now s]] by (auto intro!: window_is_cong)
  have put: "Update_WindowStatus mem_client v (?c [old]) = (Inr (old\<lparr>win_status := win_status v\<rparr>), ?c [old\<lparr>win_status := win_status v\<rparr>])"
    if "window_is v old" "wst_phase (win_status v) = WindowPhaseOpen" for v old
    using that by (simp add: mem_client_def put_window_def)
  have self: "window_is (v\<lparr>win_status := st\<rparr>) v" for v st by (simp add: window_is_def)
  show ?thesis
    by (simp add: ensureDeferredWindow_def unless_held_def run_and_then none defer_window_def defer_fresh_def Let_def create cap put same self run_emitf)
qed

theorem window_cap_respected_witness:
  "\<exists>ls' s'. run_state (workload_loop std_env mem_client capped_policy (MaxConcurrentWindowsOrDefault capped_policy) [web_workload]
       \<lparr>ls_active = 1, ls_deferred = 0, ls_errs = []\<rparr>) \<lparr>cluster = (web_cluster True [])\<lparr>mc_windows := []\<rparr>, log = []\<rparr> = (Inr ls', s') \<and>
     ls_deferred ls' = 1 \<and> ls_active ls' = 1 \<and> taken mem_client (cluster s') = {}"
proof -
  let ?s = "\<lparr>cluster = (web_cluster True [])\<lparr>mc_windows := []\<rparr>, log = [] :: effect list\<rparr>"
    and ?ls = "\<lparr>ls_active = 1, ls_deferred = 0, ls_errs = []\<rparr>"
  have none: "getWindow mem_client ((web_cluster True [])\<lparr>mc_windows := []\<rparr>) capped_policy web_workload = Inr None"
    by (simp add: getWindow_def mem_client_def)
  have one: "int32 1 = 1" by (simp add: int32_id in_int32_def)
  obtain s1 where def: "run_state (ensureDeferredWindow std_env mem_client capped_policy web_workload) ?s = (Inr (), s1)"
    using capped_deferral by blast
  obtain v s' where pub: "run_state (publishWorkloadMetrics std_env mem_client capped_policy web_workload) s1 = (v, s')" by fastforce
  have run: "run_state (workload_loop std_env mem_client capped_policy (MaxConcurrentWindowsOrDefault capped_policy) [web_workload]
      ?ls) ?s = (Inr (?ls\<lparr>ls_deferred := 1\<rparr>), s')"
    using none def pub one by (simp add: capped_cap workload_step_def run_and_then Let_def)
  have before: "taken mem_client (cluster ?s) = {}" by (simp add: taken_def mem_window_at)
  have cat: "foreign_catalog capped_policy"
    by (simp add: foreign_catalog_def capped_policy_def cordon_policy_def plain_policy_def)
  have "finite (taken mem_client (cluster s'))" "card (taken mem_client (cluster s')) = 0"
    using window_cap_respected [OF mem_slots_documented cat _ _ _ run] before by (simp_all add: capped_cap in_int32_def)
  then have "taken mem_client (cluster s') = {}" by simp
  with run show ?thesis by (intro exI [of _ "?ls\<lparr>ls_deferred := 1\<rparr>"] exI [of _ s']) simp
qed

end
