(* ===== verification/Compensation.thy ===== *)
theory Compensation
  imports Scale_Theorems
begin

text \<open>
  What is left of a plan when applying it fails half way: \<open>compensateApply\<close> restores the
  groups that were patched, from the baselines of the plan. For a fresh plan this undoes
  everything; for a plan on recorded baselines it takes away more than this apply had added.
\<close>


section \<open>Refused writes\<close>

text \<open>A patch that the server answers with an error has not been done.\<close>

definition refusals_documented :: "'w client \<Rightarrow> bool" where
  "refusals_documented c \<longleftrightarrow>
     (\<forall>g ns n patch w e w'. Patch_Unstructured c g ns n patch w = (Inl e, w') \<longrightarrow> Get_Unstructured c w' = Get_Unstructured c w)"

lemma mem_refusals: "refusals_documented mem_client"
  by (auto simp: refusals_documented_def mem_client_def split: option.splits)

lemma same_objects_field_value: "Get_Unstructured c w' = Get_Unstructured c w \<Longrightarrow> field_value E c w' = field_value E c w"
  by (rule ext) (simp add: field_value_def fb_get_def)

lemma refused_raw_patch:
  assumes "refusals_documented c" and "run_state (raw_patch E c verb gvk t patch) s = (Inl e, s')"
  shows "Get_Unstructured c (cluster s') = Get_Unstructured c (cluster s)"
proof -
  obtain r w where r: "Patch_Unstructured c gvk (tgt_namespace t) (tgt_name t) (JObject patch) (cluster s) = (r, w)" by fastforce
  with assms(2) obtain e' where "r = Inl e'" "cluster s' = w" by (auto simp: raw_patch_def split: sum.splits)
  with assms(1) r show ?thesis unfolding refusals_documented_def by blast
qed

lemma refused_PatchIntegers:
  assumes "refusals_documented c" and "run_state (PatchIntegers E c base paths values) s = (Inl e, s')"
  shows "field_value E c (cluster s') = field_value E c (cluster s)"
proof (cases "fb_get E c (cluster s) base")
  case (Inl x)
  with assms(2) have "s' = s" by (auto simp: PatchIntegers_def run_and_then split: if_splits)
  then show ?thesis by simp
next
  case (Inr x)
  obtain gvk obj path where x: "x = (gvk, obj, path)" by (cases x)
  obtain need patch where loop: "PatchIntegers_loop E obj values paths False [] = Inr (need, patch)"
    using PatchIntegers_loop_total [of E obj "values" paths False "[]"] by auto
  have "run_state (raw_patch E c ''patch'' gvk base patch) s = (Inl e, s')"
    using assms(2) Inr x loop by (auto simp: PatchIntegers_def run_and_then split: if_splits)
  from refused_raw_patch [OF assms(1) this] show ?thesis by (rule same_objects_field_value)
qed

lemma refused_PatchAnnotations:
  assumes "refusals_documented c" and "run_state (PatchAnnotations E c t anns) s = (Inl e, s')"
  shows "field_value E c (cluster s') = field_value E c (cluster s)"
proof (cases "s' = s")
  case False
  obtain gvk patch where "run_state (raw_patch E c ''stamp'' gvk t patch) s = (Inl e, s')"
    using assms(2) False by (auto simp: PatchAnnotations_def Let_def split: if_splits sum.splits)
  from refused_raw_patch [OF assms(1) this] show ?thesis by (rule same_objects_field_value)
qed simp


section \<open>Partly applied plans\<close>

text \<open>
  Every tracked field has the value it had in \<open>w0\<close>, or is a field of the groups \<open>gs\<close> and
  raised to \<open>d\<close>.
\<close>

definition partly :: "env \<Rightarrow> 'w client \<Rightarrow> Target set \<Rightarrow> int \<Rightarrow> 'w \<Rightarrow> scaleStep list list \<Rightarrow> 'w \<Rightarrow> bool" where
  "partly E c T d w0 gs w \<longleftrightarrow>
     (\<forall>t \<in> store_targets E c T. \<forall>i. field_value E c w0 t = Some i \<longrightarrow>
        field_value E c w t = Some i \<or> (\<exists>x \<in> set (concat gs). same_field (stp_target x) t) \<and> field_value E c w t = Some (max i d))"

lemma partly_refl: "partly E c T d w [] w"
  by (simp add: partly_def)

lemma partly_mono: "partly E c T d w0 gs w \<Longrightarrow> set gs \<subseteq> set hs \<Longrightarrow> partly E c T d w0 hs w"
  unfolding partly_def by fastforce

lemma partly_same: "partly E c T d w0 gs w \<Longrightarrow> field_value E c w' = field_value E c w \<Longrightarrow> partly E c T d w0 gs w'"
  by (simp add: partly_def)

lemma partly_raise:
  assumes "partly E c T d w0 gs w" and "field_updates E c T (raised_to d g) w w'"
  shows "partly E c T d w0 (gs @ [g]) w'"
  unfolding partly_def
proof (intro ballI allI impI)
  fix t i assume t: "t \<in> store_targets E c T" and i: "field_value E c w0 t = Some i"
  with assms(1) consider "field_value E c w t = Some i"
    | "\<exists>x \<in> set (concat gs). same_field (stp_target x) t" "field_value E c w t = Some (max i d)"
    unfolding partly_def by blast
  then show "field_value E c w' t = Some i \<or> (\<exists>x \<in> set (concat (gs @ [g])). same_field (stp_target x) t) \<and> field_value E c w' t = Some (max i d)"
  proof cases
    case 1
    from fs.updatesD [OF assms(2) t this] show ?thesis by (auto simp: raised_to_def)
  next
    case 2
    from fs.updatesD [OF assms(2) t this(2)] 2(1) show ?thesis by (auto simp: raised_to_def)
  qed
qed

text \<open>Groups of a fresh plan: on one object, tracked, to be lowered to the value in \<open>w0\<close>.\<close>

definition fresh_group :: "env \<Rightarrow> 'w client \<Rightarrow> Target set \<Rightarrow> int \<Rightarrow> 'w \<Rightarrow> scaleStep list \<Rightarrow> bool" where
  "fresh_group E c T d w0 g \<longleftrightarrow> g \<noteq> [] \<and> (\<forall>x \<in> set (tl g). same_step_object (hd g) x) \<and>
     (\<forall>x \<in> set g. stp_desired x = d \<and> stp_target x \<in> T \<and> field_value E c w0 (stp_target x) = Some (stp_baseline x) \<and> \<not> stp_skipDownscaling x)"

lemma fresh_group_consistent:
  assumes "fresh_group E c T d w0 g"
  shows "consistent (map step_action g)"
  unfolding consistent_def
proof (intro ballI impI)
  fix a b assume "a \<in> set (map step_action g)" "b \<in> set (map step_action g)" and same: "same_field (actionTarget a) (actionTarget b)"
  then obtain x y where x: "x \<in> set g" "a = step_action x" and y: "y \<in> set g" "b = step_action y" by auto
  then have "field_value E c w0 (stp_target x) = field_value E c w0 (stp_target y)"
    using same by (intro field_value_same_field) (simp add: step_action_fields)
  with x y assms show "sa_baseline a = sa_baseline b \<and> sa_skipDownscaling a = sa_skipDownscaling b" by (simp add: fresh_group_def)
qed

lemma fresh_group_tracked:
  assumes "nested_documented E" and "fresh_group E c T d w0 g"
  shows "tracked_group T (map step_action g)"
proof -
  have "in_int32 (stp_baseline x)" "stp_target x \<in> T" "same_field (actionTarget (step_action x)) (stp_target x)" if "x \<in> set g" for x
  proof -
    have x: "field_value E c w0 (stp_target x) = Some (stp_baseline x)" "stp_target x \<in> T" using that assms(2) by (simp_all add: fresh_group_def)
    then show "in_int32 (stp_baseline x)" "stp_target x \<in> T" using iffD1 [OF field_value_iff [OF assms(1)] x(1)] by auto
    show "same_field (actionTarget (step_action x)) (stp_target x)" by (simp add: step_action_field)
  qed
  moreover have "same_action_object (step_action (hd g)) (step_action x)" if "x \<in> set (tl g)" for x
    using that assms(2) by (simp add: fresh_group_def same_step_object_def same_action_object_def step_action_def actionTarget_scaleAction
        sameScaleObject_def)
  moreover have "g \<noteq> []" using assms(2) by (simp add: fresh_group_def)
  ultimately show ?thesis by (auto simp: tracked_group_def hd_map simp flip: map_tl)
qed

lemma partly_lower:
  assumes part: "partly E c T d w0 (g # gs) w" and fresh: "fresh_group E c T d w0 g"
    and low: "field_updates E c T (lowered (map step_action g)) w w'"
  shows "partly E c T d w0 gs w'"
  unfolding partly_def
proof (intro ballI allI impI)
  fix t i assume t: "t \<in> store_targets E c T" and i: "field_value E c w0 t = Some i"
  obtain v where v: "field_value E c w t = Some v" "v = i \<or> (\<exists>x \<in> set (concat (g # gs)). same_field (stp_target x) t) \<and> v = max i d"
    using part t i unfolding partly_def by blast
  have v': "field_value E c w' t = Some (lowered (map step_action g) t v)" by (rule fs.updatesD [OF low t v(1)])
  show "field_value E c w' t = Some i \<or> (\<exists>x \<in> set (concat gs). same_field (stp_target x) t) \<and> field_value E c w' t = Some (max i d)"
  proof (cases "\<exists>x \<in> set g. same_field (stp_target x) t")
    case True
    then obtain x where x: "x \<in> set g" "same_field (stp_target x) t" by blast
    then have "stp_baseline x = i" "\<not> stp_skipDownscaling x"
      using fresh i field_value_same_field [OF x(2), of E c w0] by (auto simp: fresh_group_def)
    moreover have "lowered (map step_action g) t v = (if sa_skipDownscaling (step_action x) then v else min v (sa_baseline (step_action x)))"
      using x by (intro lowered_member [OF fresh_group_consistent [OF fresh]]) (auto simp: step_action_field)
    ultimately have "lowered (map step_action g) t v = i" using v(2) by auto
    with v' show ?thesis by simp
  next
    case False
    then have "lowered (map step_action g) t v = v" by (intro lowered_other) (simp add: step_action_field)
    with v v' False show ?thesis by auto
  qed
qed

lemma restoreStepGroup_partly:
  assumes doc: "nested_documented E" "patch_documented c" "refusals_documented c"
    and part: "partly E c T d w0 (g # gs) (cluster s)" and fresh: "fresh_group E c T d w0 g"
    and run: "run_state (restoreStepGroup E c g) s = (r, s')"
  shows "partly E c T d w0 (if isl r then g # gs else gs) (cluster s')"
proof -
  note con = fresh_group_consistent [OF fresh] and tg = fresh_group_tracked [OF doc(1) fresh]
  have ne: "g \<noteq> []" using fresh by (simp add: fresh_group_def)
  with run have "run_state (restore_group E c (map step_action g)) s = (r, s')" by (simp add: restoreStepGroup_def)
  moreover have "map step_action g \<noteq> []" using ne by simp
  ultimately show ?thesis
  proof (cases rule: restore_group_cases)
    case (reads e)
    with part show ?thesis by simp
  next
    case (ints paths vals keys e)
    with partly_same [OF part refused_PatchIntegers [OF doc(3) ints(3)]] show ?thesis by simp
  next
    case (anns paths vals keys s1 ks e)
    have "partly E c T d w0 gs (cluster s1)" by (rule partly_lower [OF part fresh group_patch_lowers [OF anns(1) con tg anns(2)]])
    from partly_mono [OF partly_same [OF this refused_PatchAnnotations [OF doc(3) anns(3)]], of "g # gs"] anns(4)
    show ?thesis by auto
  next
    case (ok paths vals keys s1 ks)
    have "field_updates E c T (lowered (map step_action g)) (cluster s) (cluster s')"
      using fs.updates_trans [OF group_patch_lowers [OF ok(1) con tg ok(2)] PatchAnnotations_updates [OF ok(3) tracked_group_base [OF tg]]] .
    from partly_lower [OF part fresh this] ok(4) show ?thesis by simp
  qed
qed

text \<open>
  The server and the object let a group be restored: whenever the fields of the group can be
  read, restoring the group succeeds.
\<close>

definition restorable :: "env \<Rightarrow> 'w client \<Rightarrow> scaleStep list \<Rightarrow> bool" where
  "restorable E c g \<longleftrightarrow>
     (\<forall>s. (\<forall>x \<in> set g. field_value E c (cluster s) (stp_target x) \<noteq> None) \<longrightarrow> \<not> isl (fst (run_state (restoreStepGroup E c g) s)))"

lemma partly_readable:
  assumes "partly E c T d w0 gs w" and "store_targets E c T = T" and "fresh_group E c T d w0 g" and "x \<in> set g"
  shows "field_value E c w (stp_target x) \<noteq> None"
proof -
  have "stp_target x \<in> T" "field_value E c w0 (stp_target x) = Some (stp_baseline x)"
    using assms(3,4) by (simp_all add: fresh_group_def)
  with assms(1,2) have "field_value E c w (stp_target x) = Some (stp_baseline x) \<or> field_value E c w (stp_target x) = Some (max (stp_baseline x) d)"
    unfolding partly_def by blast
  then show ?thesis by auto
qed

text \<open>The compensation goes on after a failure, so only groups that cannot be restored stay raised.\<close>

lemma compensate_loop_partly:
  assumes doc: "nested_documented E" "patch_documented c" "refusals_documented c" and T: "store_targets E c T = T"
    and "partly E c T d w0 (gs @ hs) (cluster s)" and "\<forall>g \<in> set gs. fresh_group E c T d w0 g"
    and "run_state (compensate_loop E c gs first) s = (r, s')"
  shows "partly E c T d w0 (filter (\<lambda>g. \<not> restorable E c g) gs @ hs) (cluster s')"
  using assms(5-7)
proof (induction gs arbitrary: hs first s)
  case Nil
  then show ?case by simp
next
  case (Cons g gs)
  obtain r1 s1 where one: "run_state (restoreStepGroup E c g) s = (r1, s1)" by fastforce
  let ?first = "case r1 of Inl e \<Rightarrow> if first = None then Some e else first | Inr _ \<Rightarrow> first"
  have rest: "run_state (compensate_loop E c gs ?first) s1 = (r, s')" using Cons.prems(3) one by simp
  have fresh: "fresh_group E c T d w0 g" "\<forall>g \<in> set gs. fresh_group E c T d w0 g" using Cons.prems(2) by simp_all
  note part = restoreStepGroup_partly [OF doc Cons.prems(1) [unfolded append_Cons] fresh(1) one]
  show ?case
  proof (cases r1)
    case (Inl e)
    then have bad: "\<not> restorable E c g"
      using partly_readable [OF Cons.prems(1) T fresh(1)] one unfolding restorable_def by (metis fst_conv sum.disc(1))
    have "partly E c T d w0 (g # gs @ hs) (cluster s1)" using part Inl by simp
    then have "partly E c T d w0 (gs @ (g # hs)) (cluster s1)" by (rule partly_mono) auto
    from Cons.IH [OF this fresh(2) rest] have "partly E c T d w0 (filter (\<lambda>g. \<not> restorable E c g) gs @ g # hs) (cluster s')" .
    then show ?thesis by (rule partly_mono) (use bad in auto)
  next
    case (Inr u)
    then have "partly E c T d w0 (gs @ hs) (cluster s1)" using part by simp
    from Cons.IH [OF this fresh(2) rest] have "partly E c T d w0 (filter (\<lambda>g. \<not> restorable E c g) gs @ hs) (cluster s')" .
    then show ?thesis by (rule partly_mono) auto
  qed
qed


section \<open>A failed apply\<close>

lemma apply_failed_run: "run_state (apply_failed E c applied scaled e) s = (x, s') \<Longrightarrow> \<exists>r. run_state (compensateApply E c applied) s = (r, s')"
  by (auto simp: apply_failed_def split: prod.splits)

lemma apply_loop_failed_cases:
  assumes "run_state (apply_loop E c pn (g # gs) applied scaled) s = ((sc, Some e), s')"
  obtains (reads) r where "run_state (compensateApply E c applied) s = (r, s')"
    | (ints) paths vals e1 s1 r where "run_state (PatchIntegers E c (stp_target (hd g)) paths vals) s = (Inl e1, s1)"
        and "run_state (compensateApply E c applied) s1 = (r, s')"
    | (anns) paths vals stamp raised s1 s2 e2 s3 r where "group_reads E c (cluster s) g [] [] [] False = Inr (paths, vals, stamp, raised)"
        and "run_state (if mlen vals > 0 then PatchIntegers E c (stp_target (hd g)) paths vals else ok ()) s = (Inr (), s1)"
        and "cluster s2 = cluster s1" and "run_state (PatchAnnotations E c (stp_target (hd g)) stamp) s2 = (Inl e2, s3)"
        and "run_state (compensateApply E c (if mlen vals > 0 then applied @ [g] else applied)) s3 = (r, s')"
    | (later) paths vals stamp raised s1 s2 s3 scaled' where "group_reads E c (cluster s) g [] [] [] False = Inr (paths, vals, stamp, raised)"
        and "run_state (if mlen vals > 0 then PatchIntegers E c (stp_target (hd g)) paths vals else ok ()) s = (Inr (), s1)"
        and "cluster s2 = cluster s1"
        and "run_state (if mlen stamp > 0 then PatchAnnotations E c (stp_target (hd g)) stamp else ok ()) s2 = (Inr (), s3)"
        and "run_state (apply_loop E c pn gs (if mlen stamp > 0 \<or> mlen vals > 0 then applied @ [g] else applied) scaled') s3 = ((sc, Some e), s')"
proof (cases "group_reads E c (cluster s) g [] [] [] False")
  case (Inl x)
  with assms have "run_state (apply_failed E c applied scaled x) s = ((sc, Some e), s')" by (simp add: Let_def)
  then show thesis using apply_failed_run reads by blast
next
  case (Inr y)
  obtain paths vals stamp raised where y: "y = (paths, vals, stamp, raised)" by (cases y)
  obtain r1 s1 where r1: "run_state (if mlen vals > 0 then PatchIntegers E c (stp_target (hd g)) paths vals else ok ()) s = (r1, s1)"
    by fastforce
  show thesis
  proof (cases r1)
    case (Inl e1)
    with r1 have patch: "run_state (PatchIntegers E c (stp_target (hd g)) paths vals) s = (Inl e1, s1)" by (auto split: if_splits)
    have "run_state (apply_failed E c applied scaled (wrapBackendErr (stp_target (hd g)) e1)) s1 = ((sc, Some e), s')"
      using assms Inr y r1 Inl by (simp add: Let_def)
    then show thesis using apply_failed_run ints [OF patch] by blast
  next
    case ok: (Inr u)
    define up where "up = (mlen vals > 0 \<and> raised)"
    define s2 where "s2 = (if up
       then snd (run_state (emit (CounterInc metric_ScaleActions [pn, ''up'', metricBackend (hd g), ''ok''])) s1) else s1)"
    have c2: "cluster s2 = cluster s1" by (simp add: s2_def)
    obtain r3 s3 where r3: "run_state (if mlen stamp > 0 then PatchAnnotations E c (stp_target (hd g)) stamp else ok ()) s2 = (r3, s3)"
      by fastforce
    have rest: "(case r3 of
        Inl e \<Rightarrow> run_state (apply_failed E c (if mlen vals > 0 then applied @ [g] else applied) (scaled \<or> up)
            (wrapBackendErr (stp_target (hd g)) e)) s3
      | Inr _ \<Rightarrow> run_state (apply_loop E c pn gs
            (if mlen stamp > 0 \<or> mlen vals > 0 then applied @ [g] else applied) (scaled \<or> up)) s3) = ((sc, Some e), s')"
      using assms Inr y r1 ok r3 by (cases "mlen stamp > 0"; cases r3) (auto simp: Let_def s2_def up_def split: if_splits)
    note reads_ok = Inr [unfolded y] and ints_ok = r1 [unfolded ok]
    show thesis
    proof (cases r3)
      case (Inl e2)
      with r3 have patch: "run_state (PatchAnnotations E c (stp_target (hd g)) stamp) s2 = (Inl e2, s3)" by (auto split: if_splits)
      from rest Inl obtain r where "run_state (compensateApply E c (if mlen vals > 0 then applied @ [g] else applied)) s3 = (r, s')"
        using apply_failed_run by (metis sum.case(1))
      with ints_ok show thesis by (intro anns [OF reads_ok _ c2 patch]) simp_all
    next
      case (Inr v)
      with rest r3 ints_ok show thesis by (intro later [OF reads_ok _ c2]) simp_all
    qed
  qed
qed

lemma apply_loop_failed:
  assumes doc: "refusals_documented c" and d: "in_int32 d"
    and "partly E c T d w0 applied (cluster s)" and "\<forall>g \<in> set gs. fresh_group E c T d w0 g"
    and "run_state (apply_loop E c pn gs applied scaled) s = ((sc, Some e), s')"
  shows "\<exists>hs s1 r. set hs \<subseteq> set (applied @ gs) \<and> partly E c T d w0 hs (cluster s1) \<and> run_state (compensateApply E c hs) s1 = (r, s')"
  using assms(3-5)
proof (induction gs arbitrary: applied scaled s)
  case (Cons g gs)
  have g: "\<forall>x \<in> set g. stp_desired x = d" "g \<noteq> []" "\<forall>x \<in> set (tl g). same_step_object (hd g) x" "stp_target ` set g \<subseteq> T"
    using Cons.prems(2) by (auto simp: fresh_group_def)
  then have "stp_target (hd g) \<in> T" by auto
  then have base: "\<exists>u \<in> T. same_object (stp_target (hd g)) u" using same_object_refl by blast
  from Cons.prems(3) show ?case
  proof (cases rule: apply_loop_failed_cases)
    case (reads r)
    with Cons.prems(1) show ?thesis by (intro exI [of _ applied] exI [of _ s] exI [of _ r]) auto
  next
    case (ints paths vals e1 s1 r)
    with partly_same [OF Cons.prems(1) refused_PatchIntegers [OF doc ints(1)]] show ?thesis
      by (intro exI [of _ applied] exI [of _ s1] exI [of _ r]) auto
  next
    case (anns paths vals stamp raised s1 s2 e2 s3 r)
    let ?hs = "if mlen vals > 0 then applied @ [g] else applied"
    have "partly E c T d w0 (applied @ [g]) (cluster s1)"
      by (rule partly_raise [OF Cons.prems(1) group_patch_raises [OF anns(1) g(1) d g(2,3,4) anns(2)]])
    moreover have "s1 = s" if "\<not> mlen vals > 0" using anns(2) that by simp
    ultimately have "partly E c T d w0 ?hs (cluster s2)" using Cons.prems(1) anns(3) by simp
    from partly_same [OF this refused_PatchAnnotations [OF doc anns(4)]] anns(5) show ?thesis
      by (intro exI [of _ ?hs] exI [of _ s3] exI [of _ r]) auto
  next
    case (later paths vals stamp raised s1 s2 s3 scaled')
    let ?hs = "if mlen stamp > 0 \<or> mlen vals > 0 then applied @ [g] else applied"
    have one: "field_updates E c T (raised_to d g) (cluster s) (cluster s1)" by (rule group_patch_raises [OF later(1) g(1) d g(2,3,4) later(2)])
    have "field_updates E c T (\<lambda>_ i. i) (cluster s1) (cluster s3)"
      using later(4) PatchAnnotations_updates [OF _ base, of E c _ s2 s3] fs.updates_refl
      unfolding later(3) [symmetric] by (auto split: if_splits)
    from partly_raise [OF Cons.prems(1) fs.updates_trans [OF one this]] have "partly E c T d w0 (applied @ [g]) (cluster s3)" .
    moreover have "cluster s3 = cluster s" if "\<not> (mlen stamp > 0 \<or> mlen vals > 0)" using later(2-4) that by simp
    ultimately have "partly E c T d w0 ?hs (cluster s3)" using Cons.prems(1) by auto
    from Cons.IH [OF this _ later(5)] Cons.prems(2) obtain hs s1 r where hs: "set hs \<subseteq> set (?hs @ gs)"
        "partly E c T d w0 hs (cluster s1)" "run_state (compensateApply E c hs) s1 = (r, s')" by auto
    then show ?thesis by (intro exI [of _ hs] exI [of _ s1] exI [of _ r]) (auto split: if_splits)
  qed
qed simp


section \<open>Example\<close>

text \<open>An autoscaler, and a pool whose patches the server refuses.\<close>

definition pool_refused :: goerror where
  "pool_refused = StatusError ReasonInvalid ''quota'' None"

definition quota_client :: "memory client" where
  "quota_client = mem_client\<lparr>Patch_Unstructured := (\<lambda>g ns n patch m.
     if snd (snd g) = ''Pool'' then (Inl pool_refused, m) else Patch_Unstructured mem_client g ns n patch m)\<rparr>"

definition size_target :: Target where
  "size_target = pool_target\<lparr>tgt_defaultWhenUnset := None\<rparr>"

definition two_store :: "int \<Rightarrow> int \<Rightarrow> memory" where
  "two_store lo sz = (hpa_memory lo 10)\<lparr>mc_objects :=
     [(((''autoscaling'', ''v2'', ''HorizontalPodAutoscaler''), ''shop'', ''web''), hpa_object lo 10),
      (((''example.com'', ''v1'', ''Pool''), ''shop'', ''web''), JObject [(''spec'', JObject [(''size'', JInt sz)])])]\<rparr>"

definition two_policy :: EvictionGuardPolicy where
  "two_policy = (plain_policy ''p'')\<lparr>pol_spec := (pol_spec (plain_policy ''p''))\<lparr>spec_backends :=
     [(''hpa'', \<lparr>be_apiVersion = ''autoscaling/v2'', be_kind = ''HorizontalPodAutoscaler'',
        be_patches = [\<lparr>bp_path = ''spec.minReplicas'', bp_annotation = []\<rparr>], be_skipDownscaling = False, be_defaultWhenUnset = None\<rparr>),
      (''pool'', \<lparr>be_apiVersion = ''example.com/v1'', be_kind = ''Pool'',
        be_patches = [\<lparr>bp_path = ''spec.size'', bp_annotation = []\<rparr>], be_skipDownscaling = False, be_defaultWhenUnset = None\<rparr>)]\<rparr>\<rparr>"

definition two_deployment :: Deployment where
  "two_deployment = plain_deployment\<lparr>dep_annotations := [(ScaleBackendAnnotation, ''hpa,pool'')]\<rparr>"

definition two_step :: "string \<Rightarrow> Target \<Rightarrow> int \<Rightarrow> int \<Rightarrow> scaleStep" where
  "two_step key t b d =
     \<lparr>stp_key = key, stp_target = t, stp_baseline = b, stp_desired = d, stp_stamp = [], stp_stampKeys = [], stp_skipDownscaling = False\<rparr>"

definition two_plan :: "int \<Rightarrow> int \<Rightarrow> int \<Rightarrow> scalePlan" where
  "two_plan b sz d =
     \<lparr>plan_steps = [two_step ''hpa'' (hpa_target ''spec.minReplicas'') b d, two_step ''pool'' size_target sz d],
      plan_primaryBaseline = b, plan_desired = d\<rparr>"

lemma quota_gets [simp]: "Get_Unstructured quota_client = Get_Unstructured mem_client"
  by (simp add: quota_client_def)

lemma quota_patches [simp]:
  "Patch_Unstructured quota_client g ns n patch m =
     (if snd (snd g) = ''Pool'' then (Inl pool_refused, m) else Patch_Unstructured mem_client g ns n patch m)"
  by (simp add: quota_client_def)

lemma quota_documented: "patch_documented quota_client" "refusals_documented quota_client"
proof -
  show "patch_documented quota_client"
    using mem_patch_documented unfolding patch_documented_def by (simp add: split_paired_All)
  show "refusals_documented quota_client"
    using mem_refusals unfolding refusals_documented_def by (auto split: if_splits)
qed

lemma two_get:
  "fb_get std_env quota_client (two_store lo sz) (hpa_target p) =
     Inr ((''autoscaling'', ''v2'', ''HorizontalPodAutoscaler''), hpa_object lo 10, splitFieldPath p)"
  "fb_get std_env quota_client (two_store lo sz) size_target =
     Inr ((''example.com'', ''v1'', ''Pool''), JObject [(''spec'', JObject [(''size'', JInt sz)])], [''spec'', ''size''])"
proof -
  show "fb_get std_env quota_client (two_store lo sz) (hpa_target p) =
     Inr ((''autoscaling'', ''v2'', ''HorizontalPodAutoscaler''), hpa_object lo 10, splitFieldPath p)"
    by (simp add: fb_get_def hpa_target_def hpa_gvk mem_client_def two_store_def)
  have "parseAPIVersionKind std_env ''example.com/v1'' ''Pool'' = Inr (''example.com'', ''v1'', ''Pool'')"
    by (simp add: parseAPIVersionKind_def std_env_def)
  then show "fb_get std_env quota_client (two_store lo sz) size_target =
     Inr ((''example.com'', ''v1'', ''Pool''), JObject [(''spec'', JObject [(''size'', JInt sz)])], [''spec'', ''size''])"
    by (simp add: fb_get_iff size_target_def pool_target_def two_store_def mem_client_def splitFieldPath_def TrimPrefix_def HasPrefix_def)
qed

lemma two_values:
  "in_int32 lo \<Longrightarrow> field_value std_env quota_client (two_store lo sz) (hpa_target ''spec.minReplicas'') = Some lo"
  "in_int32 sz \<Longrightarrow> field_value std_env quota_client (two_store lo sz) size_target = Some sz"
  by (simp_all add: field_value_def two_get std_nested_int_def hpa_object_def)

lemma two_current:
  "in_int32 lo \<Longrightarrow> Current std_env quota_client (two_store lo sz) (hpa_target ''spec.minReplicas'') = Inr lo"
  "in_int32 sz \<Longrightarrow> Current std_env quota_client (two_store lo sz) size_target = Inr sz"
  by (rule Current_field_value, erule two_values)+

lemma two_patch:
  assumes "in_int32 lo" and "lo \<noteq> d"
  shows "run_state (PatchIntegers std_env quota_client (hpa_target ''spec.minReplicas'') [''spec.minReplicas''] [(''spec.minReplicas'', d)])
      \<lparr>cluster = two_store lo sz, log = l\<rparr> = (Inr (), \<lparr>cluster = two_store d sz, log = l\<rparr>)"
proof -
  have "already std_env (hpa_object lo 10) [''spec'', ''minReplicas''] d = False"
    using assms by (simp add: already_def std_nested_int_def hpa_object_def int32_id)
  then show ?thesis
    by (simp add: PatchIntegers_def run_and_then two_get raw_patch_def)
      (simp add: mem_client_def two_store_def hpa_store_def hpa_target_def hpa_object_def)
qed

lemma two_refused:
  assumes "in_int32 sz" and "sz \<noteq> d"
  shows "\<exists>e. run_state (PatchIntegers std_env quota_client size_target [''spec.size''] [(''spec.size'', d)])
      \<lparr>cluster = two_store lo sz, log = l\<rparr> = (Inl e, \<lparr>cluster = two_store lo sz, log = l\<rparr>)"
proof -
  have "already std_env (JObject [(''spec'', JObject [(''size'', JInt sz)])]) [''spec'', ''size''] d = False"
    using assms by (simp add: already_def std_nested_int_def int32_id)
  moreover have "splitFieldPath ''spec.size'' = [''spec'', ''size'']"
    by (simp add: splitFieldPath_def TrimPrefix_def HasPrefix_def)
  ultimately show ?thesis by (simp add: PatchIntegers_def run_and_then two_get raw_patch_def)
qed

text \<open>The autoscaler is raised, the pool refuses, and the autoscaler falls to its baseline.\<close>

lemma two_apply:
  assumes "in_int32 lo" and "in_int32 b" and "lo < d" and "b < d" and "in_int32 d" and "in_int32 sz" and "sz < d"
  shows "\<exists>e l. run_state (plan_apply std_env quota_client (two_plan b sz0 d) ''p'') \<lparr>cluster = two_store lo sz, log = l0\<rparr> =
     ((True, Some e), \<lparr>cluster = two_store b sz, log = l\<rparr>)"
proof -
  let ?x = "two_step ''hpa'' (hpa_target ''spec.minReplicas'') b d" and ?y = "two_step ''pool'' size_target sz0 d"
  have groups: "groups_by same_step_object (plan_steps (two_plan b sz0 d)) = [[?x], [?y]]"
    by (simp add: two_plan_def same_step_object_def two_step_def sameScaleObject_def hpa_target_def size_target_def pool_target_def)
  have len: "mlen [(p :: string, d)] = 1" "mlen ([] :: strmap) = 0" for p by (simp_all add: mlen_def mkeys_def)
  have tgt: "actionTarget (step_action ?x) = hpa_target ''spec.minReplicas''" "sa_skipDownscaling (step_action ?x) = False"
    "sa_stampKeys (step_action ?x) = []"
    by (simp_all add: step_action_def actionTarget_def scaleAction_def two_step_def hpa_target_def)
  have sz: "tgt_fieldPath size_target = ''spec.size''" by (simp add: size_target_def pool_target_def)
  have undone: "run_state (restoreStepGroup std_env quota_client [?x]) \<lparr>cluster = two_store d sz, log = l\<rparr> =
      (Inr (), \<lparr>cluster = two_store b sz, log = l\<rparr>)" for l
    using assms by (simp add: restoreStepGroup_def restore_group_def restoreOneAction_def Let_def tgt two_current ScaleDown_def
        fb_patch_PatchIntegers two_patch StampDeletes_def PatchAnnotations_def) (simp add: two_step_def two_patch)
  obtain f where refused: "\<And>l. run_state (PatchIntegers std_env quota_client size_target [''spec.size''] [(''spec.size'', d)])
      \<lparr>cluster = two_store d sz, log = l\<rparr> = (Inl (f l), \<lparr>cluster = two_store d sz, log = l\<rparr>)"
    using two_refused [of sz d d] assms(6,7) by (metis less_irrefl)
  show ?thesis
    using assms
    by (auto simp: plan_apply_def groups two_step_def Let_def two_current two_patch len sz apply_failed_def compensateApply_def
        undone [unfolded two_step_def] refused)
qed

lemma two_plans:
  assumes "in_int32 lo" and "in_int32 sz" and "TargetReplicas (case findAction ex ''hpa'' (hpa_target ''spec.minReplicas'') of None \<Rightarrow> lo | Some a \<Rightarrow> sa_baseline a) atRisk (SpareReplicasOrDefault two_policy) (MaxBufferOrDefault two_policy) = d"
  shows "buildPlan std_env quota_client (two_store lo sz) (Some two_policy) (Some two_deployment) atRisk ex sticky =
     Inr (two_plan (case findAction ex ''hpa'' (hpa_target ''spec.minReplicas'') of None \<Rightarrow> lo | Some a \<Rightarrow> sa_baseline a)
       (case findAction ex ''pool'' size_target of None \<Rightarrow> sz | Some a \<Rightarrow> sa_baseline a) d)"
proof -
  let ?bs = "[\<lparr>bind_key = ''hpa'', bind_namespace = ''shop'', bind_name = ''web''\<rparr>, \<lparr>bind_key = ''pool'', bind_namespace = ''shop'', bind_name = ''web''\<rparr>]"
  have "mlen (spec_backends (pol_spec two_policy)) \<noteq> 0" by (simp add: two_policy_def mlen_def mkeys_def)
  moreover have "BindingsForWorkload (Some two_deployment) (Some two_policy) = Inr ?bs"
    by (simp add: BindingsForWorkload_def two_deployment_def plain_deployment_def ParseBindings_def splitBinding_def
        TrimSpace_no_space is_space_def)
  moreover have "ResolveCatalog (Some two_deployment) (Some two_policy) ?bs =
      Inr [\<lparr>rstep_key = ''hpa'', rstep_target = hpa_target ''spec.minReplicas'', rstep_annotations = [], rstep_skipDownscaling = False\<rparr>,
         \<lparr>rstep_key = ''pool'', rstep_target = size_target, rstep_annotations = [], rstep_skipDownscaling = False\<rparr>]"
    by (simp add: ResolveCatalog_def two_policy_def mlen_def mkeys_def splitPatches_def binding_step_def hpa_target_def size_target_def pool_target_def)
  moreover have "resolveStamp two_policy (Some two_deployment) =
      \<lparr>rs_enabled = False, rs_scaledTo = StampScaledToKey, rs_baseline = StampBaselineKey, rs_active = StampActiveKey,
       rs_windowUntil = StampWindowUntilKey\<rparr>"
    by (simp add: resolveStamp_def two_deployment_def two_policy_def plain_policy_def pickKey_def go_simps)
  ultimately show ?thesis
    using assms
    by (simp add: buildPlan_def step_baseline_def two_current Let_def step_of_def stamp_values_def stamp_keys_def uniqueStrings_def
        empty_plan_def two_plan_def two_step_def split: option.splits)
qed

text \<open>The server lets the autoscaler be restored, whatever its value.\<close>

lemma quota_ScaleDown:
  assumes "fb_get std_env quota_client (cluster s) (hpa_target p) = Inr x"
  shows "\<not> isl (fst (run_state (ScaleDown std_env quota_client (hpa_target p) b) s))"
proof -
  obtain obj where obj: "x = ((''autoscaling'', ''v2'', ''HorizontalPodAutoscaler''), obj, splitFieldPath p)"
    and get: "map_of (mc_objects (cluster s)) ((''autoscaling'', ''v2'', ''HorizontalPodAutoscaler''), ''shop'', ''web'') = Some obj"
    using assms by (auto simp: fb_get_def hpa_target_def hpa_gvk mem_client_def or_not_found_def split: option.splits)
  obtain patch where "setNested [] (JInt b) (splitFieldPath p) = Inr patch"
    using setNested_total [of "splitFieldPath p"] by fastforce
  with assms obj get show ?thesis
    by (simp add: ScaleDown_def fb_patch_def run_and_then raw_patch_def hpa_target_def mem_client_def)
qed

lemma two_restorable: "restorable std_env quota_client [two_step ''hpa'' (hpa_target ''spec.minReplicas'') b d]"
  unfolding restorable_def
proof (intro allI impI)
  fix s :: "(memory, effect) sys"
  let ?x = "two_step ''hpa'' (hpa_target ''spec.minReplicas'') b d" and ?t = "hpa_target ''spec.minReplicas''"
  assume "\<forall>x \<in> set [?x]. field_value std_env quota_client (cluster s) (stp_target x) \<noteq> None"
  then obtain i where i: "field_value std_env quota_client (cluster s) ?t = Some i" by (auto simp: two_step_def)
  then obtain x where "fb_get std_env quota_client (cluster s) ?t = Inr x" by (auto simp: field_value_def split: sum.splits)
  note down = quota_ScaleDown [OF this]
  have tgt: "actionTarget (step_action ?x) = ?t" "sa_skipDownscaling (step_action ?x) = False" "sa_stampKeys (step_action ?x) = []"
    by (simp_all add: step_action_def actionTarget_def scaleAction_def two_step_def hpa_target_def)
  obtain r s1 where "run_state (ScaleDown std_env quota_client ?t (sa_baseline (step_action ?x))) s = (r, s1)" by fastforce
  with down [of "sa_baseline (step_action ?x)"] show "\<not> isl (fst (run_state (restoreStepGroup std_env quota_client [?x]) s))"
    by (cases r) (simp_all add: restoreStepGroup_def restore_group_def restoreOneAction_def Let_def tgt Current_field_value [OF i]
        StampDeletes_def PatchAnnotations_def)
qed


section \<open>Properties\<close>

text \<open>
  C13. A failed apply is rolled back. When applying a fresh plan without \<open>skipDownscaling\<close>
  fails at any of its reads and writes, every tracked field ends with the value it had
  before; only the fields of an object whose restore can fail, too, may be left at the value
  they were raised to. A failing restore of one object does not keep the others raised.
\<close>

theorem failed_apply_rolls_back:
  assumes "nested_documented E" and "patch_documented c" and "refusals_documented c" and "separated T"
    and "buildPlan E c (cluster s) pol dep atRisk [] sticky = Inr p" and "stp_target ` set (plan_steps p) \<subseteq> T"
    and "\<forall>x \<in> set (plan_steps p). field_value E c (cluster s) (stp_target x) \<noteq> None \<and> \<not> stp_skipDownscaling x"
    and "run_state (plan_apply E c p policyName) s = ((scaled, Some e), s')"
  shows "\<forall>t \<in> T. \<forall>i. field_value E c (cluster s) t = Some i \<longrightarrow>
     field_value E c (cluster s') t = Some i \<or>
     field_value E c (cluster s') t = Some (max i (plan_desired p)) \<and>
     (\<exists>g \<in> set (groups_by same_step_object (plan_steps p)). \<not> restorable E c g \<and> (\<exists>x \<in> set g. same_field (stp_target x) t))"
proof -
  let ?gs = "groups_by same_step_object (plan_steps p)" and ?d = "plan_desired p"
  have ne: "plan_steps p \<noteq> []" using assms(8) by (auto simp: plan_apply_def)
  then have "hd (plan_steps p) \<in> set (plan_steps p)" by simp
  with buildPlan_uniform [OF assms(5)] have d: "in_int32 ?d" by blast
  have base: "field_value E c (cluster s) (stp_target x) = Some (stp_baseline x)" if "x \<in> set (plan_steps p)" for x
    using assms(7) that Current_field_value buildPlan_fresh_baseline [OF assms(5) that] by (metis Inr_inject not_Some_eq)
  have fresh: "\<forall>g \<in> set ?gs. fresh_group E c T ?d (cluster s) g"
  proof
    fix g assume g: "g \<in> set ?gs"
    then have "set g \<subseteq> set (concat ?gs)" by auto
    then have sub: "set g \<subseteq> set (plan_steps p)" by (simp only: concat_groups_by)
    have "stp_desired x = ?d \<and> stp_target x \<in> T \<and> field_value E c (cluster s) (stp_target x) = Some (stp_baseline x) \<and> \<not> stp_skipDownscaling x"
      if "x \<in> set g" for x
      using subsetD [OF sub that] assms(6,7) base buildPlan_uniform [OF assms(5)] by blast
    with groups_by_member [OF g] show "fresh_group E c T ?d (cluster s) g" by (simp add: fresh_group_def)
  qed
  from apply_loop_failed [OF assms(3) d partly_refl fresh assms(8) [unfolded plan_apply_def]]
  obtain hs s1 r where hs: "set hs \<subseteq> set ?gs" "partly E c T ?d (cluster s) hs (cluster s1)" "run_state (compensateApply E c hs) s1 = (r, s')"
    by auto
  have T: "store_targets E c T = T" using assms(1,2,4) by (simp add: store_targets_def)
  have "partly E c T ?d (cluster s) (rev hs @ []) (cluster s1)" using hs(2) by (rule partly_mono) simp
  moreover have "\<forall>g \<in> set (rev hs). fresh_group E c T ?d (cluster s) g" using hs(1) fresh by auto
  ultimately have "partly E c T ?d (cluster s) (filter (\<lambda>g. \<not> restorable E c g) (rev hs) @ []) (cluster s')"
    using compensate_loop_partly [OF assms(1-3) T _ _ hs(3) [unfolded compensateApply_def]] by blast
  then have "partly E c T ?d (cluster s) (filter (\<lambda>g. \<not> restorable E c g) ?gs) (cluster s')"
    by (rule partly_mono) (use hs(1) in auto)
  then show ?thesis unfolding partly_def T by fastforce
qed

theorem failed_apply_rolls_back_witness:
  "\<exists>p e s'. buildPlan std_env quota_client (two_store 3 4) (Some two_policy) (Some two_deployment) 2 [] 0 = Inr p \<and>
     run_state (plan_apply std_env quota_client p ''p'') \<lparr>cluster = two_store 3 4, log = []\<rparr> = ((True, Some e), s') \<and>
     field_value std_env quota_client (cluster s') (hpa_target ''spec.minReplicas'') = Some 3"
proof -
  let ?T = "{hpa_target ''spec.minReplicas'', size_target}" and ?s = "\<lparr>cluster = two_store 3 4, log = []\<rparr>"
  have "TargetReplicas 3 2 (SpareReplicasOrDefault two_policy) (MaxBufferOrDefault two_policy) = 5"
    by (simp add: TargetReplicas_def two_policy_def plain_policy_def go_simps int32_id in_int32_def)
  then have plan: "buildPlan std_env quota_client (two_store 3 4) (Some two_policy) (Some two_deployment) 2 [] 0 = Inr (two_plan 3 4 5)"
    using two_plans [of 3 4 "[]" 2 5 0] by (simp add: findAction_def in_int32_def)
  obtain e l where run: "run_state (plan_apply std_env quota_client (two_plan 3 4 5) ''p'') ?s = ((True, Some e), \<lparr>cluster = two_store 3 4, log = l\<rparr>)"
    using two_apply [of 3 3 5 4 4 "[]"] by (auto simp: in_int32_def)
  have sep: "separated ?T"
    by (auto simp: separated_def hpa_target_def size_target_def pool_target_def under_spec_def same_object_def other_object_def parallel_def
        splitFieldPath_def TrimPrefix_def HasPrefix_def)
  have vals: "field_value std_env quota_client (cluster ?s) (hpa_target ''spec.minReplicas'') = Some 3"
    "field_value std_env quota_client (cluster ?s) size_target = Some 4"
    by (simp_all add: two_values in_int32_def)
  have steps: "stp_target ` set (plan_steps (two_plan 3 4 5)) \<subseteq> ?T"
    "\<forall>x \<in> set (plan_steps (two_plan 3 4 5)). field_value std_env quota_client (cluster ?s) (stp_target x) \<noteq> None \<and> \<not> stp_skipDownscaling x"
    using vals by (simp_all add: two_plan_def two_step_def)
  have groups: "groups_by same_step_object (plan_steps (two_plan 3 4 5)) =
      [[two_step ''hpa'' (hpa_target ''spec.minReplicas'') 3 5], [two_step ''pool'' size_target 4 5]]"
    by (simp add: two_plan_def same_step_object_def two_step_def sameScaleObject_def hpa_target_def size_target_def pool_target_def)
  have other: "\<not> same_field size_target (hpa_target ''spec.minReplicas'')"
    by (simp add: same_field_def same_object_def hpa_target_def size_target_def pool_target_def)
  have "buildPlan std_env quota_client (cluster ?s) (Some two_policy) (Some two_deployment) 2 [] 0 = Inr (two_plan 3 4 5)" using plan by simp
  from failed_apply_rolls_back [OF std_env_nested quota_documented sep this steps run] vals(1) two_restorable other
  have "field_value std_env quota_client (cluster \<lparr>cluster = two_store 3 4, log = l\<rparr>) (hpa_target ''spec.minReplicas'') = Some 3"
    unfolding groups by (auto simp: two_step_def)
  with plan run show ?thesis by blast
qed

text \<open>
  C24. A failed re-apply takes away the spare capacity that is held. The autoscaler stands at
  5, raised earlier from its recorded baseline 3. A third pod comes at risk, the plan wants 6,
  and the second object refuses its patch: the compensation lowers the autoscaler to the
  recorded baseline 3, not to the 5 it had before this call.
\<close>

theorem failed_reapply_drops_capacity:
  "\<exists>p e s'. buildPlan std_env quota_client (two_store 5 5) (Some two_policy) (Some two_deployment) 3
       (plan_actions (two_plan 3 4 5) []) 3 = Inr p \<and>
     field_value std_env quota_client (two_store 5 5) (hpa_target ''spec.minReplicas'') = Some 5 \<and>
     run_state (plan_apply std_env quota_client p ''p'') \<lparr>cluster = two_store 5 5, log = []\<rparr> = ((True, Some e), s') \<and>
     field_value std_env quota_client (cluster s') (hpa_target ''spec.minReplicas'') = Some 3"
proof -
  have "findAction (plan_actions (two_plan 3 4 5) []) ''hpa'' (hpa_target ''spec.minReplicas'') =
      Some (step_action (two_step ''hpa'' (hpa_target ''spec.minReplicas'') 3 5))"
    "findAction (plan_actions (two_plan 3 4 5) []) ''pool'' size_target = Some (step_action (two_step ''pool'' size_target 4 5))"
    by (simp_all add: findAction_def plan_actions_def mergeActions_def two_plan_def two_step_def step_action_def scaleAction_def actionKey_def)
  moreover have "TargetReplicas 3 3 (SpareReplicasOrDefault two_policy) (MaxBufferOrDefault two_policy) = 6"
    by (simp add: TargetReplicas_def two_policy_def plain_policy_def go_simps int32_id in_int32_def)
  ultimately have plan: "buildPlan std_env quota_client (two_store 5 5) (Some two_policy) (Some two_deployment) 3
      (plan_actions (two_plan 3 4 5) []) 3 = Inr (two_plan 3 4 6)"
    using two_plans [of 5 5 "plan_actions (two_plan 3 4 5) []" 3 6 3] by (simp add: in_int32_def two_step_def)
  obtain e l where run: "run_state (plan_apply std_env quota_client (two_plan 3 4 6) ''p'') \<lparr>cluster = two_store 5 5, log = []\<rparr> =
      ((True, Some e), \<lparr>cluster = two_store 3 5, log = l\<rparr>)"
    using two_apply [of 5 3 6 5 4 "[]"] by (auto simp: in_int32_def)
  show ?thesis
    using plan run two_values(1) [of 5 5] two_values(1) [of 3 5]
    by (intro exI [of _ "two_plan 3 4 6"] exI [of _ e] exI [of _ "\<lparr>cluster = two_store 3 5, log = l\<rparr>"]) (simp add: in_int32_def)
qed

end
