(* ===== verification/Manager_Setup.thy ===== *)
theory Manager_Setup
  imports Indexes
begin

text \<open>
  The start of the process: \<open>main\<close> of \<open>cmd/main.go\<close>, the \<open>SetupWithManager\<close> functions of the
  two controllers and the webhooks, and the guarded registration of the field indexes in
  \<open>internal/controller/indexes.go\<close>. The manager of controller-runtime is a parameter: it
  answers every call with an error or none, depending on all the calls before. The state of
  the process is the list of the calls made so far and the package variables of \<open>indexes.go\<close>
  (a \<open>sync.Once\<close> is the flag whether it has run). Flags are taken as parsed; log lines are
  not modelled.
\<close>


section \<open>Definitions\<close>

subsection \<open>The manager and the process\<close>

record mainFlags =
  metricsAddr :: string
  probeAddr :: string
  enableLeaderElection :: bool
  webhookEnabled :: bool
  webhookCertDir :: string

text \<open>The defaults of the flags.\<close>

definition default_flags :: mainFlags where
  "default_flags =
     \<lparr>metricsAddr = '':8080'', probeAddr = '':8081'', enableLeaderElection = True, webhookEnabled = True, webhookCertDir = []\<rparr>"

record mgrOptions =
  opt_BindAddress :: string
  opt_HealthProbeBindAddress :: string
  opt_LeaderElection :: bool
  opt_LeaderElectionID :: string
  opt_WebhookServer :: "(int \<times> string) option"

record watch =
  watch_object :: string
  watch_handler :: string
  watch_predicate :: "string option"

datatype mgr_call =
    GetConfigOrDie
  | NewManager mgrOptions
  | IndexPods string "Pod \<Rightarrow> string list"
  | IndexWindows string "EvictionGuardWindow \<Rightarrow> string list"
  | CompleteController string "string list" "watch list"
  | RegisterHandler string
  | AddHealthzCheck string
  | AddReadyzCheck string
  | StartManager

type_synonym manager = "mgr_call list \<Rightarrow> mgr_call \<Rightarrow> goerror option"

record process =
  mgr_calls :: "mgr_call list"
  podIndexesOnce :: bool
  podIndexesErr :: "goerror option"
  windowIndexesOnce :: bool
  windowIndexesErr :: "goerror option"

type_synonym 'a proc = "(process, 'a) state"

definition new_process :: process where
  "new_process = \<lparr>mgr_calls = [], podIndexesOnce = False, podIndexesErr = None, windowIndexesOnce = False, windowIndexesErr = None\<rparr>"

definition invoke :: "manager \<Rightarrow> mgr_call \<Rightarrow> goerror option proc" where
  "invoke M call = State (\<lambda>p. (M (mgr_calls p) call, p\<lparr>mgr_calls := mgr_calls p @ [call]\<rparr>))"

text \<open>\<open>Register\<close> of the webhook server returns nothing.\<close>

definition registerHandler :: "string \<Rightarrow> unit proc" where
  "registerHandler path = State (\<lambda>p. ((), p\<lparr>mgr_calls := mgr_calls p @ [RegisterHandler path]\<rparr>))"

text \<open>The idiom \<open>if err := m; err != nil { return err }\<close>.\<close>

definition or_return :: "goerror option proc \<Rightarrow> goerror option proc \<Rightarrow> goerror option proc" where
  "or_return m k = State_Monad.bind m (\<lambda>err. case err of Some e \<Rightarrow> State_Monad.return (Some e) | None \<Rightarrow> k)"

subsection \<open>\<open>indexes.go\<close>\<close>

definition registerPodIndexes :: "manager \<Rightarrow> goerror option proc" where
  "registerPodIndexes M = State_Monad.bind State_Monad.get (\<lambda>p.
     if podIndexesOnce p then State_Monad.return (podIndexesErr p)
     else State_Monad.bind (invoke M (IndexPods ''spec.nodeName'' IndexPodNodeName)) (\<lambda>err.
       State_Monad.bind (State_Monad.update (\<lambda>p. p\<lparr>podIndexesErr := err, podIndexesOnce := True\<rparr>)) (\<lambda>_. State_Monad.return err)))"

definition index_windows :: "manager \<Rightarrow> goerror option proc" where
  "index_windows M =
     or_return (invoke M (IndexWindows ''spec.policyName'' IndexWindowPolicyName))
       (or_return (invoke M (IndexWindows ''spec.target'' IndexWindowWorkload))
         (invoke M (IndexWindows ''spec.vulnerableNodes'' IndexWindowVulnerableNode)))"

definition registerWindowIndexes :: "manager \<Rightarrow> goerror option proc" where
  "registerWindowIndexes M = State_Monad.bind State_Monad.get (\<lambda>p.
     if windowIndexesOnce p then State_Monad.return (windowIndexesErr p)
     else State_Monad.bind (index_windows M) (\<lambda>err.
       State_Monad.bind (State_Monad.update (\<lambda>p. p\<lparr>windowIndexesErr := err, windowIndexesOnce := True\<rparr>)) (\<lambda>_. State_Monad.return err)))"

subsection \<open>The \<open>SetupWithManager\<close> functions\<close>

definition policy_controller :: mgr_call where
  "policy_controller = CompleteController ''EvictionGuardPolicy'' [''EvictionGuardWindow'']
     [\<lparr>watch_object = ''Node'', watch_handler = ''nodePolicyHandler'', watch_predicate = Some ''nodeDisruptionPredicate''\<rparr>,
      \<lparr>watch_object = ''Pod'', watch_handler = ''mapPodToPolicies'', watch_predicate = Some ''podPolicyPredicate''\<rparr>]"

definition window_controller :: mgr_call where
  "window_controller = CompleteController ''EvictionGuardWindow'' []
     [\<lparr>watch_object = ''Node'', watch_handler = ''mapNode'', watch_predicate = None\<rparr>,
      \<lparr>watch_object = ''Deployment'', watch_handler = ''workloadToWindows'', watch_predicate = None\<rparr>,
      \<lparr>watch_object = ''Pod'', watch_handler = ''podToWindows'', watch_predicate = None\<rparr>]"

definition policy_SetupWithManager :: "manager \<Rightarrow> goerror option proc" where
  "policy_SetupWithManager M =
     or_return (registerPodIndexes M) (or_return (registerWindowIndexes M) (invoke M policy_controller))"

definition window_SetupWithManager :: "manager \<Rightarrow> goerror option proc" where
  "window_SetupWithManager M = or_return (registerWindowIndexes M) (invoke M window_controller)"

definition DeploymentPath :: string where "DeploymentPath = ''/validate-apps-v1-deployment''"
definition PolicyPath :: string where "PolicyPath = ''/validate-eviction-guard-io-v1alpha1-evictionguardpolicy''"
definition EvictionPath :: string where "EvictionPath = ''/validate-core-v1-eviction''"

definition registerEviction :: "unit proc" where
  "registerEviction = registerHandler EvictionPath"

definition webhook_SetupWithManager :: "goerror option proc" where
  "webhook_SetupWithManager =
     State_Monad.bind (registerHandler DeploymentPath) (\<lambda>_.
     State_Monad.bind (registerHandler PolicyPath) (\<lambda>_.
     State_Monad.bind registerEviction (\<lambda>_. State_Monad.return None)))"

subsection \<open>\<open>main\<close>\<close>

datatype main_result = Exit int | Returned

definition or_exit :: "goerror option proc \<Rightarrow> main_result proc \<Rightarrow> main_result proc" where
  "or_exit m k = State_Monad.bind m (\<lambda>err. case err of Some _ \<Rightarrow> State_Monad.return (Exit 1) | None \<Rightarrow> k)"

definition mgrOpts :: "mainFlags \<Rightarrow> mgrOptions" where
  "mgrOpts fl =
     \<lparr>opt_BindAddress = metricsAddr fl, opt_HealthProbeBindAddress = probeAddr fl, opt_LeaderElection = enableLeaderElection fl,
      opt_LeaderElectionID = ''eviction-guard.eviction-guard.io'',
      opt_WebhookServer = (if webhookEnabled fl then Some (9443, webhookCertDir fl) else None)\<rparr>"

text \<open>The ready check named \<open>cache\<close>, given whether the cache has synced.\<close>

definition cache_check :: "bool \<Rightarrow> goerror option" where
  "cache_check synced = (if \<not> synced then Some (ErrorString ''cache not synced'') else None)"

definition main :: "manager \<Rightarrow> mainFlags \<Rightarrow> main_result proc" where
  "main M fl =
     (if webhookEnabled fl \<and> webhookCertDir fl = [] then State_Monad.return (Exit 1)
      else or_exit (invoke M GetConfigOrDie)
          (or_exit (invoke M (NewManager (mgrOpts fl)))
          (or_exit (policy_SetupWithManager M)
          (or_exit (window_SetupWithManager M)
          (or_exit (if webhookEnabled fl then webhook_SetupWithManager else State_Monad.return None)
          (or_exit (invoke M (AddHealthzCheck ''healthz''))
          (or_exit (invoke M (AddReadyzCheck ''ping''))
          (or_exit (invoke M (AddReadyzCheck ''cache''))
          (or_exit (invoke M StartManager) (State_Monad.return Returned))))))))))"


section \<open>The wiring as one list\<close>

definition wiring :: "mainFlags \<Rightarrow> mgr_call list" where
  "wiring fl =
     [GetConfigOrDie, NewManager (mgrOpts fl), IndexPods ''spec.nodeName'' IndexPodNodeName,
      IndexWindows ''spec.policyName'' IndexWindowPolicyName, IndexWindows ''spec.target'' IndexWindowWorkload,
      IndexWindows ''spec.vulnerableNodes'' IndexWindowVulnerableNode, policy_controller, window_controller] @
     (if webhookEnabled fl then [RegisterHandler DeploymentPath, RegisterHandler PolicyPath, RegisterHandler EvictionPath] else []) @
     [AddHealthzCheck ''healthz'', AddReadyzCheck ''ping'', AddReadyzCheck ''cache'', StartManager]"

fun result_of :: "manager \<Rightarrow> mgr_call list \<Rightarrow> mgr_call \<Rightarrow> goerror option" where
  "result_of M done (RegisterHandler path) = None"
| "result_of M done call = M done call"

text \<open>Make the calls in order up to and including the first that fails.\<close>

fun make_calls :: "manager \<Rightarrow> mgr_call list \<Rightarrow> mgr_call list \<Rightarrow> mgr_call list \<times> goerror option" where
  "make_calls M done [] = (done, None)"
| "make_calls M done (call # rest) =
     (case result_of M done call of Some e \<Rightarrow> (done @ [call], Some e) | None \<Rightarrow> make_calls M (done @ [call]) rest)"


section \<open>Lemmas\<close>

lemma make_calls_append:
  "make_calls M done (cs @ ds) =
     (case make_calls M done cs of (done', Some e) \<Rightarrow> (done', Some e) | (done', None) \<Rightarrow> make_calls M done' ds)"
  by (induction cs arbitrary: "done") (simp_all split: option.split)

text \<open>
  A step of the setup makes the calls \<open>cs\<close> up to the first failure, which it returns; from a
  process with \<open>P\<close> it leaves one with \<open>Q\<close> when nothing fails.
\<close>

definition makes :: "manager \<Rightarrow> (process \<Rightarrow> bool) \<Rightarrow> goerror option proc \<Rightarrow> mgr_call list \<Rightarrow> (process \<Rightarrow> bool) \<Rightarrow> bool" where
  "makes M P m cs Q \<longleftrightarrow>
     (\<forall>p err p'. P p \<longrightarrow> run_state m p = (err, p') \<longrightarrow> make_calls M (mgr_calls p) cs = (mgr_calls p', err) \<and> (err = None \<longrightarrow> Q p'))"

lemma makes_or_return:
  assumes "makes M P m cs Q" and "makes M Q k ds R"
  shows "makes M P (or_return m k) (cs @ ds) R"
  unfolding makes_def
proof (intro allI impI)
  fix p err p' assume p: "P p" and run: "run_state (or_return m k) p = (err, p')"
  obtain e p1 where one: "run_state m p = (e, p1)" by fastforce
  with assms(1) p have calls: "make_calls M (mgr_calls p) cs = (mgr_calls p1, e)" "e = None \<Longrightarrow> Q p1" unfolding makes_def by auto
  show "make_calls M (mgr_calls p) (cs @ ds) = (mgr_calls p', err) \<and> (err = None \<longrightarrow> R p')"
  proof (cases e)
    case None
    with run one have "run_state k p1 = (err, p')" by (simp add: or_return_def)
    with assms(2) calls None show ?thesis by (simp add: makes_def make_calls_append)
  next
    case (Some x)
    with run one calls show ?thesis by (auto simp: or_return_def make_calls_append)
  qed
qed

lemma makes_invoke:
  assumes "\<And>p. P p \<Longrightarrow> Q (p\<lparr>mgr_calls := mgr_calls p @ [call]\<rparr>)" and "\<And>done. result_of M done call = M done call"
  shows "makes M P (invoke M call) [call] Q"
  using assms by (auto simp: makes_def invoke_def split: option.split)

text \<open>The indexes as they are before and after their registration without error.\<close>

definition unregistered :: "process \<Rightarrow> bool" where
  "unregistered p \<longleftrightarrow> \<not> podIndexesOnce p \<and> \<not> windowIndexesOnce p"

definition pods_registered :: "process \<Rightarrow> bool" where
  "pods_registered p \<longleftrightarrow> podIndexesOnce p \<and> podIndexesErr p = None \<and> \<not> windowIndexesOnce p"

definition all_registered :: "process \<Rightarrow> bool" where
  "all_registered p \<longleftrightarrow> podIndexesOnce p \<and> podIndexesErr p = None \<and> windowIndexesOnce p \<and> windowIndexesErr p = None"

lemmas registered_defs = unregistered_def pods_registered_def all_registered_def

abbreviation pod_calls :: "mgr_call list" where
  "pod_calls \<equiv> [IndexPods ''spec.nodeName'' IndexPodNodeName]"

abbreviation window_calls :: "mgr_call list" where
  "window_calls \<equiv> [IndexWindows ''spec.policyName'' IndexWindowPolicyName] @ [IndexWindows ''spec.target'' IndexWindowWorkload] @
     [IndexWindows ''spec.vulnerableNodes'' IndexWindowVulnerableNode]"

lemma makes_registerPodIndexes: "makes M unregistered (registerPodIndexes M) pod_calls pods_registered"
  by (auto simp: makes_def registerPodIndexes_def invoke_def registered_defs State_Monad.update_def split: option.split)

lemma makes_index_windows: "makes M pods_registered (index_windows M) window_calls pods_registered"
  unfolding index_windows_def by (intro makes_or_return makes_invoke) (simp_all add: registered_defs)

lemma makes_registerWindowIndexes: "makes M pods_registered (registerWindowIndexes M) window_calls all_registered"
  unfolding makes_def
proof (intro allI impI)
  fix p err p' assume p: "pods_registered p" and run: "run_state (registerWindowIndexes M) p = (err, p')"
  obtain e p1 where one: "run_state (index_windows M) p = (e, p1)" by fastforce
  with makes_index_windows p have "make_calls M (mgr_calls p) window_calls = (mgr_calls p1, e) \<and> (e = None \<longrightarrow> pods_registered p1)"
    unfolding makes_def by blast
  moreover have "err = e" "p' = p1\<lparr>windowIndexesErr := e, windowIndexesOnce := True\<rparr>"
    using run one p by (auto simp: registerWindowIndexes_def registered_defs State_Monad.update_def)
  ultimately show "make_calls M (mgr_calls p) window_calls = (mgr_calls p', err) \<and> (err = None \<longrightarrow> all_registered p')"
    by (simp add: registered_defs)
qed

lemma makes_nothing: "makes M all_registered (registerWindowIndexes M) [] all_registered"
  by (simp add: makes_def registerWindowIndexes_def registered_defs)

lemma makes_policy_setup: "makes M unregistered (policy_SetupWithManager M) (pod_calls @ window_calls @ [policy_controller]) all_registered"
  unfolding policy_SetupWithManager_def
  by (intro makes_or_return [OF makes_registerPodIndexes] makes_or_return [OF makes_registerWindowIndexes] makes_invoke)
    (simp_all add: registered_defs policy_controller_def)

lemma makes_window_setup: "makes M all_registered (window_SetupWithManager M) ([] @ [window_controller]) all_registered"
  unfolding window_SetupWithManager_def
  by (intro makes_or_return [OF makes_nothing] makes_invoke) (simp_all add: registered_defs window_controller_def)

lemma makes_webhooks:
  "makes M all_registered (if b then webhook_SetupWithManager else State_Monad.return None)
     (if b then [RegisterHandler DeploymentPath, RegisterHandler PolicyPath, RegisterHandler EvictionPath] else []) all_registered"
  by (simp add: makes_def webhook_SetupWithManager_def registerEviction_def registerHandler_def) (auto simp: registered_defs)

text \<open>The steps of \<open>main\<close>: what it returns says whether all the calls succeeded.\<close>

definition finishes :: "manager \<Rightarrow> (process \<Rightarrow> bool) \<Rightarrow> main_result proc \<Rightarrow> mgr_call list \<Rightarrow> bool" where
  "finishes M P m cs \<longleftrightarrow>
     (\<forall>p r p'. P p \<longrightarrow> run_state m p = (r, p') \<longrightarrow>
        (\<exists>err. make_calls M (mgr_calls p) cs = (mgr_calls p', err) \<and> r = (if err = None then Returned else Exit 1)))"

lemma finishes_return: "finishes M P (State_Monad.return Returned) []"
  by (simp add: finishes_def)

lemma finishes_or_exit:
  assumes "makes M P m cs Q" and "finishes M Q k ds"
  shows "finishes M P (or_exit m k) (cs @ ds)"
  unfolding finishes_def
proof (intro allI impI)
  fix p r p' assume p: "P p" and run: "run_state (or_exit m k) p = (r, p')"
  obtain e p1 where one: "run_state m p = (e, p1)" by fastforce
  with assms(1) p have calls: "make_calls M (mgr_calls p) cs = (mgr_calls p1, e)" "e = None \<Longrightarrow> Q p1" unfolding makes_def by auto
  show "\<exists>err. make_calls M (mgr_calls p) (cs @ ds) = (mgr_calls p', err) \<and> r = (if err = None then Returned else Exit 1)"
  proof (cases e)
    case None
    with run one have "run_state k p1 = (r, p')" by (simp add: or_exit_def)
    with assms(2) calls None show ?thesis by (simp add: finishes_def make_calls_append)
  next
    case (Some x)
    with run one calls show ?thesis by (auto simp: or_exit_def make_calls_append)
  qed
qed

lemma main_finishes:
  assumes "\<not> (webhookEnabled fl \<and> webhookCertDir fl = [])"
  shows "finishes M unregistered (main M fl) (wiring fl)"
proof -
  have "finishes M unregistered (main M fl)
     ([GetConfigOrDie] @ [NewManager (mgrOpts fl)] @ (pod_calls @ window_calls @ [policy_controller]) @ ([] @ [window_controller]) @
      (if webhookEnabled fl then [RegisterHandler DeploymentPath, RegisterHandler PolicyPath, RegisterHandler EvictionPath] else []) @
      [AddHealthzCheck ''healthz''] @ [AddReadyzCheck ''ping''] @ [AddReadyzCheck ''cache''] @ [StartManager] @ [])"
    unfolding main_def if_not_P [OF assms]
    by (intro finishes_or_exit [where Q = unregistered] finishes_or_exit [OF makes_policy_setup] finishes_or_exit [OF makes_window_setup]
        finishes_or_exit [OF makes_webhooks] finishes_or_exit [where Q = all_registered] finishes_return makes_invoke)
      (simp_all add: registered_defs)
  then show ?thesis by (simp add: wiring_def)
qed


section \<open>Properties\<close>

text \<open>
  C29. The process is wired completely and in order before it starts. Whatever the manager
  answers, \<open>main\<close> makes the calls of \<open>wiring\<close> up to the first that fails and then exits with
  status 1; it returns only when all succeed. So when the manager starts, both controllers
  and all checks are in place, every field index that the controllers list by is registered,
  each exactly once although both controllers ask for the window indexes, and the webhooks
  are there exactly when they are enabled. Without a certificate directory for them nothing
  is called at all.
\<close>

theorem main_performs_wiring:
  "(case run_state (main M fl) new_process of (r, p) \<Rightarrow>
     if webhookEnabled fl \<and> webhookCertDir fl = [] then r = Exit 1 \<and> mgr_calls p = []
     else (mgr_calls p, if r = Returned then None else Some r) =
       (case make_calls M [] (wiring fl) of (made, err) \<Rightarrow> (made, map_option (\<lambda>_. Exit 1) err)))"
proof (cases "webhookEnabled fl \<and> webhookCertDir fl = []")
  case True
  then show ?thesis by (simp add: main_def new_process_def)
next
  case False
  obtain r p where run: "run_state (main M fl) new_process = (r, p)" by fastforce
  have "unregistered new_process" "mgr_calls new_process = []" by (simp_all add: unregistered_def new_process_def)
  with main_finishes [OF False, unfolded finishes_def, rule_format, OF _ run]
  obtain err where "make_calls M [] (wiring fl) = (mgr_calls p, err)" "r = (if err = None then Returned else Exit 1)" by auto
  with run False show ?thesis by auto
qed

end
