(* ===== verification/Spec2Isabelle.thy ===== *)
theory Spec2Isabelle
  imports Capacity Evict_Gate Bindings Field_Store Window_Phase Webhooks Scale_Actions Scale_Error Spare Scale_Theorems
    Window_Refinement Policy_Theorems Enqueue Open_Close Policy_Deletion Interleaving
    External_Catalog Spare_Wait Deferred_Windows Window_Slots Compensation Manager_Setup
begin

text \<open>
  \<^bold>\<open>Verification of eviction-guard\<close>, a Kubernetes operator that raises the capacity of opted-in
  deployments before the nodes they run on are drained, holds back evictions until the spare
  capacity is ready, and takes the capacity away again afterwards.

  \<^bold>\<open>The program.\<close> A policy (\<open>EvictionGuardPolicy\<close>) names the nodes it watches, the signals that
  announce a disruption and the objects whose capacity it may patch. A window
  (\<open>EvictionGuardWindow\<close>) records one disruption of one deployment. Four parts work on them
  through the API server:

  \<^item> The policy controller (\<open>src/internal/controller/policy_controller.go\<close>) is woken by nodes and
    pods (\<open>enqueue.go\<close>), finds the vulnerable nodes (\<open>pkg/filters\<close>, \<open>pkg/signals\<close>), walks from their
    pods to the deployments it owns (\<open>pkg/workload\<close>, \<open>pkg/policyown\<close>), and opens a window for each
    (or a deferred one above \<open>maxConcurrentWindows\<close>), then builds and applies a plan (\<open>plan.go\<close>,
    \<open>pkg/capacity\<close>, \<open>pkg/backends\<close>).
  \<^item> The window controller (\<open>window_controller.go\<close>) counts at-risk pods and spare capacity
    (\<open>spare.go\<close>), decides (\<open>window_phase.go\<close>, \<open>maxwindow.go\<close>) and scales back from the actions that the
    window records (\<open>scale_actions.go\<close>).
  \<^item> The eviction webhook (\<open>src/internal/webhook/eviction.go\<close>, \<open>pkg/evictgate\<close>) allows or denies
    each eviction from the state of the window.
  \<^item> The validating webhooks (\<open>webhook.go\<close>, \<open>pkg/validate\<close>) check policies and annotations.

  \<open>src/cmd/main.go\<close> registers the indexes, the controllers, the webhooks and the checks with one
  manager and starts it.

  \<^bold>\<open>The model.\<close> A struct is a record with the Go field names behind a prefix, an enum a datatype, a
  pointer an option, a Go map an association list, an \<open>int32\<close> an int with \<open>int32\<close> (wrap-around)
  written at every sum, an error a value of \<open>goerror\<close> on the left of a sum. A handler is a state
  monad over the cluster state and a log of metrics and events; it keeps the order of the
  calls, every early return and every error path. Function names are those of the code; a
  function that the code writes as one body with several loops is cut at the loops, and the
  parts have names in lower case with underscores.

  \<^item> \<open>Prelude\<close>, \<open>Go_Strings\<close>, \<open>Go_Glob\<close>, \<open>Go_Duration\<close>, \<open>Go_Time\<close>, \<open>Sha256\<close>, \<open>Json_Patch\<close>: what the code
    uses of Go and its standard library, the handler monad, the shared lemmas and the locale
    \<open>memo_table\<close> of a lookup cache.
  \<^item> \<open>Api_Types\<close>: \<open>src/api/v1alpha1\<close>. \<open>Cluster_Api\<close>: the parameters, and \<open>emitf\<close> of \<open>events.go\<close>.
  \<^item> \<open>Signals\<close>, \<open>Filters\<close>, \<open>Policy_Own\<close>, \<open>Workload_Owner\<close>, \<open>Naming\<close>, \<open>Capacity\<close>, \<open>Metrics\<close>, \<open>Validate\<close>:
    the packages of \<open>src/pkg\<close> of the same purpose. \<open>Bindings\<close>, \<open>Field_Backend\<close>: \<open>src/pkg/backends\<close>.
    \<open>Evict_Gate\<close>, \<open>Webhooks\<close>: \<open>src/pkg/evictgate\<close>, \<open>src/internal/webhook\<close>.
  \<^item> \<open>Indexes\<close>, \<open>Scale_Actions\<close>, \<open>Scale_Error\<close>, \<open>Spare\<close>, \<open>Window_Phase\<close>, \<open>Plan\<close>, \<open>Requeue\<close>,
    \<open>Window_Controller\<close>, \<open>Enqueue\<close>: the files of \<open>src/internal/controller\<close> of these names;
    \<open>Policy_Workloads\<close> and \<open>Policy_Controller\<close>: the two halves of \<open>policy_controller.go\<close>.
    \<open>Manager_Setup\<close>: \<open>main\<close>, the \<open>SetupWithManager\<close> functions and the registration in \<open>indexes.go\<close>.
  \<^item> \<open>Mem_Cluster\<close>: a concrete cluster and client, on which every hypothesis about the API server
    is shown to hold and every property with hypotheses is applied.

  \<^bold>\<open>Parameters and hypotheses.\<close> Code outside the repository is an argument: \<open>env\<close> (apimachinery,
  controller-runtime helpers) and \<open>client\<close> (API server, clock, recorder). What a theorem relies on
  is one of these named hypotheses: \<open>conditions_documented\<close> and \<open>finalizers_documented\<close> (status
  conditions and finalizers behave as sets by name), \<open>nested_documented\<close> (accessors of unstructured
  objects), \<open>patch_documented\<close> (merge patches are read back and touch one object),
  \<open>not_found_documented\<close>, \<open>refusals_documented\<close> (a refused patch is not done),
  \<open>window_api_documented\<close> (successful writes to windows, times cut to seconds), \<open>writes_documented\<close>
  (writes to windows that may be done or not done, whatever they return), \<open>flag_documented\<close> (what
  these writes do to \<open>SpareReady\<close> and that they leave the pods alone), \<open>windows_apart\<close> (a write to a
  window leaves the others alone), \<open>finalizer_patch_documented\<close> (a patch of the finalizers of a live
  window changes nothing else), \<open>deletion_documented\<close> (deletion waits for the last finalizer),
  \<open>controller_ref_documented\<close>, \<open>selectors_documented\<close>, and
  the naming rules of the API server \<open>named_windows\<close>, \<open>named_deployments\<close>, \<open>pods_ok\<close>. The manager of
  controller-runtime is a function from the calls so far to the answer of the next one.
  \<open>window_api_documented\<close> and \<open>patch_documented\<close> speak of reads of the stored state after a write;
  the client of the manager reads from a cache that may lag behind, which is not modelled.

  \<^bold>\<open>Interfaces.\<close> \<open>signal_registry\<close>, \<open>node_filter\<close>, \<open>ownership\<close>, \<open>action_log\<close>, \<open>field_store\<close> and \<open>memo_table\<close>
  are locales: the laws that a component promises to its callers, each interpreted on the
  model's own functions (\<open>sig_reg\<close>, \<open>flt\<close>, \<open>own\<close>, \<open>actions\<close>, \<open>fs\<close>; \<open>node_memo\<close>, \<open>owner_memo\<close>, \<open>ns_memo\<close>,
  \<open>owns_memo\<close> for the four caches of the controllers). \<open>invariant_frame\<close> has the rules by which
  invariants of the cluster are composed over a handler; it is interpreted as \<open>grow\<close> (no window
  is lost), \<open>shrink\<close> (none is made) and \<open>hold\<close> (a given invariant is kept). \<open>window_walk\<close> extends it
  by what the single writes of the window controller do and carries that through all of its
  paths once; it is interpreted as \<open>shrinking\<close> (what is recorded stays recorded) and \<open>seeing\<close>
  (\<open>SpareReady\<close> is set only by a count of the pods).

  \<^bold>\<open>What is shown.\<close>

  \<^item> \<open>Evict_Gate\<close>, \<open>Webhooks\<close>: exactly when an eviction is allowed; one at-risk pod at a time; a drain
    makes progress when its pods are covered; only covered pods are held back; the webhook fails
    closed; what an admitted policy or deployment guarantees, and what blanks in a path do.
  \<^item> \<open>Field_Store\<close>, \<open>Scale_Cycle\<close>, \<open>Scale_Theorems\<close>: a successful apply raises exactly the planned
    fields, a restore lowers exactly the recorded ones, baselines are sticky. \<open>Compensation\<close>: a
    failed apply of a fresh plan is undone, object by object; one on recorded baselines loses
    what was held.
  \<^item> \<open>Window_Phase\<close>: the clock machine of a window and its reachable states: it closes only after a
    calm cooldown, it does close when calm, an exceeded maximum is final. \<open>Window_Store\<close>,
    \<open>Window_Refinement\<close>: one successful reconcile of the window controller is one tick of that
    machine on the stored window; a window without its deployment or policy never
    closes, over every infinite run.
  \<^item> \<open>Policy_Workloads\<close>: the walk counts exactly the at-risk pods, and its caches do not matter.
    \<open>Policy_Theorems\<close>: the count of slots, and what a tombstone does to it. \<open>Open_Close\<close>: no capacity is raised before the window that
    undoes it is stored, and both controllers together leave capacity as they found it.
    \<open>Enqueue\<close>: which node changes wake a policy, and one that does not.
  \<^item> \<open>Window_Walk\<close>, \<open>Window_Record\<close>, \<open>Interleaving\<close>: over every interleaving of failing or succeeding reconciles of
    both controllers and foreign changes, what a window has to give back stays recorded;
    \<open>External_Catalog\<close>: the case of an external catalog, where it is forgotten.
    \<open>Policy_Deletion\<close>: deleting a policy ends, with its windows and nothing else gone.
  \<^item> \<open>Spare_Seen\<close>, \<open>Spare_Wait\<close>: over every such history, a covered pod is let go only after its spare
    was there (or the window was forced cool), and how what was there can be out of date.
    \<open>Deferred_Windows\<close>: a deferred window is opened as soon as a slot is free. \<open>Window_Slots\<close>: how many
    stored windows the loop over the workloads may open.
  \<^item> \<open>Manager_Setup\<close>: \<open>main\<close> wires everything, each thing once and in order, before it starts.
  \<^item> The remaining component properties: spare counting, conditions, ownership, filters, bindings,
    stamps, target size, window names.

  \<^bold>\<open>Loops.\<close> Every loop of the code is structural recursion or has a measure; no fuel is used, so every
  definition is total and executable. Loops over Go maps whose order matters go over sorted keys
  in the code; the others are modelled in list order, and the theorems do not depend on it.

  \<^bold>\<open>Not modelled.\<close> Log lines; the generated \<open>zz_generated.deepcopy.go\<close> (values are immutable here);
  the registration of the API group with the scheme and of the collectors with the metrics
  registry (declarations without logic of their own); the parsing of the command line; the
  mutex of the detector registry. A reconcile is one step of \<open>sys_step\<close>: what a single API call
  observes of concurrent writers is left to the client parameter, whose reads and writes may
  fail at any point.

  \<^bold>\<open>Left open.\<close> Interleaving at the level of single API calls, which needs the version conflicts of the
  API server as part of the state; that the queue of deferred windows drains over a sequence
  of reconciles, which needs a fairness assumption on the work queue of controller-runtime.
\<close>

end
